theory Spec2Isabelle
  imports Main "HOL-Library.Word"
begin

section \<open>Statuses, file types and engine data\<close>

text \<open>
  A shallow embedding of \<^verbatim>\<open>utilities/checkpoint/checkpoint_impl.cc\<close>.
  A \<^verbatim>\<open>Status\<close> is either OK or an error code with its message.
\<close>

datatype status =
    OK
  | NotFound string
  | Corruption string
  | NotSupported string
  | InvalidArgument string
  | IOError string
  | OtherError string

definition ok :: "status \<Rightarrow> bool" where
  "ok s = (s = OK)"

fun IsNotFound :: "status \<Rightarrow> bool" where
  "IsNotFound (NotFound m) = True"
| "IsNotFound s = False"

fun IsNotSupported :: "status \<Rightarrow> bool" where
  "IsNotSupported (NotSupported m) = True"
| "IsNotSupported s = False"

fun IsInvalidArgument :: "status \<Rightarrow> bool" where
  "IsInvalidArgument (InvalidArgument m) = True"
| "IsInvalidArgument s = False"

datatype FileType =
    kWalFile | kDBLockFile | kTableFile | kDescriptorFile | kCurrentFile | kTempFile
  | kInfoLogFile | kMetaDatabase | kIdentityFile | kOptionsFile | kBlobFile

datatype WalFileType = kArchivedLogFile | kAliveLogFile

type_synonym uint64 = "64 word"

definition kMaxUint64 :: uint64 where
  "kMaxUint64 = - 1"

definition kUnknownFileChecksum :: string where
  "kUnknownFileChecksum = ''''"

definition kUnknownFileChecksumFuncName :: string where
  "kUnknownFileChecksumFuncName = ''Unknown''"

text \<open>A WAL descriptor (\<^verbatim>\<open>LogFile\<close>), with the accessors the code calls.\<close>

record LogFile =
  PathName :: string
  LogNumber :: uint64
  Type :: WalFileType
  SizeFileBytes :: uint64

text \<open>The fields of \<^verbatim>\<open>DBOptions\<close> this file reads or overrides.\<close>

record DBOptions =
  allow_2pc :: bool
  use_fsync :: bool
  db_log_dir :: string
  wal_dir :: string

type_synonym ColumnFamilyOptions = string

record ColumnFamilyDescriptor =
  cfd_name :: string
  cfd_options :: ColumnFamilyOptions

text \<open>
  Table-file metadata. \<^verbatim>\<open>size\<close>, \<^verbatim>\<open>name\<close> and \<^verbatim>\<open>level\<close> carry a prefix,
  the other fields keep the names of \<^verbatim>\<open>rocksdb/metadata.h\<close>.
\<close>

record SstFileMetaData =
  sst_size :: uint64
  sst_name :: string
  file_number :: uint64
  db_path :: string
  smallest_seqno :: uint64
  largest_seqno :: uint64
  smallestkey :: string
  largestkey :: string
  oldest_blob_file_number :: uint64

record LiveFileMetaData = SstFileMetaData +
  column_family_name :: string
  live_level :: int

record LevelMetaData =
  level :: int
  files :: "SstFileMetaData list"

record ColumnFamilyMetaData =
  levels :: "LevelMetaData list"

record ExportImportFilesMetaData =
  db_comparator_name :: string
  ei_files :: "LiveFileMetaData list"

record ColumnFamilyHandle =
  cf_name :: string
  comparator_name :: string

text \<open>The checksum list read from the manifest: file number to (value, function name).\<close>

type_synonym FileChecksumList = "(uint64 \<times> string \<times> string) list"

section \<open>The engine and the filesystem\<close>

text \<open>
  The database, its \<^verbatim>\<open>Env\<close> and its \<^verbatim>\<open>FileSystem\<close> are collaborators whose code
  is not part of this file. They are a parameter of every function below: a record of
  operations over a world \<open>'w\<close>. An operation that performs I/O or changes the engine
  takes the world and returns its result with the new world; an accessor only reads.
\<close>

record 'w env =
  GetName :: string
  GetDBOptions :: DBOptions
  GetWalDir :: "DBOptions \<Rightarrow> string"
  ParseFileName :: "string \<Rightarrow> (uint64 \<times> FileType) option"
  GetLatestSequenceNumber :: "'w \<Rightarrow> uint64"
  GetMinLogNumberToKeep :: "'w \<Rightarrow> uint64 option"
  FileExists :: "string \<Rightarrow> 'w \<Rightarrow> status \<times> 'w"
  GetChildren :: "string \<Rightarrow> 'w \<Rightarrow> (status \<times> string list) \<times> 'w"
  DeleteFile :: "string \<Rightarrow> 'w \<Rightarrow> status \<times> 'w"
  DeleteDir :: "string \<Rightarrow> 'w \<Rightarrow> status \<times> 'w"
  CreateDir :: "string \<Rightarrow> 'w \<Rightarrow> status \<times> 'w"
  RenameFile :: "string \<Rightarrow> string \<Rightarrow> 'w \<Rightarrow> status \<times> 'w"
  NewDirectory :: "string \<Rightarrow> 'w \<Rightarrow> (status \<times> bool) \<times> 'w"
  DirFsync :: "string \<Rightarrow> 'w \<Rightarrow> status \<times> 'w"
  LinkFile :: "string \<Rightarrow> string \<Rightarrow> 'w \<Rightarrow> status \<times> 'w"
  CopyFile :: "string \<Rightarrow> string \<Rightarrow> uint64 \<Rightarrow> bool \<Rightarrow> 'w \<Rightarrow> status \<times> 'w"
  CreateFile :: "string \<Rightarrow> string \<Rightarrow> bool \<Rightarrow> 'w \<Rightarrow> status \<times> 'w"
  LoadOptionsFromFile ::
    "string \<Rightarrow> 'w \<Rightarrow> (status \<times> DBOptions \<times> ColumnFamilyDescriptor list) \<times> 'w"
  PersistRocksDBOptions ::
    "DBOptions \<Rightarrow> string list \<Rightarrow> ColumnFamilyOptions list \<Rightarrow> string \<Rightarrow> 'w \<Rightarrow> status \<times> 'w"
  GetFileChecksumsFromManifest ::
    "string \<Rightarrow> uint64 \<Rightarrow> 'w \<Rightarrow> (status \<times> FileChecksumList) \<times> 'w"
  DisableFileDeletions :: "'w \<Rightarrow> status \<times> 'w"
  EnableFileDeletions :: "bool \<Rightarrow> 'w \<Rightarrow> status \<times> 'w"
  GetSortedWalFiles :: "'w \<Rightarrow> (status \<times> LogFile list) \<times> 'w"
  GetLiveFiles :: "bool \<Rightarrow> 'w \<Rightarrow> (status \<times> string list \<times> uint64) \<times> 'w"
  FlushWAL :: "bool \<Rightarrow> 'w \<Rightarrow> status \<times> 'w"
  Flush :: "ColumnFamilyHandle \<Rightarrow> 'w \<Rightarrow> status \<times> 'w"
  GetColumnFamilyMetaData :: "ColumnFamilyHandle \<Rightarrow> 'w \<Rightarrow> ColumnFamilyMetaData \<times> 'w"

section \<open>String helpers of the C++ standard library\<close>

text \<open>
  \<^verbatim>\<open>std::string::find_last_not_of(c)\<close>: the index of the last character different
  from \<open>c\<close>, \<open>None\<close> for \<^verbatim>\<open>npos\<close>.
\<close>

fun find_last_not_of :: "string \<Rightarrow> char \<Rightarrow> nat option" where
  "find_last_not_of [] c = None"
| "find_last_not_of (x # xs) c =
     (case find_last_not_of xs c of
        Some i \<Rightarrow> Some (Suc i)
      | None \<Rightarrow> if x \<noteq> c then Some 0 else None)"

text \<open>
  \<^verbatim>\<open>s.substr(0, s.find_last_not_of('/') + 1)\<close>: \<^verbatim>\<open>npos + 1\<close> wraps around to 0 in
  \<^verbatim>\<open>size_t\<close>, so a string of slashes only gives the empty string.
\<close>

definition substr_to_last_nonslash :: "string \<Rightarrow> string" where
  "substr_to_last_nonslash s =
     (case find_last_not_of s (CHR ''/'') of
        None \<Rightarrow> take 0 s
      | Some i \<Rightarrow> take (i + 1) s)"

text \<open>\<^verbatim>\<open>s.rfind(prefix, 0) == 0\<close>: \<open>s\<close> starts with \<open>prefix\<close>.\<close>

definition rfind0 :: "string \<Rightarrow> string \<Rightarrow> bool" where
  "rfind0 s pre = (take (length pre) s = pre)"

section \<open>CleanStagingDirectory\<close>

fun delete_subchildren :: "'w env \<Rightarrow> string \<Rightarrow> string list \<Rightarrow> 'w \<Rightarrow> 'w" where
  "delete_subchildren env dir [] w = w"
| "delete_subchildren env dir (subchild # rest) w =
     (case DeleteFile env (dir @ ''/'' @ subchild) w of
        (s, w1) \<Rightarrow> delete_subchildren env dir rest w1)"

definition CleanStagingDirectory :: "'w env \<Rightarrow> string \<Rightarrow> 'w \<Rightarrow> 'w" where
  "CleanStagingDirectory env full_private_path w =
     (case FileExists env full_private_path w of
        (s, w1) \<Rightarrow>
          if IsNotFound s then w1
          else
            (case GetChildren env full_private_path w1 of
               ((s2, subchildren), w2) \<Rightarrow>
                 (case DeleteDir env full_private_path
                         (if ok s2 then delete_subchildren env full_private_path subchildren w2
                          else w2) of
                    (s3, w3) \<Rightarrow> w3)))"

section \<open>CopyOptionsFile\<close>

definition CopyOptionsFile ::
  "'w env \<Rightarrow> string \<Rightarrow> string \<Rightarrow> string \<Rightarrow> string \<Rightarrow> 'w \<Rightarrow> status \<times> 'w" where
  "CopyOptionsFile env src_file target_file db_log_dir_arg wal_dir_arg w =
     (case LoadOptionsFromFile env src_file w of
        ((s, src_db_options, src_cf_descs), w1) \<Rightarrow>
          if \<not> ok s then (s, w1)
          else
            PersistRocksDBOptions env
              (src_db_options\<lparr>db_log_dir := db_log_dir_arg, wal_dir := wal_dir_arg\<rparr>)
              (map cfd_name src_cf_descs) (map cfd_options src_cf_descs) target_file w1)"

section \<open>CreateCustomCheckpoint\<close>

type_synonym 'w link_cb = "string \<Rightarrow> string \<Rightarrow> FileType \<Rightarrow> 'w \<Rightarrow> status \<times> 'w"

type_synonym 'w copy_cb =
  "string \<Rightarrow> string \<Rightarrow> uint64 \<Rightarrow> FileType \<Rightarrow> string \<Rightarrow> string \<Rightarrow> 'w \<Rightarrow> status \<times> 'w"

type_synonym 'w create_cb = "string \<Rightarrow> string \<Rightarrow> FileType \<Rightarrow> 'w \<Rightarrow> status \<times> 'w"

text \<open>
  Lines 264-288: whether \<^verbatim>\<open>GetLiveFiles\<close> is asked to flush the memtable. The early
  \<^verbatim>\<open>return s\<close> is \<open>Inl s\<close>. \<^verbatim>\<open>total_wal_size\<close> is accumulated in \<^verbatim>\<open>uint64_t\<close>.
\<close>

definition flush_decision ::
  "'w env \<Rightarrow> DBOptions \<Rightarrow> uint64 \<Rightarrow> 'w \<Rightarrow> (status + bool) \<times> 'w" where
  "flush_decision env db_options log_size_for_flush w =
     (if \<not> allow_2pc db_options then
        if log_size_for_flush = kMaxUint64 then (Inr False, w)
        else if log_size_for_flush > 0 then
          (case GetSortedWalFiles env w of
             ((s, live_wal_files), w1) \<Rightarrow>
               if \<not> ok s then (Inl s, w1)
               else
                 (let total_wal_size =
                        foldl (\<lambda>total wal. total + SizeFileBytes wal) 0 live_wal_files
                  in (Inr (\<not> total_wal_size < log_size_for_flush), w1)))
        else (Inr True, w)
      else (Inr True, w))"

text \<open>
  Lines 335-370, the loop over the live files. It carries the status, \<^verbatim>\<open>manifest_fname\<close>,
  \<^verbatim>\<open>current_fname\<close> and the table and blob files recorded for the next loop.
  The assertions of the source are not part of a release build and are not modelled.
\<close>

fun live_files_loop ::
  "'w env \<Rightarrow> 'w copy_cb \<Rightarrow> uint64 \<Rightarrow> string list \<Rightarrow> status \<Rightarrow> string \<Rightarrow> string \<Rightarrow>
   (string \<times> uint64 \<times> FileType) list \<Rightarrow> 'w \<Rightarrow>
   (status \<times> string \<times> string \<times> (string \<times> uint64 \<times> FileType) list) \<times> 'w" where
  "live_files_loop env copy_file_cb manifest_file_size [] s manifest_fname current_fname tb w =
     ((s, manifest_fname, current_fname, tb), w)"
| "live_files_loop env copy_file_cb manifest_file_size (live_file # rest) s manifest_fname
       current_fname tb w =
     (if \<not> ok s then ((s, manifest_fname, current_fname, tb), w)
      else
        (case ParseFileName env live_file of
           None \<Rightarrow>
             ((Corruption (''Can'' @ [CHR 0x27] @ ''t parse file name. This is very bad''), manifest_fname,
               current_fname, tb), w)
         | Some (number, ftype) \<Rightarrow>
             if ftype = kCurrentFile then
               live_files_loop env copy_file_cb manifest_file_size rest s manifest_fname
                 live_file tb w
             else if ftype \<noteq> kTableFile \<and> ftype \<noteq> kBlobFile then
               (case copy_file_cb (GetName env) live_file
                       (if ftype = kDescriptorFile then manifest_file_size else 0) ftype
                       kUnknownFileChecksumFuncName kUnknownFileChecksum w of
                  (s1, w1) \<Rightarrow>
                    live_files_loop env copy_file_cb manifest_file_size rest s1
                      (if ftype = kDescriptorFile then live_file else manifest_fname)
                      current_fname tb w1)
             else
               live_files_loop env copy_file_cb manifest_file_size rest s
                 (if ftype = kDescriptorFile then live_file else manifest_fname)
                 current_fname (tb @ [(live_file, number, ftype)]) w))"

text \<open>
  \<^verbatim>\<open>SearchOneFileChecksum\<close>: the outputs keep the unknown checksum when the file
  number has no entry (the source asserts so).
\<close>

definition SearchOneFileChecksum :: "FileChecksumList \<Rightarrow> uint64 \<Rightarrow> string \<times> string" where
  "SearchOneFileChecksum checksum_list number =
     (case map_of checksum_list number of
        None \<Rightarrow> (kUnknownFileChecksum, kUnknownFileChecksumFuncName)
      | Some found \<Rightarrow> found)"

text \<open>Lines 398-426, the body of the loop over the table and blob files.\<close>

definition table_file_step ::
  "'w env \<Rightarrow> 'w link_cb \<Rightarrow> 'w copy_cb \<Rightarrow> bool \<Rightarrow> FileChecksumList \<Rightarrow>
   string \<times> uint64 \<times> FileType \<Rightarrow> status \<Rightarrow> bool \<Rightarrow> 'w \<Rightarrow> (status \<times> bool) \<times> 'w" where
  "table_file_step env link_file_cb copy_file_cb get_live_table_checksum checksum_list file
       s same_fs w =
     (case file of
        (src_fname, number, ftype) \<Rightarrow>
          (case (if same_fs then
                   (case link_file_cb (GetName env) src_fname ftype w of
                      (s1, w1) \<Rightarrow>
                        if IsNotSupported s1 then ((OK, False), w1) else ((s1, same_fs), w1))
                 else ((s, same_fs), w)) of
             ((s1, same_fs1), w1) \<Rightarrow>
               if \<not> same_fs1 then
                 (case (if get_live_table_checksum
                        then SearchOneFileChecksum checksum_list number
                        else (kUnknownFileChecksum, kUnknownFileChecksumFuncName)) of
                    (checksum_value, checksum_name) \<Rightarrow>
                      (case copy_file_cb (GetName env) src_fname 0 ftype checksum_name
                              checksum_value w1 of
                         (s2, w2) \<Rightarrow> ((s2, same_fs1), w2)))
               else ((s1, same_fs1), w1)))"

text \<open>Lines 386-427, the loop over the table and blob files.\<close>

fun table_files_loop ::
  "'w env \<Rightarrow> 'w link_cb \<Rightarrow> 'w copy_cb \<Rightarrow> bool \<Rightarrow> FileChecksumList \<Rightarrow>
   (string \<times> uint64 \<times> FileType) list \<Rightarrow> status \<Rightarrow> bool \<Rightarrow> 'w \<Rightarrow> (status \<times> bool) \<times> 'w" where
  "table_files_loop env link_file_cb copy_file_cb glc checksum_list [] s same_fs w =
     ((s, same_fs), w)"
| "table_files_loop env link_file_cb copy_file_cb glc checksum_list (file # rest) s same_fs w =
     (if \<not> ok s then ((s, same_fs), w)
      else
        (case table_file_step env link_file_cb copy_file_cb glc checksum_list file s same_fs w of
           ((s1, same_fs1), w1) \<Rightarrow>
             table_files_loop env link_file_cb copy_file_cb glc checksum_list rest s1 same_fs1
               w1))"

text \<open>Lines 440-442: the WAL files that take part in the checkpoint.\<close>

definition wal_wanted :: "bool \<Rightarrow> uint64 \<Rightarrow> LogFile \<Rightarrow> bool" where
  "wal_wanted flush_memtable min_log_num wal =
     (Type wal = kAliveLogFile \<and> (\<not> flush_memtable \<or> LogNumber wal \<ge> min_log_num))"

text \<open>Lines 449-460, the transfer of a WAL file that is not at the last index.\<close>

definition wal_file_step ::
  "'w link_cb \<Rightarrow> 'w copy_cb \<Rightarrow> string \<Rightarrow> LogFile \<Rightarrow> status \<Rightarrow> bool \<Rightarrow> 'w \<Rightarrow>
   (status \<times> bool) \<times> 'w" where
  "wal_file_step link_file_cb copy_file_cb src_wal_dir wal s same_fs w =
     (case (if same_fs then
              (case link_file_cb src_wal_dir (PathName wal) kWalFile w of
                 (s1, w1) \<Rightarrow>
                   if IsNotSupported s1 then ((OK, False), w1) else ((s1, same_fs), w1))
            else ((s, same_fs), w)) of
        ((s1, same_fs1), w1) \<Rightarrow>
          if \<not> same_fs1 then
            (case copy_file_cb src_wal_dir (PathName wal) 0 kWalFile
                    kUnknownFileChecksumFuncName kUnknownFileChecksum w1 of
               (s2, w2) \<Rightarrow> ((s2, same_fs1), w2))
          else ((s1, same_fs1), w1))"

text \<open>
  Lines 439-462, the loop over \<^verbatim>\<open>live_wal_files\<close>. The list argument is the part of
  \<^verbatim>\<open>live_wal_files\<close> from index \<^verbatim>\<open>i\<close> on, so \<^verbatim>\<open>i + 1 == wal_size\<close> holds
  exactly when nothing follows the file at hand.
\<close>

fun wal_files_loop ::
  "'w link_cb \<Rightarrow> 'w copy_cb \<Rightarrow> string \<Rightarrow> bool \<Rightarrow> uint64 \<Rightarrow> LogFile list \<Rightarrow> status \<Rightarrow>
   bool \<Rightarrow> 'w \<Rightarrow> (status \<times> bool) \<times> 'w" where
  "wal_files_loop link_file_cb copy_file_cb src_wal_dir flush_memtable min_log_num [] s same_fs
       w = ((s, same_fs), w)"
| "wal_files_loop link_file_cb copy_file_cb src_wal_dir flush_memtable min_log_num (wal # rest)
       s same_fs w =
     (if \<not> ok s then ((s, same_fs), w)
      else if wal_wanted flush_memtable min_log_num wal then
        if rest = [] then
          (case copy_file_cb src_wal_dir (PathName wal) (SizeFileBytes wal) kWalFile
                  kUnknownFileChecksumFuncName kUnknownFileChecksum w of
             (s1, w1) \<Rightarrow> ((s1, same_fs), w1))
        else
          (case wal_file_step link_file_cb copy_file_cb src_wal_dir wal s same_fs w of
             ((s1, same_fs1), w1) \<Rightarrow>
               wal_files_loop link_file_cb copy_file_cb src_wal_dir flush_memtable min_log_num
                 rest s1 same_fs1 w1)
      else
        wal_files_loop link_file_cb copy_file_cb src_wal_dir flush_memtable min_log_num rest s
          same_fs w)"

text \<open>
  Lines 264-305 of \<^verbatim>\<open>CreateCustomCheckpoint\<close> (defined below), read alone: the value that
  \<^verbatim>\<open>GetIntProperty\<close> leaves in \<^verbatim>\<open>min_log_num\<close> in a run that starts in the world \<open>w\<close>, after
  the flush decision and the first call of \<^verbatim>\<open>GetLiveFiles\<close>.
\<close>

definition min_log_num_seen :: "'w env \<Rightarrow> DBOptions \<Rightarrow> uint64 \<Rightarrow> 'w \<Rightarrow> uint64 option" where
  "min_log_num_seen env db_options log_size_for_flush w =
     (case flush_decision env db_options log_size_for_flush w of
        (Inl s, w1) \<Rightarrow> None
      | (Inr flush_memtable, w1) \<Rightarrow>
          (case GetLiveFiles env flush_memtable w1 of
             (r, w2) \<Rightarrow> GetMinLogNumberToKeep env w2))"

text \<open>
  Lines 328-464: the transfer of the enumerated files. \<^verbatim>\<open>manifest_fname.substr(1)\<close> drops
  the leading slash of the live file name.
\<close>

definition transfer_live_files ::
  "'w env \<Rightarrow> DBOptions \<Rightarrow> 'w link_cb \<Rightarrow> 'w copy_cb \<Rightarrow> 'w create_cb \<Rightarrow> bool \<Rightarrow> bool \<Rightarrow>
   uint64 \<Rightarrow> string list \<Rightarrow> uint64 \<Rightarrow> LogFile list \<Rightarrow> 'w \<Rightarrow> status \<times> 'w" where
  "transfer_live_files env db_options link_file_cb copy_file_cb create_file_cb
       get_live_table_checksum flush_memtable min_log_num live_files manifest_file_size
       live_wal_files w =
     (case live_files_loop env copy_file_cb manifest_file_size live_files OK [] [] [] w of
        ((s1, manifest_fname, current_fname, live_table_and_blob_files), w1) \<Rightarrow>
          (case (if ok s1 \<and> get_live_table_checksum then
                   GetFileChecksumsFromManifest env (GetName env @ manifest_fname)
                     manifest_file_size w1
                 else ((s1, []), w1)) of
             ((s2, checksum_list), w2) \<Rightarrow>
               (case table_files_loop env link_file_cb copy_file_cb get_live_table_checksum
                       checksum_list live_table_and_blob_files s2 True w2 of
                  ((s3, same_fs), w3) \<Rightarrow>
                    (case (if ok s3 \<and> current_fname \<noteq> [] \<and> manifest_fname \<noteq> [] then
                             create_file_cb current_fname
                               (drop 1 manifest_fname @ [CHR 0x0A]) kCurrentFile w3
                           else (s3, w3)) of
                       (s4, w4) \<Rightarrow>
                         (case wal_files_loop link_file_cb copy_file_cb
                                 (GetWalDir env db_options) flush_memtable min_log_num
                                 live_wal_files s4 same_fs w4 of
                            ((s5, same_fs5), w5) \<Rightarrow> (s5, w5))))))"

text \<open>
  \<^verbatim>\<open>CreateCustomCheckpoint\<close>. The result is the status and the value written to
  \<^verbatim>\<open>*sequence_number\<close>. Each call of \<^verbatim>\<open>GetLiveFiles\<close> and \<^verbatim>\<open>GetSortedWalFiles\<close>
  returns the file list it leaves in its output vector.
\<close>

definition CreateCustomCheckpoint ::
  "'w env \<Rightarrow> DBOptions \<Rightarrow> 'w link_cb \<Rightarrow> 'w copy_cb \<Rightarrow> 'w create_cb \<Rightarrow> uint64 \<Rightarrow> bool \<Rightarrow>
   'w \<Rightarrow> (status \<times> uint64) \<times> 'w" where
  "CreateCustomCheckpoint env db_options link_file_cb copy_file_cb create_file_cb
       log_size_for_flush get_live_table_checksum w =
     (let sequence_number = GetLatestSequenceNumber env w in
      case flush_decision env db_options log_size_for_flush w of
        (Inl s, w1) \<Rightarrow> ((s, sequence_number), w1)
      | (Inr flush_memtable, w1) \<Rightarrow>
          (case GetLiveFiles env flush_memtable w1 of
             ((s_first, live_files_first, manifest_file_size_first), w2) \<Rightarrow>
               (case GetMinLogNumberToKeep env w2 of
                  None \<Rightarrow>
                    ((InvalidArgument ''cannot get the min log number to keep.'',
                      sequence_number), w2)
                | Some min_log_num \<Rightarrow>
                    (case GetLiveFiles env flush_memtable w2 of
                       ((s2, live_files, manifest_file_size), w3) \<Rightarrow>
                         (case (if ok s2 then FlushWAL env False w3 else (s2, w3)) of
                            (s3, w4) \<Rightarrow>
                              (case (if ok s3 then GetSortedWalFiles env w4
                                     else ((s3, []), w4)) of
                                 ((s4, live_wal_files), w5) \<Rightarrow>
                                   if \<not> ok s4 then ((s4, sequence_number), w5)
                                   else
                                     (case transfer_live_files env db_options link_file_cb
                                             copy_file_cb create_file_cb
                                             get_live_table_checksum flush_memtable
                                             min_log_num live_files manifest_file_size
                                             live_wal_files w5 of
                                        (s5, w6) \<Rightarrow> ((s5, sequence_number), w6))))))))"

section \<open>CreateCheckpoint\<close>

text \<open>
  Lines 139-156: the option value \<^verbatim>\<open>value_wal_dir\<close>, the directory \<^verbatim>\<open>new_wal_dir\<close> that
  receives the WAL files, and the status \<^verbatim>\<open>s\<close>, which the second branch overwrites.
\<close>

definition resolve_wal_dir ::
  "'w env \<Rightarrow> string \<Rightarrow> string \<Rightarrow> string \<Rightarrow> status \<Rightarrow> 'w \<Rightarrow>
   (string \<times> string \<times> status) \<times> 'w" where
  "resolve_wal_dir env parsed_wal_dir parsed_checkpoint_dir full_private_path s w =
     (if parsed_wal_dir = [] \<or> parsed_wal_dir = GetName env \<or>
         parsed_wal_dir = parsed_checkpoint_dir
      then ((parsed_checkpoint_dir, full_private_path, s), w)
      else
        (let prefix = parsed_checkpoint_dir @ ''/'';
             new_wal_dir =
               (if rfind0 parsed_wal_dir prefix
                then full_private_path @ ''/'' @ drop (length prefix) parsed_wal_dir
                else parsed_wal_dir)
         in case FileExists env new_wal_dir w of
              (s1, w1) \<Rightarrow>
                if IsNotFound s1 then
                  (case CreateDir env new_wal_dir w1 of
                     (s2, w2) \<Rightarrow> ((parsed_wal_dir, new_wal_dir, s2), w2))
                else ((parsed_wal_dir, new_wal_dir, s1), w1)))"

text \<open>Lines 167-176, 177-194 and 195-199: the three callbacks of the checkpoint.\<close>

definition checkpoint_link_file_cb :: "'w env \<Rightarrow> string \<Rightarrow> string \<Rightarrow> 'w link_cb" where
  "checkpoint_link_file_cb env new_wal_dir full_private_path src_dirname fname ftype w =
     LinkFile env (src_dirname @ fname)
       ((if ftype = kWalFile then new_wal_dir else full_private_path) @ fname) w"

definition checkpoint_copy_file_cb ::
  "'w env \<Rightarrow> DBOptions \<Rightarrow> string \<Rightarrow> string \<Rightarrow> string \<Rightarrow> string \<Rightarrow> 'w copy_cb" where
  "checkpoint_copy_file_cb env db_options new_wal_dir full_private_path value_log_dir
       value_wal_dir src_dirname fname size_limit_bytes ftype checksum_func_name checksum_val w =
     (if ftype = kOptionsFile then
        CopyOptionsFile env (src_dirname @ fname) (full_private_path @ fname) value_log_dir
          value_wal_dir w
      else
        CopyFile env (src_dirname @ fname)
          ((if ftype = kWalFile then new_wal_dir else full_private_path) @ fname)
          size_limit_bytes (use_fsync db_options) w)"

definition checkpoint_create_file_cb ::
  "'w env \<Rightarrow> DBOptions \<Rightarrow> string \<Rightarrow> 'w create_cb" where
  "checkpoint_create_file_cb env db_options full_private_path fname contents ftype w =
     CreateFile env (full_private_path @ fname) contents (use_fsync db_options) w"

text \<open>
  Lines 158-209: the transfer with file deletions disabled. The result carries the local
  \<^verbatim>\<open>sequence_number\<close>, initialised to 0.
\<close>

definition transfer_deletions_disabled ::
  "'w env \<Rightarrow> DBOptions \<Rightarrow> bool \<Rightarrow> uint64 \<Rightarrow> string \<Rightarrow> string \<Rightarrow> string \<Rightarrow> string \<Rightarrow>
   status \<Rightarrow> 'w \<Rightarrow> (status \<times> uint64) \<times> 'w" where
  "transfer_deletions_disabled env db_options get_live_table_checksum log_size_for_flush
       new_wal_dir full_private_path value_log_dir value_wal_dir s w =
     (if ok s then
        (case DisableFileDeletions env w of
           (s1, w1) \<Rightarrow>
             (let disabled_file_deletions = ok s1 in
              if ok s1 \<or> IsNotSupported s1 then
                (case CreateCustomCheckpoint env db_options
                        (checkpoint_link_file_cb env new_wal_dir full_private_path)
                        (checkpoint_copy_file_cb env db_options new_wal_dir full_private_path
                           value_log_dir value_wal_dir)
                        (checkpoint_create_file_cb env db_options full_private_path)
                        log_size_for_flush get_live_table_checksum w1 of
                   ((s2, sequence_number), w2) \<Rightarrow>
                     if disabled_file_deletions then
                       (case EnableFileDeletions env False w2 of
                          (ss, w3) \<Rightarrow> ((s2, sequence_number), w3))
                     else ((s2, sequence_number), w2))
              else ((s1, 0), w1)))
      else ((s, 0), w))"

text \<open>
  Lines 211-238: the rename of the staging directory, the fsync of the checkpoint
  directory and the cleaning after a failure. \<^verbatim>\<open>sequence_number_ptr\<close> is \<open>None\<close> for a
  null pointer and otherwise holds the value it points to.
\<close>

definition install_checkpoint ::
  "'w env \<Rightarrow> string \<Rightarrow> string \<Rightarrow> uint64 option \<Rightarrow> uint64 \<Rightarrow> status \<Rightarrow> 'w \<Rightarrow>
   (status \<times> uint64 option) \<times> 'w" where
  "install_checkpoint env full_private_path parsed_checkpoint_dir sequence_number_ptr
       sequence_number s w =
     (case (if ok s then RenameFile env full_private_path parsed_checkpoint_dir w
            else (s, w)) of
        (s1, w1) \<Rightarrow>
          (case (if ok s1 then
                   (case NewDirectory env parsed_checkpoint_dir w1 of
                      ((s2, checkpoint_directory_not_null), w2) \<Rightarrow>
                        if ok s2 \<and> checkpoint_directory_not_null
                        then DirFsync env parsed_checkpoint_dir w2
                        else (s2, w2))
                 else (s1, w1)) of
             (s3, w3) \<Rightarrow>
               if ok s3 then
                 ((s3, if sequence_number_ptr \<noteq> None then Some sequence_number
                       else sequence_number_ptr), w3)
               else
                 ((s3, sequence_number_ptr),
                  CleanStagingDirectory env full_private_path w3)))"

text \<open>
  \<^verbatim>\<open>CheckpointImpl::CreateCheckpoint\<close>. \<open>get_live_table_checksum\<close> stands for the
  default argument of \<^verbatim>\<open>CreateCustomCheckpoint\<close>, declared in the header.
\<close>

definition CreateCheckpoint ::
  "'w env \<Rightarrow> bool \<Rightarrow> string \<Rightarrow> uint64 \<Rightarrow> uint64 option \<Rightarrow> string \<Rightarrow> string \<Rightarrow> 'w \<Rightarrow>
   (status \<times> uint64 option) \<times> 'w" where
  "CreateCheckpoint env get_live_table_checksum checkpoint_dir log_size_for_flush
       sequence_number_ptr db_log_dir_arg wal_dir_arg w =
     (let db_options = GetDBOptions env in
      case FileExists env checkpoint_dir w of
        (s, w1) \<Rightarrow>
          if ok s then ((InvalidArgument ''Directory exists'', sequence_number_ptr), w1)
          else if \<not> IsNotFound s then ((s, sequence_number_ptr), w1)
          else
            (case find_last_not_of checkpoint_dir (CHR ''/'') of
               None \<Rightarrow>
                 ((InvalidArgument ''invalid checkpoint directory name'',
                   sequence_number_ptr), w1)
             | Some final_nonslash_idx \<Rightarrow>
                 (let parsed_checkpoint_dir = take (final_nonslash_idx + 1) checkpoint_dir;
                      full_private_path = parsed_checkpoint_dir @ ''.tmp'';
                      w2 = CleanStagingDirectory env full_private_path w1
                  in case CreateDir env full_private_path w2 of
                       (s2, w3) \<Rightarrow>
                         (let parsed_log_dir =
                                (if db_log_dir_arg = [] then []
                                 else substr_to_last_nonslash db_log_dir_arg);
                              parsed_wal_dir =
                                (if wal_dir_arg = [] then []
                                 else substr_to_last_nonslash wal_dir_arg);
                              value_log_dir =
                                (if parsed_log_dir = GetName env \<or>
                                    parsed_log_dir = parsed_checkpoint_dir
                                 then [] else parsed_log_dir)
                          in case resolve_wal_dir env parsed_wal_dir parsed_checkpoint_dir
                                    full_private_path s2 w3 of
                               ((value_wal_dir, new_wal_dir, s3), w4) \<Rightarrow>
                                 (case transfer_deletions_disabled env db_options
                                         get_live_table_checksum log_size_for_flush
                                         new_wal_dir full_private_path value_log_dir
                                         value_wal_dir s3 w4 of
                                    ((s4, sequence_number), w5) \<Rightarrow>
                                      install_checkpoint env full_private_path
                                        parsed_checkpoint_dir sequence_number_ptr
                                        sequence_number s4 w5)))))"

text \<open>
  The steps of \<^verbatim>\<open>CreateCheckpoint\<close> up to the call of \<^verbatim>\<open>CreateCustomCheckpoint\<close>, read
  alone, followed by \<open>min_log_num_seen\<close>: the value of \<^verbatim>\<open>min_log_num\<close> with which a call of
  \<^verbatim>\<open>CreateCheckpoint\<close> in the world \<open>w\<close> selects the WAL files.
\<close>

definition checkpoint_min_log_num ::
  "'w env \<Rightarrow> string \<Rightarrow> uint64 \<Rightarrow> string \<Rightarrow> 'w \<Rightarrow> uint64 option" where
  "checkpoint_min_log_num env checkpoint_dir log_size_for_flush wal_dir_arg w =
     (case FileExists env checkpoint_dir w of
        (s, w1) \<Rightarrow>
          (case find_last_not_of checkpoint_dir (CHR ''/'') of
             None \<Rightarrow> None
           | Some final_nonslash_idx \<Rightarrow>
               (let parsed_checkpoint_dir = take (final_nonslash_idx + 1) checkpoint_dir;
                    full_private_path = parsed_checkpoint_dir @ ''.tmp'';
                    w2 = CleanStagingDirectory env full_private_path w1
                in case CreateDir env full_private_path w2 of
                     (s2, w3) \<Rightarrow>
                       (case resolve_wal_dir env
                               (if wal_dir_arg = [] then []
                                else substr_to_last_nonslash wal_dir_arg)
                               parsed_checkpoint_dir full_private_path s2 w3 of
                          (r, w4) \<Rightarrow>
                            (case DisableFileDeletions env w4 of
                               (s1, w5) \<Rightarrow>
                                 min_log_num_seen env (GetDBOptions env) log_size_for_flush
                                   w5)))))"

section \<open>ExportFilesInMetaData and ExportColumnFamily\<close>

type_synonym 'w export_cb = "string \<Rightarrow> string \<Rightarrow> 'w \<Rightarrow> status \<times> 'w"

text \<open>
  Lines 612-641, the loop over the files of one level. Its \<^verbatim>\<open>break\<close> leaves this loop
  only: the loop over the levels goes on with the status, \<^verbatim>\<open>hardlink_file\<close> and
  \<^verbatim>\<open>num_files\<close> it finds.
\<close>

fun export_files_loop ::
  "'w env \<Rightarrow> 'w export_cb \<Rightarrow> 'w export_cb \<Rightarrow> SstFileMetaData list \<Rightarrow> status \<Rightarrow> bool \<Rightarrow> nat \<Rightarrow>
   'w \<Rightarrow> (status \<times> bool \<times> nat) \<times> 'w" where
  "export_files_loop env link_file_cb copy_file_cb [] s hardlink_file num_files w =
     ((s, hardlink_file, num_files), w)"
| "export_files_loop env link_file_cb copy_file_cb (file_metadata # rest) s hardlink_file
       num_files w =
     (case ParseFileName env (sst_name file_metadata) of
        None \<Rightarrow> ((Corruption ''Could not parse file name'', hardlink_file, num_files), w)
      | Some (number, ftype) \<Rightarrow>
          (case (if hardlink_file then
                   (case link_file_cb (GetName env) (sst_name file_metadata) w of
                      (s1, w1) \<Rightarrow>
                        if num_files + 1 = 1 \<and> IsNotSupported s1 then ((OK, False), w1)
                        else ((s1, hardlink_file), w1))
                 else ((s, hardlink_file), w)) of
             ((s1, hardlink_file1), w1) \<Rightarrow>
               (case (if \<not> hardlink_file1
                      then copy_file_cb (GetName env) (sst_name file_metadata) w1
                      else (s1, w1)) of
                  (s2, w2) \<Rightarrow>
                    if \<not> ok s2 then ((s2, hardlink_file1, num_files + 1), w2)
                    else
                      export_files_loop env link_file_cb copy_file_cb rest s2 hardlink_file1
                        (num_files + 1) w2)))"

text \<open>Lines 611-642, the loop over the levels.\<close>

fun export_levels_loop ::
  "'w env \<Rightarrow> 'w export_cb \<Rightarrow> 'w export_cb \<Rightarrow> LevelMetaData list \<Rightarrow> status \<Rightarrow> bool \<Rightarrow> nat \<Rightarrow>
   'w \<Rightarrow> (status \<times> bool \<times> nat) \<times> 'w" where
  "export_levels_loop env link_file_cb copy_file_cb [] s hardlink_file num_files w =
     ((s, hardlink_file, num_files), w)"
| "export_levels_loop env link_file_cb copy_file_cb (level_metadata # rest) s hardlink_file
       num_files w =
     (case export_files_loop env link_file_cb copy_file_cb (files level_metadata) s
             hardlink_file num_files w of
        ((s1, hardlink_file1, num_files1), w1) \<Rightarrow>
          export_levels_loop env link_file_cb copy_file_cb rest s1 hardlink_file1 num_files1
            w1)"

definition ExportFilesInMetaData ::
  "'w env \<Rightarrow> DBOptions \<Rightarrow> ColumnFamilyMetaData \<Rightarrow> 'w export_cb \<Rightarrow> 'w export_cb \<Rightarrow> 'w \<Rightarrow>
   status \<times> 'w" where
  "ExportFilesInMetaData env db_options metadata link_file_cb copy_file_cb w =
     (case export_levels_loop env link_file_cb copy_file_cb (levels metadata) OK True 0 w of
        ((s, hardlink_file, num_files), w1) \<Rightarrow> (s, w1))"

text \<open>Lines 512-517 and 518-523: the callbacks of the export.\<close>

definition export_link_file_cb :: "'w env \<Rightarrow> string \<Rightarrow> 'w export_cb" where
  "export_link_file_cb env tmp_export_dir src_dirname fname w =
     LinkFile env (src_dirname @ fname) (tmp_export_dir @ fname) w"

definition export_copy_file_cb :: "'w env \<Rightarrow> DBOptions \<Rightarrow> string \<Rightarrow> 'w export_cb" where
  "export_copy_file_cb env db_options tmp_export_dir src_dirname fname w =
     CopyFile env (src_dirname @ fname) (tmp_export_dir @ fname) 0 (use_fsync db_options) w"

text \<open>Lines 553-568: the record built for one table file of a level.\<close>

definition live_file_metadata_of ::
  "string \<Rightarrow> int \<Rightarrow> SstFileMetaData \<Rightarrow> LiveFileMetaData" where
  "live_file_metadata_of export_dir lvl file_metadata =
     \<lparr>sst_size = sst_size file_metadata,
      sst_name = sst_name file_metadata,
      file_number = file_number file_metadata,
      db_path = export_dir,
      smallest_seqno = smallest_seqno file_metadata,
      largest_seqno = largest_seqno file_metadata,
      smallestkey = smallestkey file_metadata,
      largestkey = largestkey file_metadata,
      oldest_blob_file_number = oldest_blob_file_number file_metadata,
      column_family_name = [],
      live_level = lvl\<rparr>"

text \<open>
  Lines 551-570. \<^verbatim>\<open>*metadata = result_metadata\<close> stands inside the loop over the levels:
  the caller's pointer is written once a level exists, and then points to the object
  that receives the records of every level.
\<close>

definition fill_metadata ::
  "string \<Rightarrow> string \<Rightarrow> ColumnFamilyMetaData \<Rightarrow> ExportImportFilesMetaData option \<Rightarrow>
   ExportImportFilesMetaData option" where
  "fill_metadata comparator export_dir db_metadata metadata =
     (if levels db_metadata = [] then metadata
      else
        Some \<lparr>db_comparator_name = comparator,
              ei_files =
                concat (map (\<lambda>level_metadata.
                               map (live_file_metadata_of export_dir (level level_metadata))
                                 (files level_metadata))
                          (levels db_metadata))\<rparr>)"

text \<open>Lines 577-593: the cleaning after a failed export.\<close>

definition export_cleanup :: "'w env \<Rightarrow> string \<Rightarrow> 'w \<Rightarrow> 'w" where
  "export_cleanup env cleanup_dir w =
     (case GetChildren env cleanup_dir w of
        ((s, subchildren), w1) \<Rightarrow>
          (case DeleteDir env cleanup_dir (delete_subchildren env cleanup_dir subchildren w1) of
             (s2, w2) \<Rightarrow> w2))"

text \<open>Lines 503-530: the export of the files with file deletions disabled.\<close>

definition export_deletions_disabled ::
  "'w env \<Rightarrow> DBOptions \<Rightarrow> ColumnFamilyHandle \<Rightarrow> string \<Rightarrow> status \<Rightarrow> 'w \<Rightarrow>
   (status \<times> ColumnFamilyMetaData) \<times> 'w" where
  "export_deletions_disabled env db_options handle tmp_export_dir s w =
     (if ok s then
        (case DisableFileDeletions env w of
           (s1, w1) \<Rightarrow>
             if ok s1 then
               (case GetColumnFamilyMetaData env handle w1 of
                  (db_metadata, w2) \<Rightarrow>
                    (case ExportFilesInMetaData env db_options db_metadata
                            (export_link_file_cb env tmp_export_dir)
                            (export_copy_file_cb env db_options tmp_export_dir) w2 of
                       (s2, w3) \<Rightarrow>
                         (case EnableFileDeletions env False w3 of
                            (enable_status, w4) \<Rightarrow>
                              ((if ok s2 then enable_status else s2, db_metadata), w4))))
             else ((s1, \<lparr>levels = []\<rparr>), w1))
      else ((s, \<lparr>levels = []\<rparr>), w))"

text \<open>
  \<^verbatim>\<open>CheckpointImpl::ExportColumnFamily\<close>. \<open>metadata\<close> is what \<^verbatim>\<open>*metadata\<close> holds
  (\<open>None\<close> for a null pointer); the result carries what it holds afterwards.
\<close>

definition ExportColumnFamily ::
  "'w env \<Rightarrow> ColumnFamilyHandle \<Rightarrow> string \<Rightarrow> ExportImportFilesMetaData option \<Rightarrow> 'w \<Rightarrow>
   (status \<times> ExportImportFilesMetaData option) \<times> 'w" where
  "ExportColumnFamily env handle export_dir metadata w =
     (let db_options = GetDBOptions env in
      case FileExists env export_dir w of
        (s, w1) \<Rightarrow>
          if ok s then ((InvalidArgument ''Specified export_dir exists'', metadata), w1)
          else if \<not> IsNotFound s then ((s, metadata), w1)
          else
            (case find_last_not_of export_dir (CHR ''/'') of
               None \<Rightarrow> ((InvalidArgument ''Specified export_dir invalid'', metadata), w1)
             | Some final_nonslash_idx \<Rightarrow>
                 (let tmp_export_dir = take (final_nonslash_idx + 1) export_dir @ ''.tmp'' in
                  case CreateDir env tmp_export_dir w1 of
                    (s1, w2) \<Rightarrow>
                      (case (if ok s1 then Flush env handle w2 else (s1, w2)) of
                         (s2, w3) \<Rightarrow>
                           (case export_deletions_disabled env db_options handle
                                   tmp_export_dir s2 w3 of
                              ((s3, db_metadata), w4) \<Rightarrow>
                                (case (if ok s3 then RenameFile env tmp_export_dir export_dir w4
                                       else (s3, w4)) of
                                   (s4, w5) \<Rightarrow>
                                     (case (if ok s4 then
                                              (case NewDirectory env export_dir w5 of
                                                 ((s5, dir_ptr_not_null), w6) \<Rightarrow>
                                                   if ok s5 then
                                                     (case DirFsync env export_dir w6 of
                                                        (s6, w7) \<Rightarrow> ((s6, True), w7))
                                                   else ((s5, True), w6))
                                            else ((s4, False), w5)) of
                                        ((s7, moved_to_user_specified_dir), w8) \<Rightarrow>
                                          if ok s7 then
                                            ((s7, fill_metadata (comparator_name handle)
                                                    export_dir db_metadata metadata), w8)
                                          else
                                            ((s7, metadata),
                                             export_cleanup env
                                               (if moved_to_user_specified_dir then export_dir
                                                else tmp_export_dir) w8))))))))"

section \<open>Observing the calls\<close>

text \<open>
  What a run does to its collaborators is read from a trace: \<open>logged env\<close> behaves as
  \<open>env\<close> and appends one event to the trace for every operation it performs, with the
  arguments and the result. The callbacks handed to \<^verbatim>\<open>CreateCustomCheckpoint\<close> and
  \<^verbatim>\<open>ExportFilesInMetaData\<close> are logged in the same way.
\<close>

datatype event =
    EvFileExists string status
  | EvGetChildren string status "string list"
  | EvDeleteFile string status
  | EvDeleteDir string status
  | EvCreateDir string status
  | EvRenameFile string string status
  | EvNewDirectory string status
  | EvDirFsync string status
  | EvLinkFile string string status
  | EvCopyFile string string uint64 bool status
  | EvCreateFile string string bool status
  | EvLoadOptionsFromFile string status
  | EvPersistRocksDBOptions DBOptions "string list" "ColumnFamilyOptions list" string status
  | EvGetFileChecksumsFromManifest string uint64 status
  | EvDisableFileDeletions status
  | EvEnableFileDeletions bool status
  | EvGetSortedWalFiles status "LogFile list"
  | EvGetLiveFiles bool status "string list" uint64
  | EvFlushWAL bool status
  | EvFlush ColumnFamilyHandle status
  | EvGetColumnFamilyMetaData ColumnFamilyHandle ColumnFamilyMetaData
  | EvLinkCb string string FileType status
  | EvCopyCb string string uint64 FileType string string status
  | EvCreateCb string string FileType status
  | EvExportLinkCb string string status
  | EvExportCopyCb string string status

type_synonym 'w traced = "'w \<times> event list"

definition log_status ::
  "(status \<Rightarrow> event) \<Rightarrow> ('w \<Rightarrow> status \<times> 'w) \<Rightarrow> 'w traced \<Rightarrow> status \<times> 'w traced" where
  "log_status ev f wt =
     (case f (fst wt) of (s, w1) \<Rightarrow> (s, (w1, snd wt @ [ev s])))"

definition log_result ::
  "('a \<Rightarrow> event) \<Rightarrow> ('w \<Rightarrow> 'a \<times> 'w) \<Rightarrow> 'w traced \<Rightarrow> 'a \<times> 'w traced" where
  "log_result ev f wt =
     (case f (fst wt) of (r, w1) \<Rightarrow> (r, (w1, snd wt @ [ev r])))"

definition logged :: "'w env \<Rightarrow> ('w traced) env" where
  "logged env =
     \<lparr>GetName = GetName env,
      GetDBOptions = GetDBOptions env,
      GetWalDir = GetWalDir env,
      ParseFileName = ParseFileName env,
      GetLatestSequenceNumber = (\<lambda>wt. GetLatestSequenceNumber env (fst wt)),
      GetMinLogNumberToKeep = (\<lambda>wt. GetMinLogNumberToKeep env (fst wt)),
      FileExists = (\<lambda>p. log_status (EvFileExists p) (FileExists env p)),
      GetChildren =
        (\<lambda>p. log_result (\<lambda>r. EvGetChildren p (fst r) (snd r)) (GetChildren env p)),
      DeleteFile = (\<lambda>p. log_status (EvDeleteFile p) (DeleteFile env p)),
      DeleteDir = (\<lambda>p. log_status (EvDeleteDir p) (DeleteDir env p)),
      CreateDir = (\<lambda>p. log_status (EvCreateDir p) (CreateDir env p)),
      RenameFile = (\<lambda>a b. log_status (EvRenameFile a b) (RenameFile env a b)),
      NewDirectory = (\<lambda>p. log_result (\<lambda>r. EvNewDirectory p (fst r)) (NewDirectory env p)),
      DirFsync = (\<lambda>p. log_status (EvDirFsync p) (DirFsync env p)),
      LinkFile = (\<lambda>a b. log_status (EvLinkFile a b) (LinkFile env a b)),
      CopyFile = (\<lambda>a b n f. log_status (EvCopyFile a b n f) (CopyFile env a b n f)),
      CreateFile = (\<lambda>a c f. log_status (EvCreateFile a c f) (CreateFile env a c f)),
      LoadOptionsFromFile =
        (\<lambda>p. log_result (\<lambda>r. EvLoadOptionsFromFile p (fst r)) (LoadOptionsFromFile env p)),
      PersistRocksDBOptions =
        (\<lambda>opts names cfopts target.
           log_status (EvPersistRocksDBOptions opts names cfopts target)
             (PersistRocksDBOptions env opts names cfopts target)),
      GetFileChecksumsFromManifest =
        (\<lambda>p n. log_result (\<lambda>r. EvGetFileChecksumsFromManifest p n (fst r))
                 (GetFileChecksumsFromManifest env p n)),
      DisableFileDeletions = log_status EvDisableFileDeletions (DisableFileDeletions env),
      EnableFileDeletions =
        (\<lambda>force. log_status (EvEnableFileDeletions force) (EnableFileDeletions env force)),
      GetSortedWalFiles =
        log_result (\<lambda>r. EvGetSortedWalFiles (fst r) (snd r)) (GetSortedWalFiles env),
      GetLiveFiles =
        (\<lambda>flush. log_result (\<lambda>r. EvGetLiveFiles flush (fst r) (fst (snd r)) (snd (snd r)))
                    (GetLiveFiles env flush)),
      FlushWAL = (\<lambda>sync. log_status (EvFlushWAL sync) (FlushWAL env sync)),
      Flush = (\<lambda>h. log_status (EvFlush h) (Flush env h)),
      GetColumnFamilyMetaData =
        (\<lambda>h. log_result (EvGetColumnFamilyMetaData h) (GetColumnFamilyMetaData env h))\<rparr>"

definition log_link_cb :: "'w link_cb \<Rightarrow> ('w traced) link_cb" where
  "log_link_cb cb src_dirname fname ftype =
     log_status (EvLinkCb src_dirname fname ftype) (cb src_dirname fname ftype)"

definition log_copy_cb :: "'w copy_cb \<Rightarrow> ('w traced) copy_cb" where
  "log_copy_cb cb src_dirname fname size_limit_bytes ftype checksum_func_name checksum_val =
     log_status
       (EvCopyCb src_dirname fname size_limit_bytes ftype checksum_func_name checksum_val)
       (cb src_dirname fname size_limit_bytes ftype checksum_func_name checksum_val)"

definition log_create_cb :: "'w create_cb \<Rightarrow> ('w traced) create_cb" where
  "log_create_cb cb fname contents ftype =
     log_status (EvCreateCb fname contents ftype) (cb fname contents ftype)"

definition log_export_link_cb :: "'w export_cb \<Rightarrow> ('w traced) export_cb" where
  "log_export_link_cb cb src_dirname fname =
     log_status (EvExportLinkCb src_dirname fname) (cb src_dirname fname)"

definition log_export_copy_cb :: "'w export_cb \<Rightarrow> ('w traced) export_cb" where
  "log_export_copy_cb cb src_dirname fname =
     log_status (EvExportCopyCb src_dirname fname) (cb src_dirname fname)"

section \<open>A filesystem and an engine in memory\<close>

text \<open>
  A small collaborator on which the functions can be run: the world is the list of the
  paths that exist; the engine reports fixed file lists. Every operation succeeds, but
  creating a directory that exists. Variants that fail are record updates of it.
\<close>

definition under :: "string \<Rightarrow> string \<Rightarrow> bool" where
  "under dir p = (take (length dir + 1) p = dir @ ''/'')"

definition mem_parse :: "string \<Rightarrow> (uint64 \<times> FileType) option" where
  "mem_parse =
     map_of
       [(''/000010.sst'', (10, kTableFile)),
        (''/000011.sst'', (11, kTableFile)),
        (''/000012.blob'', (12, kBlobFile)),
        (''/CURRENT'', (0, kCurrentFile)),
        (''/MANIFEST-000005'', (5, kDescriptorFile)),
        (''/OPTIONS-000007'', (7, kOptionsFile)),
        (''/000020.log'', (20, kWalFile)),
        (''/000021.log'', (21, kWalFile))]"

definition mem_options :: DBOptions where
  "mem_options = \<lparr>allow_2pc = False, use_fsync = False, db_log_dir = [], wal_dir = []\<rparr>"

definition mem_wals :: "LogFile list" where
  "mem_wals =
     [\<lparr>PathName = ''/000020.log'', LogNumber = 20, Type = kAliveLogFile, SizeFileBytes = 300\<rparr>,
      \<lparr>PathName = ''/000021.log'', LogNumber = 21, Type = kAliveLogFile, SizeFileBytes = 45\<rparr>]"

definition mem_live_files :: "string list" where
  "mem_live_files =
     [''/000010.sst'', ''/000011.sst'', ''/CURRENT'', ''/MANIFEST-000005'',
      ''/OPTIONS-000007'']"

definition mem_sst :: "string \<Rightarrow> uint64 \<Rightarrow> uint64 \<Rightarrow> SstFileMetaData" where
  "mem_sst fname number sz =
     \<lparr>sst_size = sz, sst_name = fname, file_number = number, db_path = ''/db'',
      smallest_seqno = 1, largest_seqno = 9, smallestkey = ''a'', largestkey = ''k'',
      oldest_blob_file_number = 0\<rparr>"

definition mem_cf_metadata :: ColumnFamilyMetaData where
  "mem_cf_metadata =
     \<lparr>levels =
        [\<lparr>level = 0, files = [mem_sst ''/000010.sst'' 10 1000, mem_sst ''/000011.sst'' 11 2000]\<rparr>]\<rparr>"

definition mem_env :: "(string list) env" where
  "mem_env =
     \<lparr>GetName = ''/db'',
      GetDBOptions = mem_options,
      GetWalDir = (\<lambda>opts. if wal_dir opts = [] then ''/db'' else wal_dir opts),
      ParseFileName = mem_parse,
      GetLatestSequenceNumber = (\<lambda>w. 42),
      GetMinLogNumberToKeep = (\<lambda>w. Some 20),
      FileExists = (\<lambda>p w. (if p \<in> set w then OK else NotFound p, w)),
      GetChildren =
        (\<lambda>p w. ((OK, map (drop (length p + 1)) (filter (under p) w)), w)),
      DeleteFile = (\<lambda>p w. (OK, removeAll p w)),
      DeleteDir = (\<lambda>p w. (OK, removeAll p w)),
      CreateDir = (\<lambda>p w. if p \<in> set w then (IOError p, w) else (OK, w @ [p])),
      RenameFile =
        (\<lambda>a b w.
           (OK, map (\<lambda>p. if p = a then b
                          else if under a p then b @ drop (length a) p else p) w)),
      NewDirectory = (\<lambda>p w. ((OK, True), w)),
      DirFsync = (\<lambda>p w. (OK, w)),
      LinkFile = (\<lambda>a b w. (OK, w @ [b])),
      CopyFile = (\<lambda>a b n f w. (OK, w @ [b])),
      CreateFile = (\<lambda>a c f w. (OK, w @ [a])),
      LoadOptionsFromFile = (\<lambda>p w. ((OK, mem_options, []), w)),
      PersistRocksDBOptions = (\<lambda>opts names cfopts target w. (OK, w @ [target])),
      GetFileChecksumsFromManifest = (\<lambda>p n w. ((OK, []), w)),
      DisableFileDeletions = (\<lambda>w. (OK, w)),
      EnableFileDeletions = (\<lambda>force w. (OK, w)),
      GetSortedWalFiles = (\<lambda>w. ((OK, mem_wals), w)),
      GetLiveFiles = (\<lambda>flush w. ((OK, mem_live_files, 4096), w)),
      FlushWAL = (\<lambda>sync w. (OK, w)),
      Flush = (\<lambda>h w. (OK, w)),
      GetColumnFamilyMetaData = (\<lambda>h w. (mem_cf_metadata, w))\<rparr>"

definition mem_handle :: ColumnFamilyHandle where
  "mem_handle = \<lparr>cf_name = ''default'', comparator_name = ''leveldb.BytewiseComparator''\<rparr>"

section \<open>Predicates on traces\<close>

text \<open>\<open>appends P tr tr'\<close>: the trace \<open>tr'\<close> is \<open>tr\<close> followed by events that satisfy \<open>P\<close>.\<close>

definition appends :: "(event \<Rightarrow> bool) \<Rightarrow> event list \<Rightarrow> event list \<Rightarrow> bool" where
  "appends P tr tr' = (\<exists>evs. tr' = tr @ evs \<and> list_all P evs)"

text \<open>A computation on a traced world that only appends events satisfying \<open>P\<close>.\<close>

definition cb_appends :: "(event \<Rightarrow> bool) \<Rightarrow> ('w traced \<Rightarrow> 'a \<times> 'w traced) \<Rightarrow> bool" where
  "cb_appends P f = (\<forall>w tr r w' tr'. f (w, tr) = (r, (w', tr')) \<longrightarrow> appends P tr tr')"

text \<open>The events by the part of the run that performs them.\<close>

fun enumeration_event :: "event \<Rightarrow> bool" where
  "enumeration_event (EvGetSortedWalFiles s wals) = True"
| "enumeration_event (EvGetLiveFiles flush s fs n) = True"
| "enumeration_event (EvFlushWAL sync s) = True"
| "enumeration_event (EvGetFileChecksumsFromManifest p n s) = True"
| "enumeration_event e = False"

fun cleaning_event :: "event \<Rightarrow> bool" where
  "cleaning_event (EvFileExists p s) = True"
| "cleaning_event (EvGetChildren p s cs) = True"
| "cleaning_event (EvDeleteFile p s) = True"
| "cleaning_event (EvDeleteDir p s) = True"
| "cleaning_event e = False"

fun file_event :: "event \<Rightarrow> bool" where
  "file_event (EvLinkFile a b s) = True"
| "file_event (EvCopyFile a b n f s) = True"
| "file_event (EvCreateFile a c f s) = True"
| "file_event (EvLoadOptionsFromFile p s) = True"
| "file_event (EvPersistRocksDBOptions opts names cfopts target s) = True"
| "file_event e = False"

fun deletion_event :: "event \<Rightarrow> bool" where
  "deletion_event (EvDisableFileDeletions s) = True"
| "deletion_event (EvEnableFileDeletions force s) = True"
| "deletion_event e = False"

text \<open>
  The calls that disable and enable file deletions, as a run may leave them: none, a
  failed disabling alone, or a successful disabling followed by one enabling.
\<close>

definition deletions_paired :: "event list \<Rightarrow> bool" where
  "deletions_paired ds =
     (ds = [] \<or> (\<exists>s. \<not> ok s \<and> ds = [EvDisableFileDeletions s]) \<or>
      (\<exists>s'. ds = [EvDisableFileDeletions OK, EvEnableFileDeletions False s']))"

text \<open>Variants of the collaborator in memory.\<close>

definition mem_env_copy_fails :: "(string list) env" where
  "mem_env_copy_fails = mem_env\<lparr>CopyFile := (\<lambda>a b n f w. (IOError ''disk full'', w))\<rparr>"

fun metadata_event :: "event \<Rightarrow> bool" where
  "metadata_event (EvGetColumnFamilyMetaData h m) = True"
| "metadata_event e = False"

definition mem_env_no_levels :: "(string list) env" where
  "mem_env_no_levels =
     mem_env\<lparr>GetColumnFamilyMetaData := (\<lambda>h w. (\<lparr>levels = []\<rparr>, w))\<rparr>"

text \<open>The \<^verbatim>\<open>flush_memtable\<close> arguments of the calls of \<^verbatim>\<open>GetLiveFiles\<close>, in order.\<close>

fun flush_requests :: "event list \<Rightarrow> bool list" where
  "flush_requests [] = []"
| "flush_requests (EvGetLiveFiles flush s fs n # es) = flush # flush_requests es"
| "flush_requests (e # es) = flush_requests es"

fun live_files_event :: "event \<Rightarrow> bool" where
  "live_files_event (EvGetLiveFiles flush s fs n) = True"
| "live_files_event e = False"

text \<open>A run of \<^verbatim>\<open>CreateCustomCheckpoint\<close> in memory, with logged callbacks.\<close>

definition mem_checkpoint_run :: "uint64 \<Rightarrow> (status \<times> uint64) \<times> (string list) traced" where
  "mem_checkpoint_run log_size_for_flush =
     CreateCustomCheckpoint (logged mem_env) mem_options
       (log_link_cb (checkpoint_link_file_cb mem_env ''/snap.tmp'' ''/snap.tmp''))
       (log_copy_cb (checkpoint_copy_file_cb mem_env mem_options ''/snap.tmp'' ''/snap.tmp''
                       [] ''/snap''))
       (log_create_cb (checkpoint_create_file_cb mem_env mem_options ''/snap.tmp''))
       log_size_for_flush False ([''/db'', ''/snap.tmp''], [])"


fun unsupported_link :: "event \<Rightarrow> bool" where
  "unsupported_link (EvLinkCb d f ty s) = IsNotSupported s"
| "unsupported_link e = False"

text \<open>
  The discipline of the link callback, for a trace that starts while the flag
  \<^verbatim>\<open>same_fs\<close> has the given value: a link callback is only called while the flag is
  true; when it returns \<^verbatim>\<open>NotSupported\<close>, the copy callback for the same file follows
  and the flag is false from then on.
\<close>

fun link_discipline :: "bool \<Rightarrow> event list \<Rightarrow> bool" where
  "link_discipline same_fs [] = True"
| "link_discipline same_fs (EvLinkCb d f ty s # es) =
     (same_fs \<and>
      (if IsNotSupported s then
         (case es of
            EvCopyCb d' f' n ty' cn cv s' # es' \<Rightarrow>
              d' = d \<and> f' = f \<and> n = 0 \<and> ty' = ty \<and> link_discipline False es'
          | _ \<Rightarrow> False)
       else link_discipline True es))"
| "link_discipline same_fs (e # es) = link_discipline same_fs es"

fun flag_after :: "bool \<Rightarrow> event list \<Rightarrow> bool" where
  "flag_after same_fs [] = same_fs"
| "flag_after same_fs (e # es) = flag_after (same_fs \<and> \<not> unsupported_link e) es"

definition follows :: "bool \<Rightarrow> bool \<Rightarrow> event list \<Rightarrow> event list \<Rightarrow> bool" where
  "follows sf sf' tr tr' =
     (\<exists>evs. tr' = tr @ evs \<and> link_discipline sf evs \<and> sf' = flag_after sf evs)"

fun ev_status :: "event \<Rightarrow> status" where
  "ev_status (EvFileExists p s) = s"
| "ev_status (EvGetChildren p s cs) = s"
| "ev_status (EvDeleteFile p s) = s"
| "ev_status (EvDeleteDir p s) = s"
| "ev_status (EvCreateDir p s) = s"
| "ev_status (EvRenameFile a b s) = s"
| "ev_status (EvNewDirectory p s) = s"
| "ev_status (EvDirFsync p s) = s"
| "ev_status (EvLinkFile a b s) = s"
| "ev_status (EvCopyFile a b n f s) = s"
| "ev_status (EvCreateFile a c f s) = s"
| "ev_status (EvLoadOptionsFromFile p s) = s"
| "ev_status (EvPersistRocksDBOptions opts names cfopts target s) = s"
| "ev_status (EvGetFileChecksumsFromManifest p n s) = s"
| "ev_status (EvDisableFileDeletions s) = s"
| "ev_status (EvEnableFileDeletions force s) = s"
| "ev_status (EvGetSortedWalFiles s wals) = s"
| "ev_status (EvGetLiveFiles flush s fs n) = s"
| "ev_status (EvFlushWAL sync s) = s"
| "ev_status (EvFlush h s) = s"
| "ev_status (EvGetColumnFamilyMetaData h m) = OK"
| "ev_status (EvLinkCb a b ty s) = s"
| "ev_status (EvCopyCb a b n ty cn cv s) = s"
| "ev_status (EvCreateCb a b ty s) = s"
| "ev_status (EvExportLinkCb a b s) = s"
| "ev_status (EvExportCopyCb a b s) = s"

definition own_error :: "status \<Rightarrow> bool" where
  "own_error s =
     (s = Corruption (''Can'' @ [CHR 0x27] @ ''t parse file name. This is very bad'') \<or>
      s = InvalidArgument ''cannot get the min log number to keep.'')"

definition tracks :: "status \<Rightarrow> status \<Rightarrow> event list \<Rightarrow> event list \<Rightarrow> bool" where
  "tracks s s' tr tr' =
     (\<exists>evs. tr' = tr @ evs \<and>
        ((evs = [] \<and> s' = s) \<or> (evs \<noteq> [] \<and> ev_status (last evs) = s') \<or> own_error s'))"

definition ends_with :: "status \<Rightarrow> event list \<Rightarrow> event list \<Rightarrow> bool" where
  "ends_with s' tr tr' = (\<exists>evs. tr' = tr @ evs \<and> evs \<noteq> [] \<and> ev_status (last evs) = s')"

definition cb_tracks :: "('w traced \<Rightarrow> status \<times> 'w traced) \<Rightarrow> bool" where
  "cb_tracks f = (\<forall>w tr s w' tr'. f (w, tr) = (s, (w', tr')) \<longrightarrow> ends_with s tr tr')"

definition mem_env_no_links :: "(string list) env" where
  "mem_env_no_links =
     mem_env\<lparr>LinkFile := (\<lambda>a b w. (NotSupported ''cross-device link'', w))\<rparr>"


text \<open>
  The WAL pass in the words of the specification, over the filtered WAL descriptors:
  every descriptor but the last is transferred by the link-then-copy discipline, stopping
  at the first error; the last one is copied with its size as the size limit.
\<close>

fun spec_transfer_earlier ::
  "'w link_cb \<Rightarrow> 'w copy_cb \<Rightarrow> string \<Rightarrow> LogFile list \<Rightarrow> status \<Rightarrow> bool \<Rightarrow> 'w \<Rightarrow>
   (status \<times> bool) \<times> 'w" where
  "spec_transfer_earlier link_file_cb copy_file_cb src_wal_dir [] s same_fs w =
     ((s, same_fs), w)"
| "spec_transfer_earlier link_file_cb copy_file_cb src_wal_dir (wal # rest) s same_fs w =
     (if \<not> ok s then ((s, same_fs), w)
      else
        (case wal_file_step link_file_cb copy_file_cb src_wal_dir wal s same_fs w of
           ((s1, same_fs1), w1) \<Rightarrow>
             spec_transfer_earlier link_file_cb copy_file_cb src_wal_dir rest s1 same_fs1 w1))"

definition spec_wal_pass ::
  "'w link_cb \<Rightarrow> 'w copy_cb \<Rightarrow> string \<Rightarrow> LogFile list \<Rightarrow> status \<Rightarrow> bool \<Rightarrow> 'w \<Rightarrow>
   (status \<times> bool) \<times> 'w" where
  "spec_wal_pass link_file_cb copy_file_cb src_wal_dir filtered s same_fs w =
     (if filtered = [] then ((s, same_fs), w)
      else
        (case spec_transfer_earlier link_file_cb copy_file_cb src_wal_dir (butlast filtered)
                s same_fs w of
           ((s1, same_fs1), w1) \<Rightarrow>
             if \<not> ok s1 then ((s1, same_fs1), w1)
             else
               (case copy_file_cb src_wal_dir (PathName (last filtered))
                       (SizeFileBytes (last filtered)) kWalFile kUnknownFileChecksumFuncName
                       kUnknownFileChecksum w1 of
                  (s2, w2) \<Rightarrow> ((s2, same_fs1), w2))))"

text \<open>
  The order in which the engine lists its WAL files: by ascending log number, the
  archived logs before the alive ones.
\<close>

definition wal_list_ordered :: "LogFile list \<Rightarrow> bool" where
  "wal_list_ordered wals =
     sorted_wrt (\<lambda>a b. LogNumber a \<le> LogNumber b \<and>
                       (Type a = kAliveLogFile \<longrightarrow> Type b = kAliveLogFile)) wals"



text \<open>The type \<^verbatim>\<open>ParseFileName\<close> gives a live file, if it parses.\<close>

definition file_type :: "'w env \<Rightarrow> string \<Rightarrow> FileType option" where
  "file_type env f = map_option snd (ParseFileName env f)"

text \<open>
  The name a loop over the live files leaves in \<^verbatim>\<open>manifest_fname\<close> or
  \<^verbatim>\<open>current_fname\<close>: the last live file of the type, or the initial value.
\<close>

fun last_of_type :: "'w env \<Rightarrow> FileType \<Rightarrow> string list \<Rightarrow> string \<Rightarrow> string" where
  "last_of_type env ty [] found = found"
| "last_of_type env ty (f # fs) found =
     last_of_type env ty fs (if file_type env f = Some ty then f else found)"

text \<open>The live files that the first loop copies: neither table, blob nor current file.\<close>

definition copied_live_file :: "'w env \<Rightarrow> string \<Rightarrow> bool" where
  "copied_live_file env f =
     (case file_type env f of
        None \<Rightarrow> False
      | Some ty \<Rightarrow> ty \<noteq> kTableFile \<and> ty \<noteq> kBlobFile \<and> ty \<noteq> kCurrentFile)"

text \<open>
  The events of the passes over the live files and over the table and blob files: links,
  the lookup of the checksums, and copies, whose size limit is the manifest size \<open>ms\<close>
  for a descriptor file and 0, no limit, for any other file.
\<close>

fun loop_event :: "uint64 \<Rightarrow> event \<Rightarrow> bool" where
  "loop_event ms (EvLinkCb d f ty s) = True"
| "loop_event ms (EvCopyCb d f n ty cn cv s) = (n = (if ty = kDescriptorFile then ms else 0))"
| "loop_event ms (EvGetFileChecksumsFromManifest p n s) = True"
| "loop_event ms e = False"

text \<open>The events of the pass over the WAL files: links and copies of WAL files.\<close>

fun wal_event :: "event \<Rightarrow> bool" where
  "wal_event (EvLinkCb d f ty s) = (ty = kWalFile)"
| "wal_event (EvCopyCb d f n ty cn cv s) = (ty = kWalFile)"
| "wal_event e = False"

text \<open>The copy of a live file \<open>f\<close> by the first pass, when it succeeds.\<close>

definition live_file_copy :: "'w env \<Rightarrow> uint64 \<Rightarrow> string \<Rightarrow> event" where
  "live_file_copy env ms f =
     EvCopyCb (GetName env) f (if file_type env f = Some kDescriptorFile then ms else 0)
       (the (file_type env f)) kUnknownFileChecksumFuncName kUnknownFileChecksum OK"

fun table_or_blob :: "string \<times> uint64 \<times> FileType \<Rightarrow> bool" where
  "table_or_blob (f, n, ty) = (ty = kTableFile \<or> ty = kBlobFile)"

fun create_event :: "event \<Rightarrow> bool" where
  "create_event (EvCreateCb f c ty s) = True"
| "create_event e = False"

text \<open>
  Lines 123-137: the value recorded for \<^verbatim>\<open>db_log_dir\<close>, from the override and the
  normalized checkpoint directory.
\<close>

definition recorded_log_dir :: "'w env \<Rightarrow> string \<Rightarrow> string \<Rightarrow> string" where
  "recorded_log_dir env parsed_checkpoint_dir db_log_dir_arg =
     (let parsed_log_dir =
            (if db_log_dir_arg = [] then [] else substr_to_last_nonslash db_log_dir_arg)
      in if parsed_log_dir = GetName env \<or> parsed_log_dir = parsed_checkpoint_dir then []
         else parsed_log_dir)"

text \<open>
  Lines 127-156 without the calls of the environment: the value recorded for
  \<^verbatim>\<open>wal_dir\<close> and the directory that receives the WAL files.
\<close>

definition recorded_wal_dir :: "'w env \<Rightarrow> string \<Rightarrow> string \<Rightarrow> string" where
  "recorded_wal_dir env parsed_checkpoint_dir wal_dir_arg =
     (let parsed_wal_dir =
            (if wal_dir_arg = [] then [] else substr_to_last_nonslash wal_dir_arg)
      in if parsed_wal_dir = [] \<or> parsed_wal_dir = GetName env \<or>
            parsed_wal_dir = parsed_checkpoint_dir
         then parsed_checkpoint_dir else parsed_wal_dir)"

definition wal_files_dir :: "'w env \<Rightarrow> string \<Rightarrow> string \<Rightarrow> string" where
  "wal_files_dir env parsed_checkpoint_dir wal_dir_arg =
     (let parsed_wal_dir =
            (if wal_dir_arg = [] then [] else substr_to_last_nonslash wal_dir_arg)
      in if parsed_wal_dir = [] \<or> parsed_wal_dir = GetName env \<or>
            parsed_wal_dir = parsed_checkpoint_dir
         then parsed_checkpoint_dir @ ''.tmp''
         else if rfind0 parsed_wal_dir (parsed_checkpoint_dir @ ''/'')
         then parsed_checkpoint_dir @ ''.tmp'' @ ''/'' @
                drop (length (parsed_checkpoint_dir @ ''/'')) parsed_wal_dir
         else parsed_wal_dir)"

text \<open>An options file is written with the given values of the two directories.\<close>

fun records :: "string \<Rightarrow> string \<Rightarrow> event \<Rightarrow> bool" where
  "records vl vw (EvPersistRocksDBOptions opts names cfopts target s) =
     (db_log_dir opts = vl \<and> wal_dir opts = vw)"
| "records vl vw e = True"

fun persist_event :: "event \<Rightarrow> bool" where
  "persist_event (EvPersistRocksDBOptions opts names cfopts target s) = True"
| "persist_event e = False"

text \<open>Checkpoints in memory with overrides of the two directories.\<close>

definition mem_override_run ::
  "string \<Rightarrow> string \<Rightarrow> (status \<times> uint64 option) \<times> (string list) traced" where
  "mem_override_run db_log_dir_arg wal_dir_arg =
     CreateCheckpoint (logged mem_env) False ''/snap'' 1000 None db_log_dir_arg wal_dir_arg
       ([''/db''], [])"

fun transfer_event :: "event \<Rightarrow> bool" where
  "transfer_event (EvLinkFile a b s) = True"
| "transfer_event (EvCopyFile a b n f s) = True"
| "transfer_event e = False"

text \<open>A successful link or copy of the file \<open>f\<close> of \<open>d\<close> to \<open>n\<close>.\<close>

fun placed_ok :: "string \<Rightarrow> string \<Rightarrow> string \<Rightarrow> event \<Rightarrow> bool" where
  "placed_ok d n f (EvLinkFile a b s) = (a = d @ f \<and> b = n @ f \<and> s = OK)"
| "placed_ok d n f (EvCopyFile a b sz fs s) = (a = d @ f \<and> b = n @ f \<and> s = OK)"
| "placed_ok d n f e = False"

text \<open>
  A link or a copy of one of the WAL files \<open>wals\<close>, from the directory \<open>d\<close> to the same name
  in the directory \<open>n\<close>.
\<close>

fun wal_transfer :: "string \<Rightarrow> string \<Rightarrow> LogFile list \<Rightarrow> event \<Rightarrow> bool" where
  "wal_transfer d n wals (EvLinkFile a b s) =
     list_ex (\<lambda>wal. a = d @ PathName wal \<and> b = n @ PathName wal) wals"
| "wal_transfer d n wals (EvCopyFile a b sz f s) =
     list_ex (\<lambda>wal. a = d @ PathName wal \<and> b = n @ PathName wal) wals"
| "wal_transfer d n wals e = False"

text \<open>
  The events of the passes over the live files \<open>lf\<close>: a link of a live file to the same
  name in the staging directory \<open>fp\<close>; a copy of a live file to the same name in \<open>fp\<close>, or
  in \<open>n\<close> when the name of the live file is that of a WAL file; the creation of a file in
  \<open>fp\<close>; the reading and the writing of an options file; the reading of the checksums.
\<close>

fun staged :: "'w env \<Rightarrow> string list \<Rightarrow> string \<Rightarrow> string \<Rightarrow> event \<Rightarrow> bool" where
  "staged env lf n fp (EvLinkFile a b s) =
     list_ex (\<lambda>f. a = GetName env @ f \<and> b = fp @ f) lf"
| "staged env lf n fp (EvCopyFile a b sz fs s) =
     list_ex (\<lambda>f. a = GetName env @ f \<and>
                  b = (if file_type env f = Some kWalFile then n else fp) @ f) lf"
| "staged env lf n fp (EvCreateFile a c f s) = (take (length fp) a = fp)"
| "staged env lf n fp (EvLoadOptionsFromFile p s) = True"
| "staged env lf n fp (EvPersistRocksDBOptions opts names cfopts target s) = True"
| "staged env lf n fp (EvGetFileChecksumsFromManifest p ms s) = True"
| "staged env lf n fp e = False"

text \<open>An entry of \<^verbatim>\<open>live_table_and_blob_files\<close>: a live file, with what its name parses to.\<close>

fun table_entry :: "'w env \<Rightarrow> string list \<Rightarrow> string \<times> uint64 \<times> FileType \<Rightarrow> bool" where
  "table_entry env lf (f, number, ty) =
     (f \<in> set lf \<and> ParseFileName env f = Some (number, ty) \<and>
      (ty = kTableFile \<or> ty = kBlobFile))"

text \<open>
  \<open>placed_events env opts n fp mno s evs\<close>: what the events \<open>evs\<close> of a run with the
  status \<open>s\<close> say of its transfers. Either the run fails and transfers nothing; or \<open>evs\<close>
  hold the enumeration of the live files \<open>lf\<close> and of the WAL files \<open>wals\<close>, before it no
  transfer, after it the events \<open>mid\<close> of the passes over the live files, then the events
  \<open>W\<close> of the pass over the WAL files, each a link or a copy of a WAL file that takes part
  from the WAL directory of the source to \<open>n\<close>, then no transfer; and if \<open>s\<close> is OK, every
  WAL file that takes part has a successful link or copy in \<open>W\<close>. The WAL files that take
  part are selected with the flush request of the enumeration and the minimum log number
  \<open>mno\<close>.
\<close>

definition placed_events ::
  "'w env \<Rightarrow> DBOptions \<Rightarrow> string \<Rightarrow> string \<Rightarrow> uint64 option \<Rightarrow> status \<Rightarrow> event list \<Rightarrow> bool"
  where
  "placed_events env opts n fp mno s evs =
     ((\<not> ok s \<and> list_all (\<lambda>e. \<not> transfer_event e) evs) \<or>
      (\<exists>pre fl lf ms wals mid W B mn.
         evs = pre @ [EvGetLiveFiles fl OK lf ms, EvFlushWAL False OK,
                      EvGetSortedWalFiles OK wals] @ mid @ W @ B \<and>
         mno = Some mn \<and>
         list_all (\<lambda>e. \<not> transfer_event e) pre \<and>
         list_all (staged env lf n fp) mid \<and>
         list_all (wal_transfer (GetWalDir env opts) n (filter (wal_wanted fl mn) wals)) W \<and>
         list_all (\<lambda>e. \<not> transfer_event e) B \<and>
         (ok s \<longrightarrow>
            (\<forall>wal \<in> set wals. wal_wanted fl mn wal \<longrightarrow>
               list_ex (placed_ok (GetWalDir env opts) n (PathName wal)) W))))"

text \<open>An engine in memory that needs the logs from number 21 on.\<close>

definition mem_env_min_log_21 :: "(string list) env" where
  "mem_env_min_log_21 = mem_env\<lparr>GetMinLogNumberToKeep := (\<lambda>w. Some 21)\<rparr>"

text \<open>A checkpoint in memory that asks for a flush, with overrides of the two directories.\<close>

definition mem_flush_override_run :: "(status \<times> uint64 option) \<times> (string list) traced" where
  "mem_flush_override_run =
     CreateCheckpoint (logged mem_env_min_log_21) False ''/snap'' 0 None ''/db/'' ''/wal/''
       ([''/db''], [])"

fun export_link_event :: "event \<Rightarrow> bool" where
  "export_link_event (EvExportLinkCb d f s) = True"
| "export_link_event e = False"

fun export_copy_event :: "event \<Rightarrow> bool" where
  "export_copy_event (EvExportCopyCb d f s) = True"
| "export_copy_event e = False"

text \<open>
  A trace of an export that falls back to copy at its first file: the link of the file is
  not supported, the file is copied, and only copies follow.
\<close>

fun falls_back_at_first :: "event list \<Rightarrow> bool" where
  "falls_back_at_first (EvExportLinkCb d f s1 # EvExportCopyCb d' f' s2 # rest) =
     (IsNotSupported s1 \<and> d' = d \<and> f' = f \<and> list_all export_copy_event rest)"
| "falls_back_at_first tr = False"

text \<open>
  Nothing fails in a trace of an export: every call returns OK, but for a first link that
  is not supported.
\<close>

fun nothing_fails :: "event list \<Rightarrow> bool" where
  "nothing_fails [] = True"
| "nothing_fails (e # es) =
     ((ev_status e = OK \<or> (export_link_event e \<and> IsNotSupported (ev_status e))) \<and>
      list_all (\<lambda>e. ev_status e = OK) es)"

text \<open>The names of the table files of the metadata, level by level.\<close>

definition table_file_names :: "ColumnFamilyMetaData \<Rightarrow> string list" where
  "table_file_names md = map sst_name (concat (map files (levels md)))"

text \<open>An engine whose links are supported for the first table file only.\<close>

definition mem_env_second_link_unsupported :: "(string list) env" where
  "mem_env_second_link_unsupported =
     mem_env\<lparr>LinkFile :=
       (\<lambda>a b w. if a = ''/db/000011.sst'' then (NotSupported ''cross-device link'', w)
                else (OK, w @ [b]))\<rparr>"

text \<open>The transfer of an export in memory when no link is supported.\<close>

definition mem_export_run :: "status \<times> (string list) traced" where
  "mem_export_run =
     ExportFilesInMetaData (logged mem_env_no_links) mem_options mem_cf_metadata
       (log_export_link_cb (export_link_file_cb mem_env_no_links ''/exp.tmp''))
       (log_export_copy_cb (export_copy_file_cb mem_env_no_links mem_options ''/exp.tmp''))
       ([''/db'', ''/exp.tmp''], [])"

text \<open>
  What the loops of an export leave when they start with \<^verbatim>\<open>hardlink_file\<close> set and no file
  counted: \<open>evs\<close> are the events of the loops over the files \<open>fs\<close>, \<open>s0\<close> and \<open>s'\<close> the status
  before and after, \<open>h'\<close> and \<open>n'\<close> the final \<^verbatim>\<open>hardlink_file\<close> and \<^verbatim>\<open>num_files\<close>.
\<close>

definition fresh_outcome ::
  "'w env \<Rightarrow> SstFileMetaData list \<Rightarrow> status \<Rightarrow> status \<Rightarrow> bool \<Rightarrow> nat \<Rightarrow> event list \<Rightarrow> bool"
  where
  "fresh_outcome env fs s0 s' h' n' evs =
     ((evs = [] \<and> h' \<and> n' = 0 \<and>
       (list_all (\<lambda>f. ParseFileName env (sst_name f) \<noteq> None) fs \<longrightarrow> fs = [] \<and> s' = s0)) \<or>
      (h' \<and> 0 < n' \<and> evs \<noteq> [] \<and> list_all export_link_event evs \<and>
       (list_all (\<lambda>f. ParseFileName env (sst_name f) \<noteq> None) fs \<and> nothing_fails evs \<longrightarrow>
          evs = map (\<lambda>f. EvExportLinkCb (GetName env) (sst_name f) OK) fs \<and> s' = OK)) \<or>
      (\<not> h' \<and> falls_back_at_first evs \<and>
       (list_all (\<lambda>f. ParseFileName env (sst_name f) \<noteq> None) fs \<and> nothing_fails evs \<longrightarrow>
          (\<exists>s1. IsNotSupported s1 \<and>
                evs = EvExportLinkCb (GetName env) (sst_name (hd fs)) s1 #
                      map (\<lambda>f. EvExportCopyCb (GetName env) (sst_name f) OK) fs) \<and>
          s' = OK)))"

text \<open>An engine in memory whose existence probe fails.\<close>

definition mem_env_probe_fails :: "(string list) env" where
  "mem_env_probe_fails = mem_env\<lparr>FileExists := (\<lambda>p w. (IOError ''probe'', w))\<rparr>"






text \<open>An engine in memory whose checkpoint directory cannot be synced.\<close>

definition mem_env_fsync_fails :: "(string list) env" where
  "mem_env_fsync_fails = mem_env\<lparr>DirFsync := (\<lambda>p w. (IOError ''fsync'', w))\<rparr>"


section \<open>Basic facts\<close>

lemma log_status_pair [simp]:
  "log_status ev f (w, tr) = (case f w of (s, w1) \<Rightarrow> (s, (w1, tr @ [ev s])))"
  by (simp add: log_status_def)

lemma log_result_pair [simp]:
  "log_result ev f (w, tr) = (case f w of (r, w1) \<Rightarrow> (r, (w1, tr @ [ev r])))"
  by (simp add: log_result_def)

lemma logged_sel [simp]:
  "GetName (logged env) = GetName env"
  "GetDBOptions (logged env) = GetDBOptions env"
  "GetWalDir (logged env) = GetWalDir env"
  "ParseFileName (logged env) = ParseFileName env"
  "GetLatestSequenceNumber (logged env) wt = GetLatestSequenceNumber env (fst wt)"
  "GetMinLogNumberToKeep (logged env) wt = GetMinLogNumberToKeep env (fst wt)"
  "FileExists (logged env) p = log_status (EvFileExists p) (FileExists env p)"
  "GetChildren (logged env) p =
     log_result (\<lambda>r. EvGetChildren p (fst r) (snd r)) (GetChildren env p)"
  "DeleteFile (logged env) p = log_status (EvDeleteFile p) (DeleteFile env p)"
  "DeleteDir (logged env) p = log_status (EvDeleteDir p) (DeleteDir env p)"
  "CreateDir (logged env) p = log_status (EvCreateDir p) (CreateDir env p)"
  "RenameFile (logged env) a b = log_status (EvRenameFile a b) (RenameFile env a b)"
  "NewDirectory (logged env) p =
     log_result (\<lambda>r. EvNewDirectory p (fst r)) (NewDirectory env p)"
  "DirFsync (logged env) p = log_status (EvDirFsync p) (DirFsync env p)"
  "LinkFile (logged env) a b = log_status (EvLinkFile a b) (LinkFile env a b)"
  "CopyFile (logged env) a b n f = log_status (EvCopyFile a b n f) (CopyFile env a b n f)"
  "CreateFile (logged env) a c f = log_status (EvCreateFile a c f) (CreateFile env a c f)"
  "LoadOptionsFromFile (logged env) p =
     log_result (\<lambda>r. EvLoadOptionsFromFile p (fst r)) (LoadOptionsFromFile env p)"
  "PersistRocksDBOptions (logged env) opts names cfopts target =
     log_status (EvPersistRocksDBOptions opts names cfopts target)
       (PersistRocksDBOptions env opts names cfopts target)"
  "GetFileChecksumsFromManifest (logged env) p n =
     log_result (\<lambda>r. EvGetFileChecksumsFromManifest p n (fst r))
       (GetFileChecksumsFromManifest env p n)"
  "DisableFileDeletions (logged env) =
     log_status EvDisableFileDeletions (DisableFileDeletions env)"
  "EnableFileDeletions (logged env) force =
     log_status (EvEnableFileDeletions force) (EnableFileDeletions env force)"
  "GetSortedWalFiles (logged env) =
     log_result (\<lambda>r. EvGetSortedWalFiles (fst r) (snd r)) (GetSortedWalFiles env)"
  "GetLiveFiles (logged env) flush =
     log_result (\<lambda>r. EvGetLiveFiles flush (fst r) (fst (snd r)) (snd (snd r)))
       (GetLiveFiles env flush)"
  "FlushWAL (logged env) sync = log_status (EvFlushWAL sync) (FlushWAL env sync)"
  "Flush (logged env) h = log_status (EvFlush h) (Flush env h)"
  "GetColumnFamilyMetaData (logged env) h =
     log_result (EvGetColumnFamilyMetaData h) (GetColumnFamilyMetaData env h)"
  by (simp_all add: logged_def)

lemma find_last_not_of_None: "find_last_not_of s c = None \<longleftrightarrow> set s \<subseteq> {c}"
  by (induction s) (auto split: option.splits)

section \<open>The target directory is checked before anything is changed\<close>

text \<open>
  Claim C7, as the code has it. \<^verbatim>\<open>CreateCheckpoint\<close> and \<^verbatim>\<open>ExportColumnFamily\<close> check
  their target before any mutation, and the result of the existence probe comes first.
  When the probe answers OK (the path exists), both calls return an \<^verbatim>\<open>InvalidArgument\<close>
  status. When the probe fails with an error other than not-found, both calls return that
  error as it is, also for a path that is empty or made of slashes only. When the probe
  answers not-found and the path is empty or made of slashes only, both calls return an
  \<^verbatim>\<open>InvalidArgument\<close> status. In the three cases the caller's output is left untouched
  and the probe is the only operation performed on the engine and the filesystem: no
  directory is created and no file is transferred.
\<close>

theorem target_checked_before_any_mutation:
  assumes "FileExists env dir w = (s, w1)"
    and "\<not> IsNotFound s \<or> set dir \<subseteq> {CHR ''/''}"
  shows "CreateCheckpoint (logged env) glc dir log_size_for_flush sequence_number_ptr
             db_log_dir_arg wal_dir_arg (w, []) =
           ((if ok s then InvalidArgument ''Directory exists''
             else if IsNotFound s then InvalidArgument ''invalid checkpoint directory name''
             else s, sequence_number_ptr),
            (w1, [EvFileExists dir s])) \<and>
         ExportColumnFamily (logged env) handle dir metadata (w, []) =
           ((if ok s then InvalidArgument ''Specified export_dir exists''
             else if IsNotFound s then InvalidArgument ''Specified export_dir invalid''
             else s, metadata),
            (w1, [EvFileExists dir s]))"
  using assms
  by (cases s)
     (auto simp: CreateCheckpoint_def ExportColumnFamily_def ok_def
        find_last_not_of_None[symmetric] simp del: find_last_not_of.simps)

theorem target_checked_before_any_mutation_witness:
  "CreateCheckpoint (logged mem_env) False ''/snap'' 0 None [] [] ([''/db'', ''/snap''], []) =
     ((InvalidArgument ''Directory exists'', None),
      ([''/db'', ''/snap''], [EvFileExists ''/snap'' OK])) \<and>
   ExportColumnFamily (logged mem_env) mem_handle ''/snap'' None ([''/db'', ''/snap''], []) =
     ((InvalidArgument ''Specified export_dir exists'', None),
      ([''/db'', ''/snap''], [EvFileExists ''/snap'' OK])) \<and>
   CreateCheckpoint (logged mem_env) False ''//'' 0 None [] [] ([''/db''], []) =
     ((InvalidArgument ''invalid checkpoint directory name'', None),
      ([''/db''], [EvFileExists ''//'' (NotFound ''//'')])) \<and>
   ExportColumnFamily (logged mem_env) mem_handle ''//'' None ([''/db''], []) =
     ((InvalidArgument ''Specified export_dir invalid'', None),
      ([''/db''], [EvFileExists ''//'' (NotFound ''//'')])) \<and>
   CreateCheckpoint (logged mem_env_probe_fails) False ''/snap'' 0 None [] [] ([''/db''], []) =
     ((IOError ''probe'', None), ([''/db''], [EvFileExists ''/snap'' (IOError ''probe'')])) \<and>
   ExportColumnFamily (logged mem_env_probe_fails) mem_handle ''/snap'' None ([''/db''], []) =
     ((IOError ''probe'', None), ([''/db''], [EvFileExists ''/snap'' (IOError ''probe'')]))"
  using target_checked_before_any_mutation
          [of mem_env "''/snap''" "[''/db'', ''/snap'']" OK "[''/db'', ''/snap'']"
              False 0 None "[]" "[]" mem_handle None]
        target_checked_before_any_mutation
          [of mem_env "''//''" "[''/db'']" "NotFound ''//''" "[''/db'']"
              False 0 None "[]" "[]" mem_handle None]
        target_checked_before_any_mutation
          [of mem_env_probe_fails "''/snap''" "[''/db'']" "IOError ''probe''" "[''/db'']"
              False 0 None "[]" "[]" mem_handle None]
  by (simp add: mem_env_def mem_env_probe_fails_def ok_def)

theorem slashes_only_target_with_failing_probe:
  "set ''//'' \<subseteq> {CHR ''/''} \<and>
   fst (CreateCheckpoint (logged mem_env_probe_fails) False ''//'' 0 None [] []
          ([''/db''], [])) = (IOError ''probe'', None) \<and>
   fst (ExportColumnFamily (logged mem_env_probe_fails) mem_handle ''//'' None
          ([''/db''], [])) = (IOError ''probe'', None)"
  by code_simp


section \<open>What each part of a run appends to the trace\<close>

lemma appends_refl [simp]: "appends P tr tr"
  by (simp add: appends_def)

lemma appends_trans: "appends P a b \<Longrightarrow> appends P b c \<Longrightarrow> appends P a c"
  by (auto simp: appends_def)

lemma appends_same [simp]: "appends P tr (tr @ evs) = list_all P evs"
  by (auto simp: appends_def)

lemma log_status_case:
  "log_status ev f wt = (case wt of (w, tr) \<Rightarrow> case f w of (s, w1) \<Rightarrow> (s, (w1, tr @ [ev s])))"
  by (simp add: log_status_def split: prod.splits)

lemma log_result_case:
  "log_result ev f wt = (case wt of (w, tr) \<Rightarrow> case f w of (r, w1) \<Rightarrow> (r, (w1, tr @ [ev r])))"
  by (simp add: log_result_def split: prod.splits)

lemma appends_snoc2: "appends P tr tr1 \<Longrightarrow> P e \<Longrightarrow> appends P tr (tr1 @ [e])"
  by (auto simp: appends_def)

lemma appends_mono: "appends P tr tr' \<Longrightarrow> (\<And>e. P e \<Longrightarrow> Q e) \<Longrightarrow> appends Q tr tr'"
  by (auto simp: appends_def list_all_iff)

lemma cb_appendsD: "cb_appends P f \<Longrightarrow> f (w, tr) = (r, (w', tr')) \<Longrightarrow> appends P tr tr'"
  by (auto simp: cb_appends_def)

lemma cb_appendsI:
  "(\<And>w tr r w' tr'. f (w, tr) = (r, (w', tr')) \<Longrightarrow> appends P tr tr') \<Longrightarrow> cb_appends P f"
  by (auto simp: cb_appends_def)

lemma cb_appends_log_status: "(\<And>s. P (ev s)) \<Longrightarrow> cb_appends P (log_status ev f)"
  by (auto simp: cb_appends_def split: prod.splits)

lemma cb_appends_log_result: "(\<And>r. P (ev r)) \<Longrightarrow> cb_appends P (log_result ev f)"
  by (auto simp: cb_appends_def split: prod.splits)

lemma appends_filter:
  "appends P tr tr' \<Longrightarrow> (\<And>e. P e \<Longrightarrow> \<not> Q e) \<Longrightarrow> filter Q tr' = filter Q tr"
  by (auto simp: appends_def list_all_iff filter_empty_conv)

lemma live_files_loop_appends:
  assumes cb: "\<And>a b c d e f. cb_appends P (copy a b c d e f)"
  shows "live_files_loop env copy ms fs s m c tb (w, tr) = (r, (w', tr')) \<Longrightarrow> appends P tr tr'"
proof (induction fs arbitrary: s m c tb w tr)
  case Nil
  then show ?case by simp
next
  case (Cons f fs)
  from Cons.prems show ?case
    by (auto split: if_splits option.splits prod.splits
        dest!: Cons.IH cb_appendsD[OF cb] intro: appends_trans)
qed

lemma table_file_step_appends:
  assumes "\<And>a b c. cb_appends P (link a b c)" "\<And>a b c d e f. cb_appends P (copy a b c d e f)"
  shows "table_file_step env link copy glc cl file s sf (w, tr) = (r, (w', tr')) \<Longrightarrow> appends P tr tr'"
  by (auto simp: table_file_step_def split: if_splits prod.splits
        dest!: cb_appendsD[OF assms(1)] cb_appendsD[OF assms(2)] intro: appends_trans)

lemma table_files_loop_appends:
  assumes "\<And>a b c. cb_appends P (link a b c)" "\<And>a b c d e f. cb_appends P (copy a b c d e f)"
  shows "table_files_loop env link copy glc cl fs s sf (w, tr) = (r, (w', tr')) \<Longrightarrow> appends P tr tr'"
proof (induction fs arbitrary: s sf w tr)
  case Nil
  then show ?case by simp
next
  case (Cons f fs)
  from Cons.prems show ?case
    by (auto split: if_splits prod.splits
        dest!: Cons.IH table_file_step_appends[OF assms] intro: appends_trans)
qed

lemma wal_file_step_appends:
  assumes "\<And>a b c. cb_appends P (link a b c)" "\<And>a b c d e f. cb_appends P (copy a b c d e f)"
  shows "wal_file_step link copy dir wal s sf (w, tr) = (r, (w', tr')) \<Longrightarrow> appends P tr tr'"
  by (auto simp: wal_file_step_def split: if_splits prod.splits
        dest!: cb_appendsD[OF assms(1)] cb_appendsD[OF assms(2)] intro: appends_trans)

lemma wal_files_loop_appends:
  assumes "\<And>a b c. cb_appends P (link a b c)" "\<And>a b c d e f. cb_appends P (copy a b c d e f)"
  shows "wal_files_loop link copy dir fl mn wals s sf (w, tr) = (r, (w', tr')) \<Longrightarrow> appends P tr tr'"
proof (induction wals arbitrary: s sf w tr)
  case Nil
  then show ?case by simp
next
  case (Cons f fs)
  from Cons.prems show ?case
    by (auto split: if_splits prod.splits
        dest!: Cons.IH wal_file_step_appends[OF assms] cb_appendsD[OF assms(2)] intro: appends_trans)
qed


lemma flush_decision_appends:
  assumes "\<forall>e. enumeration_event e \<longrightarrow> P e"
  shows "flush_decision (logged env) opts t (w, tr) = (r, (w', tr')) \<Longrightarrow> appends P tr tr'"
  by (auto simp: flush_decision_def assms Let_def split: if_splits prod.splits)

lemma transfer_live_files_appends:
  assumes "\<And>p n s. P (EvGetFileChecksumsFromManifest p n s)"
    and "\<And>a b c. cb_appends P (link a b c)" "\<And>a b c d e f. cb_appends P (copy a b c d e f)"
    and "\<And>a b c. cb_appends P (create a b c)"
  shows "transfer_live_files (logged env) opts link copy create glc fl mn lf ms wals (w, tr)
           = (r, (w', tr')) \<Longrightarrow> appends P tr tr'"
  unfolding transfer_live_files_def
  by (auto simp: assms(1) appends_def split: if_splits prod.splits
      dest!: live_files_loop_appends[where P=P, OF assms(3)]
             table_files_loop_appends[where P=P, OF assms(2,3)]
             wal_files_loop_appends[where P=P, OF assms(2,3)]
             cb_appendsD[OF assms(4)])


lemma CreateCustomCheckpoint_appends:
  assumes "\<forall>e. enumeration_event e \<longrightarrow> P e"
    and "\<And>a b c. cb_appends P (link a b c)" "\<And>a b c d e f. cb_appends P (copy a b c d e f)"
    and "\<And>a b c. cb_appends P (create a b c)"
    and run: "CreateCustomCheckpoint (logged env) opts link copy create t glc (w, tr)
           = (r, (w', tr'))"
  shows "appends P tr tr'"
proof -
  have ck: "\<And>p n s. P (EvGetFileChecksumsFromManifest p n s)"
    using assms(1) by simp
  from run show ?thesis
    unfolding CreateCustomCheckpoint_def
    by (auto simp: assms(1) Let_def appends_def
        split: if_splits prod.splits sum.splits option.splits
        dest!: flush_decision_appends[where P=P, OF assms(1)]
               transfer_live_files_appends[where P=P, OF ck assms(2,3,4)])
qed

lemma delete_subchildren_appends:
  assumes "\<forall>e. cleaning_event e \<longrightarrow> P e"
  shows "delete_subchildren (logged env) dir cs (w, tr) = (w', tr') \<Longrightarrow> appends P tr tr'"
proof (induction cs arbitrary: w tr)
  case Nil
  then show ?case by simp
next
  case (Cons c cs)
  from Cons.prems show ?case
    by (auto simp: assms appends_def split: prod.splits dest!: Cons.IH)
qed

lemma CleanStagingDirectory_appends:
  assumes "\<forall>e. cleaning_event e \<longrightarrow> P e"
  shows "CleanStagingDirectory (logged env) dir (w, tr) = (w', tr') \<Longrightarrow> appends P tr tr'"
  unfolding CleanStagingDirectory_def
  by (auto simp: assms appends_def log_status_case split: prod.splits if_splits
      dest!: delete_subchildren_appends[where P=P, OF assms])

lemma export_cleanup_appends:
  assumes "\<forall>e. cleaning_event e \<longrightarrow> P e"
  shows "export_cleanup (logged env) dir (w, tr) = (w', tr') \<Longrightarrow> appends P tr tr'"
  unfolding export_cleanup_def
  by (auto simp: assms appends_def log_status_case split: prod.splits if_splits
      dest!: delete_subchildren_appends[where P=P, OF assms])

lemma checkpoint_cbs_appends:
  assumes "\<forall>e. file_event e \<longrightarrow> P e"
  shows "cb_appends P (checkpoint_link_file_cb (logged env) nw fp a b c)"
    and "cb_appends P (checkpoint_copy_file_cb (logged env) opts nw fp vl vw a b n c cn cv)"
    and "cb_appends P (checkpoint_create_file_cb (logged env) opts fp a b c)"
  by (auto simp: checkpoint_link_file_cb_def checkpoint_copy_file_cb_def
      checkpoint_create_file_cb_def CopyOptionsFile_def cb_appends_def assms
      split: prod.splits if_splits)

lemma export_cbs_appends:
  assumes "\<forall>e. file_event e \<longrightarrow> P e"
  shows "cb_appends P (export_link_file_cb (logged env) tmp a b)"
    and "cb_appends P (export_copy_file_cb (logged env) opts tmp a b)"
  by (auto simp: export_link_file_cb_def export_copy_file_cb_def cb_appends_def assms
      split: prod.splits if_splits)

lemma export_files_loop_appends:
  assumes "\<And>a b. cb_appends P (link a b)" "\<And>a b. cb_appends P (copy a b)"
  shows "export_files_loop env link copy fs s h n (w, tr) = (r, (w', tr')) \<Longrightarrow> appends P tr tr'"
proof (induction fs arbitrary: s h n w tr)
  case Nil
  then show ?case by simp
next
  case (Cons f fs)
  from Cons.prems show ?case
    by (auto simp: appends_def split: if_splits prod.splits option.splits
        dest!: Cons.IH cb_appendsD[OF assms(1)] cb_appendsD[OF assms(2)])
qed

lemma export_levels_loop_appends:
  assumes "\<And>a b. cb_appends P (link a b)" "\<And>a b. cb_appends P (copy a b)"
  shows "export_levels_loop env link copy ls s h n (w, tr) = (r, (w', tr')) \<Longrightarrow> appends P tr tr'"
proof (induction ls arbitrary: s h n w tr)
  case Nil
  then show ?case by simp
next
  case (Cons l ls)
  from Cons.prems show ?case
    by (auto simp: appends_def split: if_splits prod.splits option.splits
        dest!: Cons.IH export_files_loop_appends[where P=P, OF assms])
qed

lemma ExportFilesInMetaData_appends:
  assumes "\<And>a b. cb_appends P (link a b)" "\<And>a b. cb_appends P (copy a b)"
  shows "ExportFilesInMetaData env opts md link copy (w, tr) = (r, (w', tr')) \<Longrightarrow> appends P tr tr'"
  unfolding ExportFilesInMetaData_def
  by (auto split: prod.splits dest!: export_levels_loop_appends[where P=P, OF assms])

lemma log_cbs_appends:
  "(\<And>a b c s. P (EvLinkCb a b c s)) \<Longrightarrow> cb_appends P (log_link_cb l a b c)"
  "(\<And>a b n c cn cv s. P (EvCopyCb a b n c cn cv s)) \<Longrightarrow> cb_appends P (log_copy_cb cp a b n c cn cv)"
  "(\<And>a b c s. P (EvCreateCb a b c s)) \<Longrightarrow> cb_appends P (log_create_cb k a b c)"
  "(\<And>a b s. P (EvExportLinkCb a b s)) \<Longrightarrow> cb_appends P (log_export_link_cb el a b)"
  "(\<And>a b s. P (EvExportCopyCb a b s)) \<Longrightarrow> cb_appends P (log_export_copy_cb ec a b)"
  by (auto simp: log_link_cb_def log_copy_cb_def log_create_cb_def log_export_link_cb_def
      log_export_copy_cb_def intro!: cb_appends_log_status)

section \<open>File deletions are enabled again\<close>

lemma not_deletion_event:
  "\<forall>e. cleaning_event e \<longrightarrow> \<not> deletion_event e"
  "\<forall>e. file_event e \<longrightarrow> \<not> deletion_event e"
  "\<forall>e. enumeration_event e \<longrightarrow> \<not> deletion_event e"
  by (auto elim: cleaning_event.elims file_event.elims enumeration_event.elims)

lemma appends_no_deletion:
  "appends (\<lambda>e. \<not> deletion_event e) tr tr' \<Longrightarrow>
     filter deletion_event tr' = filter deletion_event tr"
  by (rule appends_filter)

lemma Clean_deletions:
  "CleanStagingDirectory (logged env) dir (w, tr) = (w', tr') \<Longrightarrow>
     filter deletion_event tr' = filter deletion_event tr"
  by (rule appends_no_deletion, rule CleanStagingDirectory_appends[OF not_deletion_event(1)])

lemma export_cleanup_deletions:
  "export_cleanup (logged env) dir (w, tr) = (w', tr') \<Longrightarrow>
     filter deletion_event tr' = filter deletion_event tr"
  by (rule appends_no_deletion, rule export_cleanup_appends[OF not_deletion_event(1)])

lemma resolve_wal_dir_deletions:
  "resolve_wal_dir (logged env) pw pc fp s (w, tr) = (r, (w', tr')) \<Longrightarrow>
     filter deletion_event tr' = filter deletion_event tr"
  by (auto simp: resolve_wal_dir_def Let_def split: if_splits prod.splits)

lemma CCC_checkpoint_deletions:
  "CreateCustomCheckpoint (logged env) opts
     (checkpoint_link_file_cb (logged env) nw fp)
     (checkpoint_copy_file_cb (logged env) opts nw fp vl vw)
     (checkpoint_create_file_cb (logged env) opts fp) t glc (w, tr) = (r, (w', tr')) \<Longrightarrow>
   filter deletion_event tr' = filter deletion_event tr"
  by (rule appends_no_deletion,
      rule CreateCustomCheckpoint_appends[OF not_deletion_event(3)
              checkpoint_cbs_appends(1)[OF not_deletion_event(2)]
              checkpoint_cbs_appends(2)[OF not_deletion_event(2)]
              checkpoint_cbs_appends(3)[OF not_deletion_event(2)]])

lemma install_checkpoint_deletions:
  "install_checkpoint (logged env) fp pc sp sq s (w, tr) = (r, (w', tr')) \<Longrightarrow>
     filter deletion_event tr' = filter deletion_event tr"
  by (auto simp: install_checkpoint_def split: if_splits prod.splits dest!: Clean_deletions)

lemma Export_files_deletions:
  "ExportFilesInMetaData (logged env) opts md (export_link_file_cb (logged env) tmp)
     (export_copy_file_cb (logged env) opts tmp) (w, tr) = (r, (w', tr')) \<Longrightarrow>
   filter deletion_event tr' = filter deletion_event tr"
  by (rule appends_no_deletion,
      rule ExportFilesInMetaData_appends[OF export_cbs_appends(1)[OF not_deletion_event(2)]
              export_cbs_appends(2)[OF not_deletion_event(2)]])

lemma transfer_deletions_disabled_deletions:
  "transfer_deletions_disabled (logged env) opts glc t nw fp vl vw s (w, tr) = (r, (w', tr')) \<Longrightarrow>
     \<exists>ds. filter deletion_event tr' = filter deletion_event tr @ ds \<and> deletions_paired ds"
  by (auto simp: transfer_deletions_disabled_def deletions_paired_def ok_def Let_def
      split: if_splits prod.splits dest!: CCC_checkpoint_deletions)

lemma export_deletions_disabled_deletions:
  "export_deletions_disabled (logged env) opts h tmp s (w, tr) = (r, (w', tr')) \<Longrightarrow>
     \<exists>ds. filter deletion_event tr' = filter deletion_event tr @ ds \<and> deletions_paired ds"
  by (auto simp: export_deletions_disabled_def deletions_paired_def ok_def Let_def
      split: if_splits prod.splits dest!: Export_files_deletions)

lemma CreateCheckpoint_deletions:
  "CreateCheckpoint (logged env) glc dir t sp ld wd (w, []) = (r, (w', tr)) \<Longrightarrow>
     deletions_paired (filter deletion_event tr)"
  unfolding CreateCheckpoint_def
  by (auto simp: Let_def log_status_case split: if_splits prod.splits option.splits
      dest!: Clean_deletions resolve_wal_dir_deletions install_checkpoint_deletions
             transfer_deletions_disabled_deletions)
     (auto simp: deletions_paired_def)

lemma ExportColumnFamily_deletions:
  "ExportColumnFamily (logged env) h dir md (w, []) = (r, (w', tr)) \<Longrightarrow>
     deletions_paired (filter deletion_event tr)"
  unfolding ExportColumnFamily_def
  by (auto simp: Let_def log_status_case split: if_splits prod.splits option.splits
      dest!: export_cleanup_deletions export_deletions_disabled_deletions)
     (auto simp: deletions_paired_def)

text \<open>
  C6. In \<^verbatim>\<open>CreateCheckpoint\<close> and in \<^verbatim>\<open>ExportColumnFamily\<close>, on every path: the calls
  of \<^verbatim>\<open>DisableFileDeletions\<close> and \<^verbatim>\<open>EnableFileDeletions\<close> of a run are either none, or
  one disabling that did not succeed and no enabling, or one successful disabling followed
  by exactly one enabling before the run returns.
\<close>

theorem file_deletions_enabled_exactly_once:
  assumes "tr = snd (snd (CreateCheckpoint (logged env) glc dir log_size_for_flush
                    sequence_number_ptr db_log_dir_arg wal_dir_arg (w, []))) \<or>
           tr = snd (snd (ExportColumnFamily (logged env) handle dir metadata (w, [])))"
  shows "filter deletion_event tr = [] \<or>
         (\<exists>s. \<not> ok s \<and> filter deletion_event tr = [EvDisableFileDeletions s]) \<or>
         (\<exists>s'. filter deletion_event tr =
                  [EvDisableFileDeletions OK, EvEnableFileDeletions False s'])"
proof -
  have "deletions_paired (filter deletion_event tr)"
    using assms
  proof
    assume "tr = snd (snd (CreateCheckpoint (logged env) glc dir log_size_for_flush
                    sequence_number_ptr db_log_dir_arg wal_dir_arg (w, [])))"
    then show ?thesis
      using CreateCheckpoint_deletions
              [of env glc dir log_size_for_flush sequence_number_ptr db_log_dir_arg
                  wal_dir_arg w]
      by (metis prod.collapse)
  next
    assume "tr = snd (snd (ExportColumnFamily (logged env) handle dir metadata (w, [])))"
    then show ?thesis
      using ExportColumnFamily_deletions[of env handle dir metadata w]
      by (metis prod.collapse)
  qed
  then show ?thesis by (simp add: deletions_paired_def)
qed

theorem file_deletions_enabled_exactly_once_witness:
  "filter deletion_event
     (snd (snd (CreateCheckpoint (logged mem_env_copy_fails) False ''/snap'' 0 None [] []
                  ([''/db''], [])))) =
     [EvDisableFileDeletions OK, EvEnableFileDeletions False OK] \<and>
   filter deletion_event
     (snd (snd (ExportColumnFamily (logged mem_env) mem_handle ''/exp'' None
                  ([''/db''], [])))) =
     [EvDisableFileDeletions OK, EvEnableFileDeletions False OK]"
proof -
  have a: "filter deletion_event
     (snd (snd (CreateCheckpoint (logged mem_env_copy_fails) False ''/snap'' 0 None [] []
                  ([''/db''], [])))) =
     [EvDisableFileDeletions OK, EvEnableFileDeletions False OK]"
    by code_simp
  have b: "filter deletion_event
     (snd (snd (ExportColumnFamily (logged mem_env) mem_handle ''/exp'' None
                  ([''/db''], [])))) =
     [EvDisableFileDeletions OK, EvEnableFileDeletions False OK]"
    by code_simp
  from a b
    file_deletions_enabled_exactly_once
      [of "snd (snd (CreateCheckpoint (logged mem_env_copy_fails) False ''/snap'' 0 None [] []
                  ([''/db''], [])))" mem_env_copy_fails False "''/snap''" 0 None "[]" "[]"
          "[''/db'']"]
    file_deletions_enabled_exactly_once
      [of "snd (snd (ExportColumnFamily (logged mem_env) mem_handle ''/exp'' None
                  ([''/db''], [])))" mem_env False "''/exp''" 0 None "[]" "[]"
          "[''/db'']" mem_handle None]
  show ?thesis by simp
qed

section \<open>The metadata of an export\<close>

lemma not_metadata_event:
  "\<forall>e. cleaning_event e \<longrightarrow> \<not> metadata_event e"
  "\<forall>e. file_event e \<longrightarrow> \<not> metadata_event e"
  by (auto elim: cleaning_event.elims file_event.elims)

lemma Export_files_metadata_events:
  "ExportFilesInMetaData (logged env) opts md (export_link_file_cb (logged env) tmp)
     (export_copy_file_cb (logged env) opts tmp) (w, tr) = (r, (w', tr')) \<Longrightarrow>
   filter metadata_event tr' = filter metadata_event tr"
  by (rule appends_filter[where P="\<lambda>e. \<not> metadata_event e"],
      rule ExportFilesInMetaData_appends[OF export_cbs_appends(1)[OF not_metadata_event(2)]
              export_cbs_appends(2)[OF not_metadata_event(2)]]) simp

lemma export_deletions_disabled_metadata:
  "export_deletions_disabled (logged env) opts h tmp s (w, tr) = ((s', db_md), (w', tr')) \<Longrightarrow>
     ok s' \<Longrightarrow>
     filter metadata_event tr' = filter metadata_event tr @ [EvGetColumnFamilyMetaData h db_md]"
  by (auto simp: export_deletions_disabled_def ok_def Let_def
      split: if_splits prod.splits dest!: Export_files_metadata_events)


lemma ExportColumnFamily_success:
  assumes "ExportColumnFamily (logged env) handle export_dir metadata (w, []) =
             ((s, md), (w', tr))"
    and "ok s"
  shows "\<exists>db_metadata.
           filter metadata_event tr = [EvGetColumnFamilyMetaData handle db_metadata] \<and>
           md = fill_metadata (comparator_name handle) export_dir db_metadata metadata"
  using assms unfolding ExportColumnFamily_def
  by (auto simp: Let_def log_status_case ok_def split: if_splits prod.splits option.splits
      dest!: export_deletions_disabled_metadata)

text \<open>
  C10. A successful \<^verbatim>\<open>ExportColumnFamily\<close> captures the column-family metadata once.
  When the captured metadata has no level, the caller's output is left as it was (null
  stays null). When it has a level, the output is one record per table file of every
  level, in order, carrying the captured size, name, file number, sequence numbers, keys
  and blob file number, the export directory and the level, together with the name of
  the column family's comparator.
\<close>

theorem export_metadata_written_only_with_a_level:
  assumes "ExportColumnFamily (logged env) handle export_dir metadata (w, []) =
             ((s, md), (w', tr))"
    and "ok s"
  shows "\<exists>db_metadata.
           filter metadata_event tr = [EvGetColumnFamilyMetaData handle db_metadata] \<and>
           (levels db_metadata = [] \<longrightarrow> md = metadata) \<and>
           (levels db_metadata \<noteq> [] \<longrightarrow>
              md = Some
                \<lparr>db_comparator_name = comparator_name handle,
                 ei_files =
                   concat (map (\<lambda>level_metadata.
                      map (\<lambda>file_metadata.
                             \<lparr>sst_size = sst_size file_metadata,
                              sst_name = sst_name file_metadata,
                              file_number = file_number file_metadata,
                              db_path = export_dir,
                              smallest_seqno = smallest_seqno file_metadata,
                              largest_seqno = largest_seqno file_metadata,
                              smallestkey = smallestkey file_metadata,
                              largestkey = largestkey file_metadata,
                              oldest_blob_file_number = oldest_blob_file_number file_metadata,
                              column_family_name = [],
                              live_level = level level_metadata\<rparr>)
                        (files level_metadata))
                     (levels db_metadata))\<rparr> \<and>
              length (ei_files (the md)) = (\<Sum>lm\<leftarrow>levels db_metadata. length (files lm)))"
proof -
  from ExportColumnFamily_success[OF assms] obtain db_metadata where
    ev: "filter metadata_event tr = [EvGetColumnFamilyMetaData handle db_metadata]" and
    md: "md = fill_metadata (comparator_name handle) export_dir db_metadata metadata"
    by blast
  have "length (concat (map (\<lambda>lm. map (f lm) (files lm)) ls)) = (\<Sum>lm\<leftarrow>ls. length (files lm))"
    for f :: "LevelMetaData \<Rightarrow> SstFileMetaData \<Rightarrow> LiveFileMetaData" and ls
    by (induction ls) auto
  with ev md show ?thesis
    by (auto simp: fill_metadata_def live_file_metadata_of_def[abs_def])
qed

theorem export_metadata_written_only_with_a_level_witness:
  "ok (fst (fst (ExportColumnFamily (logged mem_env) mem_handle ''/exp'' None
                   ([''/db''], [])))) \<and>
   snd (fst (ExportColumnFamily (logged mem_env) mem_handle ''/exp'' None ([''/db''], []))) =
     Some \<lparr>db_comparator_name = ''leveldb.BytewiseComparator'',
           ei_files =
             [live_file_metadata_of ''/exp'' 0 (mem_sst ''/000010.sst'' 10 1000),
              live_file_metadata_of ''/exp'' 0 (mem_sst ''/000011.sst'' 11 2000)]\<rparr> \<and>
   ok (fst (fst (ExportColumnFamily (logged mem_env_no_levels) mem_handle ''/exp'' None
                   ([''/db''], [])))) \<and>
   snd (fst (ExportColumnFamily (logged mem_env_no_levels) mem_handle ''/exp'' None
               ([''/db''], []))) = None"
proof -
  let ?R1 = "ExportColumnFamily (logged mem_env) mem_handle ''/exp'' None ([''/db''], [])"
  let ?R0 = "ExportColumnFamily (logged mem_env_no_levels) mem_handle ''/exp'' None
               ([''/db''], [])"
  have r1: "?R1 = ((fst (fst ?R1), snd (fst ?R1)), (fst (snd ?R1), snd (snd ?R1)))"
    by simp
  have r0: "?R0 = ((fst (fst ?R0), snd (fst ?R0)), (fst (snd ?R0), snd (snd ?R0)))"
    by simp
  have ok1: "ok (fst (fst ?R1))" by code_simp
  have ok0: "ok (fst (fst ?R0))" by code_simp
  have v1: "snd (fst ?R1) =
     Some \<lparr>db_comparator_name = ''leveldb.BytewiseComparator'',
           ei_files =
             [live_file_metadata_of ''/exp'' 0 (mem_sst ''/000010.sst'' 10 1000),
              live_file_metadata_of ''/exp'' 0 (mem_sst ''/000011.sst'' 11 2000)]\<rparr>"
    by code_simp
  have v0: "snd (fst ?R0) = None" by code_simp
  from export_metadata_written_only_with_a_level[OF r1 ok1]
       export_metadata_written_only_with_a_level[OF r0 ok0] ok1 ok0 v1 v0
  show ?thesis by simp
qed

section \<open>The flush decision\<close>

lemma flush_requests_append [simp]:
  "flush_requests (a @ b) = flush_requests a @ flush_requests b"
  by (induction a rule: flush_requests.induct) auto

lemma flush_requests_none:
  "list_all (\<lambda>e. \<not> live_files_event e) evs \<Longrightarrow> flush_requests evs = []"
  by (induction evs rule: flush_requests.induct) auto

lemma total_wal_size:
  "foldl (\<lambda>total wal. total + SizeFileBytes wal) a wals = a + sum_list (map SizeFileBytes wals)"
  by (induction wals arbitrary: a) (auto simp: add.assoc)

lemma transfer_flush_requests:
  assumes "transfer_live_files (logged env) opts (log_link_cb l) (log_copy_cb c)
             (log_create_cb k) glc fl mn lf ms wals (w, tr) = (r, (w', tr'))"
  shows "\<exists>evs. tr' = tr @ evs \<and> flush_requests evs = []"
proof -
  have "appends (\<lambda>e. \<not> live_files_event e) tr tr'"
    by (rule transfer_live_files_appends[OF _ _ _ _ assms])
       (auto intro!: log_cbs_appends)
  then show ?thesis
    by (auto simp: appends_def flush_requests_none)
qed

lemma flush_requests_no_threshold:
  assumes "CreateCustomCheckpoint (logged env) db_options (log_link_cb l) (log_copy_cb c)
             (log_create_cb k) log_size_for_flush glc (w, []) = ((s, sequence_number), (w', tr))"
    and "allow_2pc db_options \<or> log_size_for_flush = kMaxUint64 \<or> log_size_for_flush = 0"
  shows "set (flush_requests tr) =
           {allow_2pc db_options \<or> log_size_for_flush \<noteq> kMaxUint64}"
  using assms unfolding CreateCustomCheckpoint_def flush_decision_def
  by (auto simp: Let_def kMaxUint64_def
      split: if_splits prod.splits option.splits
      dest!: transfer_flush_requests)

lemma flush_requests_threshold:
  assumes run: "CreateCustomCheckpoint (logged env) db_options (log_link_cb l) (log_copy_cb c)
             (log_create_cb k) log_size_for_flush glc (w, []) = ((s, sequence_number), (w', tr))"
    and t: "\<not> allow_2pc db_options" "0 < log_size_for_flush" "log_size_for_flush \<noteq> kMaxUint64"
  shows "\<exists>s0 live_wal_files rest.
               tr = EvGetSortedWalFiles s0 live_wal_files # rest \<and>
               (if ok s0
                then set (flush_requests rest) =
                       {\<not> sum_list (map SizeFileBytes live_wal_files) < log_size_for_flush}
                else rest = [] \<and> s = s0)"
proof -
  obtain s0 wals w1 where g: "GetSortedWalFiles env w = ((s0, wals), w1)"
    by (metis surj_pair)
  show ?thesis
  proof (cases "ok s0")
    case False
    with run g t have "tr = [EvGetSortedWalFiles s0 wals] \<and> s = s0"
      unfolding CreateCustomCheckpoint_def flush_decision_def
      by (auto simp: Let_def)
    with False show ?thesis by auto
  next
    case True
    with run g t have "\<exists>rest. tr = EvGetSortedWalFiles s0 wals # rest \<and>
        set (flush_requests rest) = {\<not> sum_list (map SizeFileBytes wals) < log_size_for_flush}"
      unfolding CreateCustomCheckpoint_def flush_decision_def
      by (auto simp: Let_def total_wal_size
          split: if_splits prod.splits option.splits
          dest!: transfer_flush_requests)
    with True show ?thesis by auto
  qed
qed

text \<open>
  C4. The flush decision of a checkpoint, read from the \<^verbatim>\<open>flush_memtable\<close> argument of
  every \<^verbatim>\<open>GetLiveFiles\<close> call of the run. With two-phase commit every call asks for a
  flush. Without it: a threshold of \<^verbatim>\<open>kMaxUint64\<close> (no threshold) asks for none; a
  positive threshold lists the WAL files first and asks for a flush exactly when the sum
  of their sizes, added up in \<^verbatim>\<open>uint64_t\<close> as the code does, is not below the
  threshold (and the run returns the error of the listing, if it fails, before any
  enumeration); a threshold of 0 always asks for a flush.
\<close>

theorem flush_decision_of_checkpoint:
  assumes "CreateCustomCheckpoint (logged env) db_options (log_link_cb l) (log_copy_cb c)
             (log_create_cb k) log_size_for_flush glc (w, []) = ((s, sequence_number), (w', tr))"
  shows "(allow_2pc db_options \<longrightarrow> set (flush_requests tr) = {True}) \<and>
         (\<not> allow_2pc db_options \<and> log_size_for_flush = kMaxUint64 \<longrightarrow>
            set (flush_requests tr) = {False}) \<and>
         (\<not> allow_2pc db_options \<and> log_size_for_flush = 0 \<longrightarrow>
            set (flush_requests tr) = {True}) \<and>
         (\<not> allow_2pc db_options \<and> 0 < log_size_for_flush \<and>
          log_size_for_flush \<noteq> kMaxUint64 \<longrightarrow>
            (\<exists>s0 live_wal_files rest.
               tr = EvGetSortedWalFiles s0 live_wal_files # rest \<and>
               (if ok s0
                then set (flush_requests rest) =
                       {\<not> sum_list (map SizeFileBytes live_wal_files) < log_size_for_flush}
                else rest = [] \<and> s = s0)))"
  using flush_requests_no_threshold[OF assms] flush_requests_threshold[OF assms]
  by (auto simp: kMaxUint64_def)


lemma total_wal_size_no_overflow:
  fixes live_wal_files :: "LogFile list" and log_size_for_flush :: uint64
  assumes "(\<Sum>wal\<leftarrow>live_wal_files. unat (SizeFileBytes wal)) < 2 ^ 64"
  shows "sum_list (map SizeFileBytes live_wal_files) < log_size_for_flush \<longleftrightarrow>
         (\<Sum>wal\<leftarrow>live_wal_files. unat (SizeFileBytes wal)) < unat log_size_for_flush"
proof -
  have "(\<Sum>wal\<leftarrow>ws. unat (SizeFileBytes wal)) < 2 ^ 64 \<Longrightarrow>
        unat (sum_list (map SizeFileBytes ws)) = (\<Sum>wal\<leftarrow>ws. unat (SizeFileBytes wal))"
    for ws :: "LogFile list"
  proof (induction ws)
    case Nil
    then show ?case by simp
  next
    case (Cons a ws)
    then have "unat (sum_list (map SizeFileBytes ws)) = (\<Sum>wal\<leftarrow>ws. unat (SizeFileBytes wal))"
      by simp
    with Cons.prems show ?case
      by (simp add: unat_word_ariths)
  qed
  with assms show ?thesis by (simp add: word_less_nat_alt)
qed

theorem flush_decision_of_checkpoint_witness:
  "flush_requests (snd (snd (mem_checkpoint_run 1000))) = [False, False] \<and>
   flush_requests (snd (snd (mem_checkpoint_run 345))) = [True, True] \<and>
   flush_requests (snd (snd (mem_checkpoint_run kMaxUint64))) = [False, False] \<and>
   flush_requests (snd (snd (mem_checkpoint_run 0))) = [True, True]"
proof -
  have c: "mem_checkpoint_run t =
             ((fst (fst (mem_checkpoint_run t)), snd (fst (mem_checkpoint_run t))),
              (fst (snd (mem_checkpoint_run t)), snd (snd (mem_checkpoint_run t))))" for t
    by simp
  have v: "flush_requests (snd (snd (mem_checkpoint_run 1000))) = [False, False]"
    "flush_requests (snd (snd (mem_checkpoint_run 345))) = [True, True]"
    "flush_requests (snd (snd (mem_checkpoint_run kMaxUint64))) = [False, False]"
    "flush_requests (snd (snd (mem_checkpoint_run 0))) = [True, True]"
    by code_simp+
  from v flush_decision_of_checkpoint[OF c[of 1000, unfolded mem_checkpoint_run_def]]
       flush_decision_of_checkpoint[OF c[of 0, unfolded mem_checkpoint_run_def]]
  show ?thesis by simp
qed

section \<open>Link, then copy: the fallback of a checkpoint\<close>

lemma flag_after_False [simp]: "flag_after False es = False"
  by (induction es) auto




lemma flag_after_append [simp]: "flag_after sf (a @ b) = flag_after (flag_after sf a) b"
  by (induction a arbitrary: sf) auto


lemma follows_refl [simp]: "follows a a t t"
  by (simp add: follows_def)

lemma log_cb_pair [simp]:
  "log_link_cb l a b ty (w, tr) =
     (case l a b ty w of (s, w1) \<Rightarrow> (s, (w1, tr @ [EvLinkCb a b ty s])))"
  "log_copy_cb c a b n ty cn cv (w, tr) =
     (case c a b n ty cn cv w of (s, w1) \<Rightarrow> (s, (w1, tr @ [EvCopyCb a b n ty cn cv s])))"
  "log_create_cb k a b ty (w, tr) =
     (case k a b ty w of (s, w1) \<Rightarrow> (s, (w1, tr @ [EvCreateCb a b ty s])))"
  "log_export_link_cb el a b (w, tr) =
     (case el a b w of (s, w1) \<Rightarrow> (s, (w1, tr @ [EvExportLinkCb a b s])))"
  "log_export_copy_cb ec a b (w, tr) =
     (case ec a b w of (s, w1) \<Rightarrow> (s, (w1, tr @ [EvExportCopyCb a b s])))"
  by (simp_all add: log_link_cb_def log_copy_cb_def log_create_cb_def log_export_link_cb_def
      log_export_copy_cb_def)









lemma CreateCustomCheckpoint_cases:
  assumes run: "CreateCustomCheckpoint (logged env) opts link copy create t glc (w, tr0) =
                  ((s, sq), (w', tr))"
  shows "(\<exists>pre. tr = tr0 @ pre \<and> list_all enumeration_event pre \<and> pre \<noteq> [] \<and> \<not> ok s \<and>
            (s = InvalidArgument ''cannot get the min log number to keep.'' \<or>
             ev_status (last pre) = s)) \<or>
         (\<exists>pre flush s1 lf1 ms1 lf ms wals mn w5.
            list_all enumeration_event pre \<and>
            min_log_num_seen (logged env) opts t (w, tr0) = Some mn \<and>
            transfer_live_files (logged env) opts link copy create glc flush mn lf ms wals
              (w5, tr0 @ pre @
                 [EvGetLiveFiles flush s1 lf1 ms1, EvGetLiveFiles flush OK lf ms,
                  EvFlushWAL False OK, EvGetSortedWalFiles OK wals]) = (s, (w', tr)))"
proof -
  obtain fd w1 tr1 where fd: "flush_decision (logged env) opts t (w, tr0) = (fd, (w1, tr1))"
    by (metis surj_pair)
  then have "\<exists>pre1. tr1 = tr0 @ pre1 \<and> list_all enumeration_event pre1 \<and>
               (case fd of
                  Inl s0 \<Rightarrow> pre1 \<noteq> [] \<and> ev_status (last pre1) = s0 \<and> \<not> ok s0
                | Inr b \<Rightarrow> True)"
    unfolding flush_decision_def
    by (auto simp: Let_def split: if_splits prod.splits)
  then obtain pre1 where p1: "tr1 = tr0 @ pre1" "list_all enumeration_event pre1"
      "case fd of Inl s0 \<Rightarrow> pre1 \<noteq> [] \<and> ev_status (last pre1) = s0 \<and> \<not> ok s0 | Inr b \<Rightarrow> True"
    by blast
  show ?thesis
  proof (cases fd)
    case (Inl s0)
    with run fd p1 show ?thesis
      unfolding CreateCustomCheckpoint_def by (auto simp: Let_def)
  next
    case (Inr b)
    with run fd p1(1,2) show ?thesis
      unfolding CreateCustomCheckpoint_def min_log_num_seen_def
      by (auto simp: Let_def ok_def split: if_splits prod.splits option.splits)
  qed
qed



lemma tracks_refl [simp]: "tracks s s tr tr"
  by (simp add: tracks_def)





lemma ends_with_snoc [simp]: "ends_with s tr (tr @ [e]) = (ev_status e = s)"
  by (auto simp: ends_with_def)


lemma cb_tracks_log [simp]:
  "cb_tracks (log_link_cb l a b ty)"
  "cb_tracks (log_copy_cb c a b n ty cn cv)"
  "cb_tracks (log_create_cb k a b ty)"
  "cb_tracks (log_export_link_cb el a b)"
  "cb_tracks (log_export_copy_cb ec a b)"
  by (auto simp: cb_tracks_def split: prod.splits)

lemma cb_tracks_checkpoint [simp]:
  "cb_tracks (checkpoint_link_file_cb (logged env) nw fp a b ty)"
  "cb_tracks (checkpoint_copy_file_cb (logged env) opts nw fp vl vw a b n ty cn cv)"
  "cb_tracks (checkpoint_create_file_cb (logged env) opts fp a b ty)"
  by (auto simp: cb_tracks_def checkpoint_link_file_cb_def checkpoint_copy_file_cb_def
      checkpoint_create_file_cb_def CopyOptionsFile_def ends_with_def
      split: prod.splits if_splits)










section \<open>The WAL file that is copied with its size\<close>

lemma spec_transfer_earlier_not_ok [simp]:
  "\<not> ok s \<Longrightarrow> spec_transfer_earlier l c d wals s sf w = ((s, sf), w)"
  by (cases wals) auto

lemma wal_files_loop_none_wanted:
  "filter (wal_wanted fl mn) wals = [] \<Longrightarrow> wal_files_loop l c d fl mn wals s sf w = ((s, sf), w)"
  by (induction wals) (auto split: if_splits)

lemma wal_files_loop_last_wanted:
  "wals \<noteq> [] \<Longrightarrow> wal_wanted fl mn (last wals) \<Longrightarrow>
   wal_files_loop l c d fl mn wals s sf w =
     (case spec_transfer_earlier l c d (filter (wal_wanted fl mn) (butlast wals)) s sf w of
        ((s1, sf1), w1) \<Rightarrow>
          if \<not> ok s1 then ((s1, sf1), w1)
          else
            (case c d (PathName (last wals)) (SizeFileBytes (last wals)) kWalFile
                    kUnknownFileChecksumFuncName kUnknownFileChecksum w1 of
               (s2, w2) \<Rightarrow> ((s2, sf1), w2)))"
proof (induction wals arbitrary: s sf w)
  case Nil
  then show ?case by simp
next
  case (Cons a wals)
  show ?case
  proof (cases "wals = []")
    case True
    with Cons.prems show ?thesis by (auto split: prod.splits)
  next
    case False
    with Cons.prems have lw: "wal_wanted fl mn (last wals)" by simp
    show ?thesis
    proof (cases "ok s")
      case n: False
      with False show ?thesis by simp
    next
      case y: True
      with False Cons.IH[OF False lw] show ?thesis
        by (auto split: prod.splits)
    qed
  qed
qed

lemma ordered_wanted_last:
  assumes "wal_list_ordered wals" "wal \<in> set wals" "wal_wanted fl mn wal"
  shows "wal_wanted fl mn (last wals)"
proof -
  from assms(2) have ne: "wals \<noteq> []" by auto
  show ?thesis
  proof (cases "wal = last wals")
    case True
    with assms(3) show ?thesis by simp
  next
    case False
    with assms(2) ne have "wal \<in> set (butlast wals)"
      by (metis append_butlast_last_id in_set_conv_decomp set_ConsD rotate1.simps(2) set_rotate1)
    moreover from ne have "wals = butlast wals @ [last wals]" by simp
    ultimately have "LogNumber wal \<le> LogNumber (last wals) \<and>
        (Type wal = kAliveLogFile \<longrightarrow> Type (last wals) = kAliveLogFile)"
      using assms(1) unfolding wal_list_ordered_def
      by (metis (mono_tags, lifting) sorted_wrt_append list.set_intros(1))
    with assms(3) show ?thesis
      by (auto simp: wal_wanted_def)
  qed
qed

text \<open>
  On a WAL list in the order of the engine, where no log that is skipped follows a log
  that takes part, the pass is the pass of the specification over the filtered
  descriptors.
\<close>

lemma wal_files_loop_refines:
  assumes "wal_list_ordered wals"
  shows "wal_files_loop l c d fl mn wals s sf w =
           spec_wal_pass l c d (filter (wal_wanted fl mn) wals) s sf w"
proof (cases "filter (wal_wanted fl mn) wals = []")
  case True
  then show ?thesis
    by (simp add: wal_files_loop_none_wanted spec_wal_pass_def)
next
  case False
  then obtain wal where "wal \<in> set wals" "wal_wanted fl mn wal"
    by (auto simp: filter_empty_conv)
  with assms have lw: "wal_wanted fl mn (last wals)" and ne: "wals \<noteq> []"
    by (auto intro: ordered_wanted_last)
  from ne have "wals = butlast wals @ [last wals]" by simp
  then have eq: "filter (wal_wanted fl mn) wals =
               filter (wal_wanted fl mn) (butlast wals) @ [last wals]"
    using lw by (metis filter.simps(1,2) filter_append)
  show ?thesis
    unfolding spec_wal_pass_def eq wal_files_loop_last_wanted[OF ne lw, of l c d s sf w]
    by (auto split: prod.splits)
qed

lemma spec_transfer_earlier_extends:
  "spec_transfer_earlier (log_link_cb l) (log_copy_cb c) d ws s sf (w, tr) =
     ((s1, sf1), (w1, tr1)) \<Longrightarrow> \<exists>evs. tr1 = tr @ evs"
proof (induction ws arbitrary: s sf w tr)
  case Nil
  then show ?case by simp
next
  case (Cons a ws)
  have step: "appends (\<lambda>e. True) t1 t2"
    if "wal_file_step (log_link_cb l) (log_copy_cb c) d a s sf (w, t1) = (r, (w2, t2))"
    for t1 t2 r w w2
    by (rule wal_file_step_appends[OF _ _ that]) (auto intro!: log_cbs_appends)
  from Cons.prems show ?case
    by (auto simp: appends_def split: if_splits prod.splits dest!: Cons.IH step)
qed

lemma spec_wal_pass_ends_with_copy:
  assumes "spec_wal_pass (log_link_cb l) (log_copy_cb c) d filtered s sf (w, tr) =
             ((s', sf'), (w', tr'))"
    and "filtered \<noteq> []" "ok s'"
  shows "\<exists>evs. tr' = tr @ evs @
           [EvCopyCb d (PathName (last filtered)) (SizeFileBytes (last filtered)) kWalFile
              kUnknownFileChecksumFuncName kUnknownFileChecksum OK]"
proof -
  obtain s1 sf1 w1 tr1 where
    e: "spec_transfer_earlier (log_link_cb l) (log_copy_cb c) d (butlast filtered) s sf (w, tr) =
          ((s1, sf1), (w1, tr1))"
    by (metis surj_pair)
  have "\<exists>evs. tr1 = tr @ evs"
    by (rule spec_transfer_earlier_extends[OF e])
  with assms e show ?thesis
    by (auto simp: spec_wal_pass_def ok_def split: if_splits prod.splits)
qed

lemma wal_files_loop_last_skipped:
  "wals \<noteq> [] \<Longrightarrow> \<not> wal_wanted fl mn (last wals) \<Longrightarrow>
   wal_files_loop l c d fl mn wals s sf w =
     spec_transfer_earlier l c d (filter (wal_wanted fl mn) wals) s sf w"
proof (induction wals arbitrary: s sf w)
  case Nil
  then show ?case by simp
next
  case (Cons a wals)
  show ?case
  proof (cases "wals = []")
    case True
    with Cons.prems show ?thesis by simp
  next
    case False
    with Cons.prems have lw: "\<not> wal_wanted fl mn (last wals)" by simp
    show ?thesis
    proof (cases "ok s")
      case n: False
      then show ?thesis by simp
    next
      case y: True
      with False Cons.IH[OF False lw] show ?thesis
        by (auto split: prod.splits)
    qed
  qed
qed


section \<open>The manifest size limit and the current file\<close>

lemma file_type_logged [simp]: "file_type (logged env) = file_type env"
  by (auto simp: file_type_def fun_eq_iff)

lemma last_of_type_logged [simp]: "last_of_type (logged env) ty fs d = last_of_type env ty fs d"
  by (induction fs arbitrary: d) auto

lemma copied_live_file_logged [simp]: "copied_live_file (logged env) = copied_live_file env"
  by (auto simp: copied_live_file_def fun_eq_iff)

lemma live_files_loop_limits:
  "live_files_loop env (log_copy_cb c) ms fs s m cur tb (w, tr) = (r, (w', tr')) \<Longrightarrow>
     appends (loop_event ms) tr tr'"
proof (induction fs arbitrary: s m cur tb w tr)
  case Nil
  then show ?case by simp
next
  case (Cons f fs)
  from Cons.prems show ?case
    by (auto simp: appends_def split: if_splits option.splits prod.splits dest!: Cons.IH)
qed

lemma live_files_loop_tables:
  "live_files_loop env copy ms fs s m cur tb w = ((s1, m1, cur1, tb1), w1) \<Longrightarrow>
     \<exists>xs. tb1 = tb @ xs \<and> list_all table_or_blob xs"
proof (induction fs arbitrary: s m cur tb w)
  case Nil
  then show ?case by simp
next
  case (Cons f fs)
  from Cons.prems show ?case
    by (auto split: if_splits option.splits prod.splits dest!: Cons.IH)
qed

text \<open>What the loop over the live files has done when it ends with an OK status.\<close>

lemma live_files_loop_ok:
  "live_files_loop env (log_copy_cb c) ms fs s m cur tb (w, tr) =
     ((s1, m1, cur1, tb1), (w1, tr1)) \<Longrightarrow> ok s1 \<Longrightarrow>
   ok s \<and> m1 = last_of_type env kDescriptorFile fs m \<and>
   cur1 = last_of_type env kCurrentFile fs cur \<and>
   tr1 = tr @ map (\<lambda>f. EvCopyCb (GetName env) f
                        (if file_type env f = Some kDescriptorFile then ms else 0)
                        (the (file_type env f)) kUnknownFileChecksumFuncName
                        kUnknownFileChecksum OK)
              (filter (copied_live_file env) fs)"
proof (induction fs arbitrary: s m cur tb w tr)
  case Nil
  then show ?case by simp
next
  case (Cons f fs)
  show ?case
  proof (cases "ok s")
    case False
    with Cons.prems show ?thesis by simp
  next
    case True
    show ?thesis
    proof (cases "ParseFileName env f")
      case None
      with True Cons.prems show ?thesis by (simp add: ok_def)
    next
      case (Some nt)
      obtain number ftype where nt: "nt = (number, ftype)" by (cases nt)
      from Some nt have ft: "file_type env f = Some ftype"
        by (simp add: file_type_def)
      show ?thesis
      proof (cases "ftype = kCurrentFile")
        case c: True
        with True Some nt Cons.prems(1) have
          "live_files_loop env (log_copy_cb c) ms fs s m f tb (w, tr) =
             ((s1, m1, cur1, tb1), (w1, tr1))" by simp
        from Cons.IH[OF this Cons.prems(2)] c ft True show ?thesis
          by (simp add: copied_live_file_def)
      next
        case nc: False
        show ?thesis
        proof (cases "ftype \<noteq> kTableFile \<and> ftype \<noteq> kBlobFile")
          case False
          with nc True Some nt Cons.prems(1) have
            "live_files_loop env (log_copy_cb c) ms fs s
               (if ftype = kDescriptorFile then f else m) cur (tb @ [(f, number, ftype)]) (w, tr) =
             ((s1, m1, cur1, tb1), (w1, tr1))" by auto
          from Cons.IH[OF this Cons.prems(2)] False nc ft True show ?thesis
            by (auto simp: copied_live_file_def)
        next
          case t: True
          obtain s2 w2 where
            cp: "c (GetName env) f (if ftype = kDescriptorFile then ms else 0) ftype
                   kUnknownFileChecksumFuncName kUnknownFileChecksum w = (s2, w2)"
            by (metis surj_pair)
          with t nc True Some nt Cons.prems(1) have
            l: "live_files_loop env (log_copy_cb c) ms fs s2
               (if ftype = kDescriptorFile then f else m) cur tb
               (w2, tr @ [EvCopyCb (GetName env) f (if ftype = kDescriptorFile then ms else 0)
                            ftype kUnknownFileChecksumFuncName kUnknownFileChecksum s2]) =
             ((s1, m1, cur1, tb1), (w1, tr1))" by simp
          from Cons.IH[OF l Cons.prems(2)] t nc ft True show ?thesis
            by (auto simp: copied_live_file_def ok_def)
        qed
      qed
    qed
  qed
qed

lemma table_files_loop_not_ok [simp]:
  "\<not> ok s \<Longrightarrow> table_files_loop env l c glc cl fs s sf w = ((s, sf), w)"
  by (cases fs) auto

lemma wal_files_loop_not_ok [simp]:
  "\<not> ok s \<Longrightarrow> wal_files_loop l c d fl mn wals s sf w = ((s, sf), w)"
  by (cases wals) auto

lemma table_file_step_limits:
  "table_file_step env (log_link_cb l) (log_copy_cb c) glc cl f s sf (w, tr) = (r, (w', tr')) \<Longrightarrow>
     table_or_blob f \<Longrightarrow>
     appends (loop_event ms) tr tr'"
  by (cases f) (auto simp: table_file_step_def split: if_splits prod.splits)

lemma table_files_loop_limits:
  "table_files_loop env (log_link_cb l) (log_copy_cb c) glc cl fs s sf (w, tr) = (r, (w', tr')) \<Longrightarrow>
     list_all table_or_blob fs \<Longrightarrow>
     appends (loop_event ms) tr tr'"
proof (induction fs arbitrary: s sf w tr)
  case Nil
  then show ?case by simp
next
  case (Cons f fs)
  from Cons.prems(2) have ty: "table_or_blob f" and rest: "list_all table_or_blob fs"
    by auto
  from Cons.prems(1) show ?case
    by (auto split: if_splits prod.splits
        dest!: Cons.IH[OF _ rest] table_file_step_limits[OF _ ty, where ms=ms]
        intro: appends_trans)
qed

lemma wal_file_step_events:
  "wal_file_step (log_link_cb l) (log_copy_cb c) d wal s sf (w, tr) = (r, (w', tr')) \<Longrightarrow>
     appends wal_event tr tr'"
  by (auto simp: wal_file_step_def split: if_splits prod.splits)

lemma wal_files_loop_events:
  "wal_files_loop (log_link_cb l) (log_copy_cb c) d fl mn wals s sf (w, tr) = (r, (w', tr')) \<Longrightarrow>
     appends wal_event tr tr'"
proof (induction wals arbitrary: s sf w tr)
  case Nil
  then show ?case by simp
next
  case (Cons f fs)
  from Cons.prems show ?case
    by (auto split: if_splits prod.splits
        dest!: Cons.IH wal_file_step_events intro: appends_trans)
qed

lemma transfer_live_files_current:
  assumes run: "transfer_live_files (logged env) opts (log_link_cb l) (log_copy_cb c)
             (log_create_cb k) glc fl mn lf ms wals (w, tr) = (s, (w', tr'))"
  shows "\<exists>before cr after.
           tr' = tr @ before @ cr @ after \<and>
           list_all (loop_event ms) before \<and> list_all wal_event after \<and>
           (cr = [] \<or>
            (\<exists>st. cr = [EvCreateCb (last_of_type env kCurrentFile lf [])
                          (drop 1 (last_of_type env kDescriptorFile lf []) @ [CHR 0x0A])
                          kCurrentFile st] \<and>
                  last_of_type env kCurrentFile lf [] \<noteq> [] \<and>
                  last_of_type env kDescriptorFile lf [] \<noteq> [])) \<and>
           (ok s \<longrightarrow>
              (cr \<noteq> [] \<longleftrightarrow>
                 last_of_type env kCurrentFile lf [] \<noteq> [] \<and>
                 last_of_type env kDescriptorFile lf [] \<noteq> []) \<and>
              (\<exists>rest. before =
                 map (live_file_copy env ms) (filter (copied_live_file env) lf) @ rest))"
proof -
  let ?P = "loop_event ms"
  let ?cur = "last_of_type env kCurrentFile lf []"
  let ?man = "last_of_type env kDescriptorFile lf []"
  obtain s1 mf cf tbs w1 tr1 where
    p1: "live_files_loop (logged env) (log_copy_cb c) ms lf OK [] [] [] (w, tr) =
           ((s1, mf, cf, tbs), (w1, tr1))"
    by (metis surj_pair)
  obtain s2 cl w2 tr2 where
    p2: "(if ok s1 \<and> glc
          then GetFileChecksumsFromManifest (logged env) (GetName (logged env) @ mf) ms (w1, tr1)
          else ((s1, []), (w1, tr1))) = ((s2, cl), (w2, tr2))"
    by (metis surj_pair)
  obtain s3 sf3 w3 tr3 where
    p3: "table_files_loop (logged env) (log_link_cb l) (log_copy_cb c) glc cl tbs s2 True
           (w2, tr2) = ((s3, sf3), (w3, tr3))"
    by (metis surj_pair)
  obtain s4 w4 tr4 where
    p4: "(if ok s3 \<and> cf \<noteq> [] \<and> mf \<noteq> []
          then log_create_cb k cf (drop 1 mf @ [CHR 0x0A]) kCurrentFile (w3, tr3)
          else (s3, (w3, tr3))) = (s4, (w4, tr4))"
    by (metis surj_pair)
  obtain s5 sf5 w5 tr5 where
    p5: "wal_files_loop (log_link_cb l) (log_copy_cb c) (GetWalDir (logged env) opts) fl mn wals
           s4 sf3 (w4, tr4) = ((s5, sf5), (w5, tr5))"
    by (metis surj_pair)
  from run p1 p2 p3 p4 p5 have e: "tr' = tr5" "s = s5"
    unfolding transfer_live_files_def by simp_all
  from live_files_loop_limits[OF p1] obtain e1 where
    e1: "tr1 = tr @ e1" "list_all ?P e1" by (auto simp: appends_def)
  from p2 obtain e2 where e2: "tr2 = tr1 @ e2" "list_all ?P e2"
    by (auto split: if_splits prod.splits)
  from live_files_loop_tables[OF p1] have "list_all table_or_blob tbs" by simp
  from table_files_loop_limits[OF p3 this] obtain e3 where
    e3: "tr3 = tr2 @ e3" "list_all ?P e3" by (auto simp: appends_def)
  from p4 obtain e4 where e4: "tr4 = tr3 @ e4"
    "e4 = [] \<or> (\<exists>st. e4 = [EvCreateCb cf (drop 1 mf @ [CHR 0x0A]) kCurrentFile st] \<and>
                  ok s3 \<and> cf \<noteq> [] \<and> mf \<noteq> [])"
    "ok s3 \<and> cf \<noteq> [] \<and> mf \<noteq> [] \<longrightarrow> e4 \<noteq> []"
    by (auto split: if_splits prod.splits)
  from wal_files_loop_events[OF p5] obtain e5 where
    e5: "tr5 = tr4 @ e5" "list_all wal_event e5" by (auto simp: appends_def)
  have ok31: "ok s1" if "ok s3"
  proof (rule ccontr)
    assume n: "\<not> ok s1"
    with p2 have "s2 = s1" by simp
    with n p3 have "s3 = s1" by simp
    with n that show False by simp
  qed
  have ok53: "ok s3" if "ok s5"
  proof (rule ccontr)
    assume n: "\<not> ok s3"
    with p4 have "s4 = s3" by simp
    with n p5 have "s5 = s3" by simp
    with n that show False by simp
  qed
  have names: "mf = ?man \<and> cf = ?cur \<and>
               e1 = map (live_file_copy env ms) (filter (copied_live_file env) lf)" if "ok s3"
    using live_files_loop_ok[OF p1 ok31[OF that]] e1(1)
    by (simp add: live_file_copy_def)
  have all: "tr' = tr @ (e1 @ e2 @ e3) @ e4 @ e5"
    using e e1 e2 e3 e4 e5 by simp
  have b: "list_all ?P (e1 @ e2 @ e3)"
    using e1 e2 e3 by simp
  have c1: "e4 = [] \<or>
            (\<exists>st. e4 = [EvCreateCb ?cur (drop 1 ?man @ [CHR 0x0A]) kCurrentFile st] \<and>
                  ?cur \<noteq> [] \<and> ?man \<noteq> [])"
    using e4(2) names by auto
  have c2: "(e4 \<noteq> [] \<longleftrightarrow> ?cur \<noteq> [] \<and> ?man \<noteq> []) \<and>
            (\<exists>rest. e1 @ e2 @ e3 =
               map (live_file_copy env ms) (filter (copied_live_file env) lf) @ rest)" if "ok s"
  proof -
    from that e have o3: "ok s3" by (auto intro: ok53)
    show ?thesis
      using e4(2,3) names[OF o3] o3 by auto
  qed
  from all b e5(2) c1 c2 show ?thesis by blast
qed

text \<open>
  Claim C8. A run of \<^verbatim>\<open>CreateCustomCheckpoint\<close> that gets past the enumeration of the
  live files and of the WAL files continues its trace, after the second
  \<^verbatim>\<open>GetLiveFiles\<close>, whose manifest size is \<open>ms\<close>, with three parts. The first holds the
  passes over the live files and the table and blob files: each copy there has the size
  limit \<open>ms\<close> if the file is the manifest (descriptor) file and no limit (0) otherwise. The
  second is empty or the single creation of the current file, whose name is the current
  file seen among the live files and whose content is the name of the manifest file without
  its leading slash, followed by a newline; it is there only if both names were seen. The
  third holds the links and copies of WAL files. If the run returns OK, the current file is
  created if and only if both names were seen, and the first part starts with the copy of
  each live file that is neither a table, a blob nor the current file.
\<close>

theorem manifest_size_limit_and_current_file:
  assumes run: "CreateCustomCheckpoint (logged env) opts (log_link_cb l) (log_copy_cb c)
                  (log_create_cb k) t glc (w, tr0) = ((s, sq), (w', tr))"
  shows "(\<not> ok s \<and> (\<exists>pre. tr = tr0 @ pre \<and> list_all enumeration_event pre)) \<or>
         (\<exists>pre fl s1 lf1 ms1 lf ms wals before cr after.
            tr = tr0 @ pre @
                   [EvGetLiveFiles fl s1 lf1 ms1, EvGetLiveFiles fl OK lf ms,
                    EvFlushWAL False OK, EvGetSortedWalFiles OK wals] @
                   before @ cr @ after \<and>
            list_all enumeration_event pre \<and>
            list_all (loop_event ms) before \<and> list_all wal_event after \<and>
            (cr = [] \<or>
             (\<exists>st. cr = [EvCreateCb (last_of_type env kCurrentFile lf [])
                           (drop 1 (last_of_type env kDescriptorFile lf []) @ [CHR 0x0A])
                           kCurrentFile st] \<and>
                   last_of_type env kCurrentFile lf [] \<noteq> [] \<and>
                   last_of_type env kDescriptorFile lf [] \<noteq> [])) \<and>
            (ok s \<longrightarrow>
               (cr \<noteq> [] \<longleftrightarrow>
                  last_of_type env kCurrentFile lf [] \<noteq> [] \<and>
                  last_of_type env kDescriptorFile lf [] \<noteq> []) \<and>
               (\<exists>rest. before =
                  map (live_file_copy env ms) (filter (copied_live_file env) lf) @ rest)))"
proof -
  from CreateCustomCheckpoint_cases[OF run] show ?thesis
  proof (elim disjE exE conjE)
    fix pre
    assume "tr = tr0 @ pre" "list_all enumeration_event pre" "\<not> ok s"
    then show ?thesis by blast
  next
    fix pre
    assume "tr = tr0 @ pre" "list_all enumeration_event pre" "\<not> ok s"
    then show ?thesis by blast
  next
    fix pre fl s1 lf1 ms1 lf ms wals mn w5
    assume pre: "list_all enumeration_event pre"
      and tr: "transfer_live_files (logged env) opts (log_link_cb l) (log_copy_cb c)
                 (log_create_cb k) glc fl mn lf ms wals
                 (w5, tr0 @ pre @
                    [EvGetLiveFiles fl s1 lf1 ms1, EvGetLiveFiles fl OK lf ms,
                     EvFlushWAL False OK, EvGetSortedWalFiles OK wals]) = (s, (w', tr))"
    from transfer_live_files_current[OF tr] obtain before cr after where
      "tr = (tr0 @ pre @
              [EvGetLiveFiles fl s1 lf1 ms1, EvGetLiveFiles fl OK lf ms,
               EvFlushWAL False OK, EvGetSortedWalFiles OK wals]) @ before @ cr @ after"
      "list_all (loop_event ms) before" "list_all wal_event after"
      "cr = [] \<or>
       (\<exists>st. cr = [EvCreateCb (last_of_type env kCurrentFile lf [])
                     (drop 1 (last_of_type env kDescriptorFile lf []) @ [CHR 0x0A])
                     kCurrentFile st] \<and>
             last_of_type env kCurrentFile lf [] \<noteq> [] \<and>
             last_of_type env kDescriptorFile lf [] \<noteq> [])"
      "ok s \<longrightarrow>
         (cr \<noteq> [] \<longleftrightarrow>
            last_of_type env kCurrentFile lf [] \<noteq> [] \<and>
            last_of_type env kDescriptorFile lf [] \<noteq> []) \<and>
         (\<exists>rest. before =
            map (live_file_copy env ms) (filter (copied_live_file env) lf) @ rest)"
      by blast
    with pre show ?thesis
      by (intro disjI2 exI[of _ pre] exI[of _ fl] exI[of _ s1] exI[of _ lf1] exI[of _ ms1]
          exI[of _ lf] exI[of _ ms] exI[of _ wals] exI[of _ before] exI[of _ cr]
          exI[of _ after]) simp
  qed
qed

theorem manifest_size_limit_and_current_file_witness:
  "ok (fst (fst (mem_checkpoint_run 1000))) \<and>
   filter create_event (snd (snd (mem_checkpoint_run 1000))) =
     [EvCreateCb ''/CURRENT'' (''MANIFEST-000005'' @ [CHR 0x0A]) kCurrentFile OK] \<and>
   filter (\<lambda>e. \<not> loop_event 4096 e \<and> \<not> wal_event e \<and> \<not> create_event e)
     (snd (snd (mem_checkpoint_run 1000))) =
     [EvGetSortedWalFiles OK mem_wals,
      EvGetLiveFiles False OK mem_live_files 4096,
      EvGetLiveFiles False OK mem_live_files 4096,
      EvFlushWAL False OK,
      EvGetSortedWalFiles OK mem_wals] \<and>
   (\<exists>pre fl s1 lf1 ms1 lf ms wals before cr after.
      snd (snd (mem_checkpoint_run 1000)) =
        pre @ [EvGetLiveFiles fl s1 lf1 ms1, EvGetLiveFiles fl OK lf ms,
               EvFlushWAL False OK, EvGetSortedWalFiles OK wals] @ before @ cr @ after \<and>
      list_all enumeration_event pre \<and>
      list_all (loop_event ms) before \<and> list_all wal_event after \<and>
      (cr \<noteq> [] \<longleftrightarrow>
         last_of_type mem_env kCurrentFile lf [] \<noteq> [] \<and>
         last_of_type mem_env kDescriptorFile lf [] \<noteq> []) \<and>
      (\<exists>rest. before =
         map (live_file_copy mem_env ms) (filter (copied_live_file mem_env) lf) @ rest))"
proof -
  let ?run = "mem_checkpoint_run 1000"
  have r: "CreateCustomCheckpoint (logged mem_env) mem_options
       (log_link_cb (checkpoint_link_file_cb mem_env ''/snap.tmp'' ''/snap.tmp''))
       (log_copy_cb (checkpoint_copy_file_cb mem_env mem_options ''/snap.tmp'' ''/snap.tmp''
                       [] ''/snap''))
       (log_create_cb (checkpoint_create_file_cb mem_env mem_options ''/snap.tmp''))
       1000 False ([''/db'', ''/snap.tmp''], []) =
       ((fst (fst ?run), snd (fst ?run)), (fst (snd ?run), snd (snd ?run)))"
    by (simp only: mem_checkpoint_run_def[symmetric] prod.collapse)
  have o: "ok (fst (fst ?run))" by code_simp
  have c: "filter create_event (snd (snd ?run)) =
             [EvCreateCb ''/CURRENT'' (''MANIFEST-000005'' @ [CHR 0x0A]) kCurrentFile OK]"
    by code_simp
  have f: "filter (\<lambda>e. \<not> loop_event 4096 e \<and> \<not> wal_event e \<and> \<not> create_event e)
             (snd (snd ?run)) =
           [EvGetSortedWalFiles OK mem_wals,
            EvGetLiveFiles False OK mem_live_files 4096,
            EvGetLiveFiles False OK mem_live_files 4096,
            EvFlushWAL False OK,
            EvGetSortedWalFiles OK mem_wals]"
    by code_simp
  from manifest_size_limit_and_current_file[OF r] o have
    "\<exists>pre fl s1 lf1 ms1 lf ms wals before cr after.
      snd (snd ?run) =
        [] @ pre @ [EvGetLiveFiles fl s1 lf1 ms1, EvGetLiveFiles fl OK lf ms,
               EvFlushWAL False OK, EvGetSortedWalFiles OK wals] @ before @ cr @ after \<and>
      list_all enumeration_event pre \<and>
      list_all (loop_event ms) before \<and> list_all wal_event after \<and>
      (cr \<noteq> [] \<longleftrightarrow>
         last_of_type mem_env kCurrentFile lf [] \<noteq> [] \<and>
         last_of_type mem_env kDescriptorFile lf [] \<noteq> []) \<and>
      (\<exists>rest. before =
         map (live_file_copy mem_env ms) (filter (copied_live_file mem_env) lf) @ rest)"
    by blast
  with o c f show ?thesis
    by (simp only: append_Nil)
qed

section \<open>The directories of the log files and of the WAL files\<close>

lemma checkpoint_cb_wal [simp]:
  "checkpoint_link_file_cb (logged env) n fp d f kWalFile (w, tr) =
     (case LinkFile env (d @ f) (n @ f) w of
        (s, w1) \<Rightarrow> (s, (w1, tr @ [EvLinkFile (d @ f) (n @ f) s])))"
  "checkpoint_copy_file_cb (logged env) opts n fp vl vw d f sz kWalFile cn cv (w, tr) =
     (case CopyFile env (d @ f) (n @ f) sz (use_fsync opts) w of
        (s, w1) \<Rightarrow> (s, (w1, tr @ [EvCopyFile (d @ f) (n @ f) sz (use_fsync opts) s])))"
  by (simp_all add: checkpoint_link_file_cb_def checkpoint_copy_file_cb_def)

lemma resolve_wal_dir_values:
  assumes "resolve_wal_dir env (if wd = [] then [] else substr_to_last_nonslash wd) pc
             (pc @ ''.tmp'') s w = ((vw, n, s'), w')"
  shows "vw = recorded_wal_dir env pc wd" and "n = wal_files_dir env pc wd"
  using assms
  by (auto simp: resolve_wal_dir_def recorded_wal_dir_def wal_files_dir_def Let_def
      split: if_splits prod.splits)

lemma CreateCheckpoint_cases:
  assumes run: "CreateCheckpoint env glc dir t sp ld wd w = (r, w')"
  shows "(\<exists>s. FileExists env dir w = (s, w') \<and> \<not> IsNotFound s \<and>
              r = ((if ok s then InvalidArgument ''Directory exists'' else s), sp)) \<or>
         (\<exists>s. FileExists env dir w = (s, w') \<and> IsNotFound s \<and>
              find_last_not_of dir (CHR ''/'') = None \<and>
              r = (InvalidArgument ''invalid checkpoint directory name'', sp)) \<or>
         (\<exists>s w1 i s2 w3 s3 w4 s4 sq w5.
            FileExists env dir w = (s, w1) \<and> IsNotFound s \<and>
            find_last_not_of dir (CHR ''/'') = Some i \<and>
            CreateDir env (take (Suc i) dir @ ''.tmp'')
              (CleanStagingDirectory env (take (Suc i) dir @ ''.tmp'') w1) = (s2, w3) \<and>
            resolve_wal_dir env (if wd = [] then [] else substr_to_last_nonslash wd)
              (take (Suc i) dir) (take (Suc i) dir @ ''.tmp'') s2 w3 =
              ((recorded_wal_dir env (take (Suc i) dir) wd,
                wal_files_dir env (take (Suc i) dir) wd, s3), w4) \<and>
            transfer_deletions_disabled env (GetDBOptions env) glc t
              (wal_files_dir env (take (Suc i) dir) wd) (take (Suc i) dir @ ''.tmp'')
              (recorded_log_dir env (take (Suc i) dir) ld)
              (recorded_wal_dir env (take (Suc i) dir) wd) s3 w4 = ((s4, sq), w5) \<and>
            install_checkpoint env (take (Suc i) dir @ ''.tmp'') (take (Suc i) dir) sp sq s4 w5 =
              (r, w'))"
proof -
  obtain s w1 where fe: "FileExists env dir w = (s, w1)" by (metis surj_pair)
  show ?thesis
  proof (cases "IsNotFound s")
    case False
    with run fe show ?thesis
      unfolding CreateCheckpoint_def by (cases s) (auto simp: Let_def ok_def)
  next
    case nf: True
    then have nok: "\<not> ok s" by (cases s) (auto simp: ok_def)
    show ?thesis
    proof (cases "find_last_not_of dir (CHR ''/'')")
      case None
      with run fe nf nok show ?thesis
        unfolding CreateCheckpoint_def by (auto simp: Let_def)
    next
      case (Some i)
      let ?P = "take (Suc i) dir"
      let ?ST = "?P @ ''.tmp''"
      obtain s2 w3 where cd: "CreateDir env ?ST (CleanStagingDirectory env ?ST w1) = (s2, w3)"
        by (metis surj_pair)
      obtain vw n s3 w4 where
        rs: "resolve_wal_dir env (if wd = [] then [] else substr_to_last_nonslash wd) ?P ?ST
               s2 w3 = ((vw, n, s3), w4)"
        by (metis surj_pair)
      note v = resolve_wal_dir_values[OF rs]
      obtain s4 sq w5 where
        td: "transfer_deletions_disabled env (GetDBOptions env) glc t n ?ST
               (recorded_log_dir env ?P ld) vw s3 w4 = ((s4, sq), w5)"
        by (metis surj_pair)
      from run fe nf nok Some cd rs td have
        "install_checkpoint env ?ST ?P sp sq s4 w5 = (r, w')"
        unfolding CreateCheckpoint_def by (simp add: Let_def recorded_log_dir_def)
      with fe nf Some cd rs td v show ?thesis
        by (intro disjI2) blast
    qed
  qed
qed

lemma records_events:
  "\<forall>e. cleaning_event e \<longrightarrow> records vl vw e"
  "\<forall>e. enumeration_event e \<longrightarrow> records vl vw e"
  by (auto elim: cleaning_event.elims enumeration_event.elims)

lemma no_transfer_events:
  "\<forall>e. cleaning_event e \<longrightarrow> \<not> transfer_event e"
  "\<forall>e. enumeration_event e \<longrightarrow> \<not> transfer_event e"
  by (auto elim: cleaning_event.elims enumeration_event.elims)

lemma checkpoint_cbs_record:
  "cb_appends (records vl vw) (checkpoint_link_file_cb (logged env) n fp a b c)"
  "cb_appends (records vl vw)
     (checkpoint_copy_file_cb (logged env) opts n fp vl vw a b sz c cn cv)"
  "cb_appends (records vl vw) (checkpoint_create_file_cb (logged env) opts fp a b c)"
  by (auto simp: checkpoint_link_file_cb_def checkpoint_copy_file_cb_def
      checkpoint_create_file_cb_def CopyOptionsFile_def cb_appends_def
      split: prod.splits if_splits)

lemma CCC_checkpoint_records:
  "CreateCustomCheckpoint (logged env) opts
     (checkpoint_link_file_cb (logged env) n fp)
     (checkpoint_copy_file_cb (logged env) opts n fp vl vw)
     (checkpoint_create_file_cb (logged env) opts fp) t glc (w, tr) = (r, (w', tr')) \<Longrightarrow>
   appends (records vl vw) tr tr'"
  by (rule CreateCustomCheckpoint_appends[OF records_events(2) checkpoint_cbs_record])

lemma resolve_wal_dir_records:
  "resolve_wal_dir (logged env) pw pc fp s (w, tr) = (r, (w', tr')) \<Longrightarrow>
     appends (records vl vw) tr tr'"
  by (auto simp: resolve_wal_dir_def Let_def split: if_splits prod.splits)

lemma install_checkpoint_records:
  "install_checkpoint (logged env) fp pc sp sq s (w, tr) = (r, (w', tr')) \<Longrightarrow>
     appends (records vl vw) tr tr'"
  by (auto simp: install_checkpoint_def appends_def log_status_case log_result_case
      split: if_splits prod.splits
      dest!: CleanStagingDirectory_appends[where P="records vl vw", OF records_events(1)])

lemma install_checkpoint_no_transfer:
  "install_checkpoint (logged env) fp pc sp sq s (w, tr) = ((s', sp'), (w', tr')) \<Longrightarrow>
     appends (\<lambda>e. \<not> transfer_event e) tr tr' \<and> (ok s' \<longrightarrow> ok s)"
  by (auto simp: install_checkpoint_def appends_def log_status_case log_result_case
      split: if_splits prod.splits
      dest!: CleanStagingDirectory_appends[where P="\<lambda>e. \<not> transfer_event e",
                OF no_transfer_events(1)])

lemma transfer_deletions_disabled_records:
  "transfer_deletions_disabled (logged env) opts glc t n fp vl vw s (w, tr) = (r, (w', tr')) \<Longrightarrow>
     appends (records vl vw) tr tr'"
  by (auto simp: transfer_deletions_disabled_def Let_def appends_def
      split: if_splits prod.splits dest!: CCC_checkpoint_records[where vl=vl and vw=vw])

lemma live_files_loop_staged:
  assumes "live_files_loop (logged env) (checkpoint_copy_file_cb (logged env) opts n fp vl vw)
             ms fs s m cur tb (w, tr) = ((s', m', cur', tb'), (w', tr'))"
    and "set fs \<subseteq> set lf" and "list_all (table_entry env lf) tb"
  shows "appends (staged env lf n fp) tr tr' \<and> list_all (table_entry env lf) tb'"
  using assms
proof (induction fs arbitrary: s m cur tb w tr)
  case Nil
  then show ?case by simp
next
  case (Cons f fs)
  from Cons.prems(2) have f: "f \<in> set lf" and fs: "set fs \<subseteq> set lf" by auto
  show ?case
  proof (cases "ok s")
    case False
    with Cons.prems show ?thesis by simp
  next
    case True
    show ?thesis
    proof (cases "ParseFileName env f")
      case None
      with Cons.prems True show ?thesis by simp
    next
      case (Some nt)
      obtain number ty where nt: "nt = (number, ty)" by (cases nt)
      consider (cur) "ty = kCurrentFile" | (tab) "ty = kTableFile \<or> ty = kBlobFile"
        | (cp) "ty \<noteq> kCurrentFile" "ty \<noteq> kTableFile" "ty \<noteq> kBlobFile"
        by blast
      then show ?thesis
      proof cases
        case cur
        with Cons.prems(1) True Some nt have
          "live_files_loop (logged env) (checkpoint_copy_file_cb (logged env) opts n fp vl vw)
             ms fs s m f tb (w, tr) = ((s', m', cur', tb'), (w', tr'))"
          by simp
        from Cons.IH[OF this fs Cons.prems(3)] show ?thesis .
      next
        case tab
        with Cons.prems(1) True Some nt have
          "live_files_loop (logged env) (checkpoint_copy_file_cb (logged env) opts n fp vl vw)
             ms fs s (if ty = kDescriptorFile then f else m) cur (tb @ [(f, number, ty)])
             (w, tr) = ((s', m', cur', tb'), (w', tr'))"
          by auto
        moreover have "list_all (table_entry env lf) (tb @ [(f, number, ty)])"
          using Cons.prems(3) f Some nt tab by simp
        ultimately show ?thesis by (rule Cons.IH[OF _ fs])
      next
        case cp
        obtain s1 w1 tr1 where
          c: "checkpoint_copy_file_cb (logged env) opts n fp vl vw (GetName env) f
                (if ty = kDescriptorFile then ms else 0) ty kUnknownFileChecksumFuncName
                kUnknownFileChecksum (w, tr) = (s1, (w1, tr1))"
          by (metis surj_pair)
        then have a1: "appends (staged env lf n fp) tr tr1"
          using f Some nt
          by (auto simp: checkpoint_copy_file_cb_def CopyOptionsFile_def list_ex_iff
              file_type_def split: if_splits prod.splits)
        from Cons.prems(1) True Some nt cp c have
          "live_files_loop (logged env) (checkpoint_copy_file_cb (logged env) opts n fp vl vw)
             ms fs s1 (if ty = kDescriptorFile then f else m) cur tb (w1, tr1) =
             ((s', m', cur', tb'), (w', tr'))"
          by simp
        from Cons.IH[OF this fs Cons.prems(3)] a1 show ?thesis
          by (auto intro: appends_trans)
      qed
    qed
  qed
qed

lemma table_file_step_staged:
  assumes "table_file_step (logged env) (checkpoint_link_file_cb (logged env) n fp)
             (checkpoint_copy_file_cb (logged env) opts n fp vl vw) glc cl e s sf (w, tr) =
             (r, (w', tr'))"
    and "table_entry env lf e"
  shows "appends (staged env lf n fp) tr tr'"
  using assms
  by (cases e)
     (auto simp: table_file_step_def checkpoint_link_file_cb_def checkpoint_copy_file_cb_def
        list_ex_iff file_type_def split: if_splits prod.splits)

lemma table_files_loop_staged:
  assumes "table_files_loop (logged env) (checkpoint_link_file_cb (logged env) n fp)
             (checkpoint_copy_file_cb (logged env) opts n fp vl vw) glc cl tb s sf (w, tr) =
             (r, (w', tr'))"
    and "list_all (table_entry env lf) tb"
  shows "appends (staged env lf n fp) tr tr'"
  using assms
proof (induction tb arbitrary: s sf w tr)
  case Nil
  then show ?case by simp
next
  case (Cons e tb)
  from Cons.prems(2) have e: "table_entry env lf e" and tb: "list_all (table_entry env lf) tb"
    by auto
  show ?case
  proof (cases "ok s")
    case False
    with Cons.prems show ?thesis by simp
  next
    case True
    obtain s1 sf1 w1 tr1 where
      st: "table_file_step (logged env) (checkpoint_link_file_cb (logged env) n fp)
             (checkpoint_copy_file_cb (logged env) opts n fp vl vw) glc cl e s sf (w, tr) =
             ((s1, sf1), (w1, tr1))"
      by (metis surj_pair)
    with Cons.prems(1) True have
      "table_files_loop (logged env) (checkpoint_link_file_cb (logged env) n fp)
         (checkpoint_copy_file_cb (logged env) opts n fp vl vw) glc cl tb s1 sf1 (w1, tr1) =
         (r, (w', tr'))"
      by simp
    from Cons.IH[OF this tb] table_file_step_staged[OF st e] show ?thesis
      by (auto intro: appends_trans)
  qed
qed


lemma wal_transfer_mono:
  "wal_transfer d n xs e \<Longrightarrow> set xs \<subseteq> set ys \<Longrightarrow> wal_transfer d n ys e"
  by (cases e) (auto simp: list_ex_iff)

lemma wal_file_step_transfer:
  assumes "wal_file_step (checkpoint_link_file_cb (logged env) n fp)
             (checkpoint_copy_file_cb (logged env) opts n fp vl vw) d wal s sf (w, tr) =
             ((s', sf'), (w', tr'))"
  shows "\<exists>W. tr' = tr @ W \<and> list_all (wal_transfer d n [wal]) W \<and>
             (ok s' \<longrightarrow> list_ex (placed_ok d n (PathName wal)) W)"
  using assms
  by (auto simp: wal_file_step_def ok_def split: if_splits prod.splits)

lemma wal_files_loop_transfer:
  assumes "wal_files_loop (checkpoint_link_file_cb (logged env) n fp)
             (checkpoint_copy_file_cb (logged env) opts n fp vl vw) d fl mn wals s sf (w, tr) =
             ((s', sf'), (w', tr'))"
  shows "\<exists>W. tr' = tr @ W \<and>
             list_all (wal_transfer d n (filter (wal_wanted fl mn) wals)) W \<and>
             (ok s' \<longrightarrow> ok s \<and>
                (\<forall>wal \<in> set wals. wal_wanted fl mn wal \<longrightarrow>
                   list_ex (placed_ok d n (PathName wal)) W))"
  using assms
proof (induction wals arbitrary: s sf w tr)
  case Nil
  then show ?case by simp
next
  case (Cons wal rest)
  let ?T = "\<lambda>ws. wal_transfer d n (filter (wal_wanted fl mn) ws)"
  have up: "list_all (?T (wal # rest)) W" if "list_all (?T rest) W" for W
    using that by (auto simp: list_all_iff intro: wal_transfer_mono)
  show ?case
  proof (cases "ok s \<and> wal_wanted fl mn wal \<and> rest \<noteq> []")
    case True
    then have one: "list_all (?T (wal # rest)) W" if "list_all (wal_transfer d n [wal]) W" for W
      using that by (auto simp: list_all_iff intro: wal_transfer_mono)
    obtain s1 sf1 w1 tr1 where
      st: "wal_file_step (checkpoint_link_file_cb (logged env) n fp)
             (checkpoint_copy_file_cb (logged env) opts n fp vl vw) d wal s sf (w, tr) =
             ((s1, sf1), (w1, tr1))"
      by (metis surj_pair)
    with Cons.prems True have
      lp: "wal_files_loop (checkpoint_link_file_cb (logged env) n fp)
             (checkpoint_copy_file_cb (logged env) opts n fp vl vw) d fl mn rest s1 sf1
             (w1, tr1) = ((s', sf'), (w', tr'))"
      by simp
    from wal_file_step_transfer[OF st] obtain W1 where
      W1: "tr1 = tr @ W1" "list_all (wal_transfer d n [wal]) W1"
          "ok s1 \<longrightarrow> list_ex (placed_ok d n (PathName wal)) W1"
      by blast
    from Cons.IH[OF lp] obtain W2 where
      W2: "tr' = tr1 @ W2" "list_all (?T rest) W2"
          "ok s' \<longrightarrow> ok s1 \<and> (\<forall>wal \<in> set rest. wal_wanted fl mn wal \<longrightarrow>
                   list_ex (placed_ok d n (PathName wal)) W2)"
      by blast
    from W1(1,3) W2(1,3) True one[OF W1(2)] up[OF W2(2)] show ?thesis
      by (intro exI[of _ "W1 @ W2"]) (auto simp: list_ex_iff)
  next
    case False
    show ?thesis
    proof (cases "ok s \<and> \<not> wal_wanted fl mn wal")
      case True
      with Cons.prems have
        "wal_files_loop (checkpoint_link_file_cb (logged env) n fp)
           (checkpoint_copy_file_cb (logged env) opts n fp vl vw) d fl mn rest s sf (w, tr) =
           ((s', sf'), (w', tr'))"
        by simp
      from Cons.IH[OF this] True show ?thesis by auto
    next
      case last: False
      with False Cons.prems show ?thesis
        by (auto simp: ok_def list_ex_iff split: if_splits prod.splits)
    qed
  qed
qed


lemma transfer_live_files_placement:
  assumes run: "transfer_live_files (logged env) opts
             (checkpoint_link_file_cb (logged env) n fp)
             (checkpoint_copy_file_cb (logged env) opts n fp vl vw)
             (checkpoint_create_file_cb (logged env) opts fp) glc fl mn lf ms wals (w, tr) =
             (s, (w', tr'))"
  shows "\<exists>mid W. tr' = tr @ mid @ W \<and> list_all (staged env lf n fp) mid \<and>
           list_all (wal_transfer (GetWalDir env opts) n (filter (wal_wanted fl mn) wals)) W \<and>
           (ok s \<longrightarrow>
              (\<forall>wal \<in> set wals. wal_wanted fl mn wal \<longrightarrow>
                 list_ex (placed_ok (GetWalDir env opts) n (PathName wal)) W))"
proof -
  let ?link = "checkpoint_link_file_cb (logged env) n fp"
  let ?copy = "checkpoint_copy_file_cb (logged env) opts n fp vl vw"
  let ?create = "checkpoint_create_file_cb (logged env) opts fp"
  let ?S = "staged env lf n fp"
  obtain s1 mf cf tbs w1 tr1 where
    p1: "live_files_loop (logged env) ?copy ms lf OK [] [] [] (w, tr) =
           ((s1, mf, cf, tbs), (w1, tr1))"
    by (metis surj_pair)
  obtain s2 cl w2 tr2 where
    p2: "(if ok s1 \<and> glc
          then GetFileChecksumsFromManifest (logged env) (GetName (logged env) @ mf) ms (w1, tr1)
          else ((s1, []), (w1, tr1))) = ((s2, cl), (w2, tr2))"
    by (metis surj_pair)
  obtain s3 sf3 w3 tr3 where
    p3: "table_files_loop (logged env) ?link ?copy glc cl tbs s2 True (w2, tr2) =
           ((s3, sf3), (w3, tr3))"
    by (metis surj_pair)
  obtain s4 w4 tr4 where
    p4: "(if ok s3 \<and> cf \<noteq> [] \<and> mf \<noteq> []
          then ?create cf (drop 1 mf @ [CHR 0x0A]) kCurrentFile (w3, tr3)
          else (s3, (w3, tr3))) = (s4, (w4, tr4))"
    by (metis surj_pair)
  obtain s5 sf5 w5 tr5 where
    p5: "wal_files_loop ?link ?copy (GetWalDir env opts) fl mn wals s4 sf3 (w4, tr4) =
           ((s5, sf5), (w5, tr5))"
    by (metis surj_pair)
  from run p1 p2 p3 p4 p5 have e: "tr' = tr5" "s = s5"
    unfolding transfer_live_files_def by simp_all
  have l1: "appends ?S tr tr1 \<and> list_all (table_entry env lf) tbs"
    by (rule live_files_loop_staged[OF p1]) simp_all
  then obtain e1 where e1: "tr1 = tr @ e1" "list_all ?S e1" by (auto simp: appends_def)
  from p2 obtain e2 where e2: "tr2 = tr1 @ e2" "list_all ?S e2"
    by (auto split: if_splits prod.splits)
  from table_files_loop_staged[OF p3] l1 obtain e3 where
    e3: "tr3 = tr2 @ e3" "list_all ?S e3" by (auto simp: appends_def)
  from p4 obtain e4 where e4: "tr4 = tr3 @ e4" "list_all ?S e4"
    by (auto simp: checkpoint_create_file_cb_def split: if_splits prod.splits)
  from wal_files_loop_transfer[OF p5] obtain W where
    W: "tr5 = tr4 @ W"
       "list_all (wal_transfer (GetWalDir env opts) n (filter (wal_wanted fl mn) wals)) W"
       "ok s5 \<longrightarrow> (\<forall>wal \<in> set wals. wal_wanted fl mn wal \<longrightarrow>
                 list_ex (placed_ok (GetWalDir env opts) n (PathName wal)) W)"
    by blast
  from e e1 e2 e3 e4 W show ?thesis
    by - (rule exI[of _ "e1 @ e2 @ e3 @ e4"], rule exI[of _ W], simp)
qed

lemma placed_fail:
  "\<not> ok s \<Longrightarrow> list_all (\<lambda>e. \<not> transfer_event e) evs \<Longrightarrow> placed_events env opts n fp mno s evs"
  by (simp add: placed_events_def)

lemma placed_pre:
  assumes "placed_events env opts n fp mno s evs" "list_all (\<lambda>e. \<not> transfer_event e) P"
  shows "placed_events env opts n fp mno s (P @ evs)"
  using assms(1) unfolding placed_events_def
proof (elim disjE exE conjE)
  assume "\<not> ok s" "list_all (\<lambda>e. \<not> transfer_event e) evs"
  with assms(2) show "(\<not> ok s \<and> list_all (\<lambda>e. \<not> transfer_event e) (P @ evs)) \<or>
      (\<exists>pre fl lf ms wals mid W B mn.
         P @ evs = pre @ [EvGetLiveFiles fl OK lf ms, EvFlushWAL False OK,
                      EvGetSortedWalFiles OK wals] @ mid @ W @ B \<and>
         mno = Some mn \<and>
         list_all (\<lambda>e. \<not> transfer_event e) pre \<and>
         list_all (staged env lf n fp) mid \<and>
         list_all (wal_transfer (GetWalDir env opts) n (filter (wal_wanted fl mn) wals)) W \<and>
         list_all (\<lambda>e. \<not> transfer_event e) B \<and>
         (ok s \<longrightarrow>
            (\<forall>wal \<in> set wals. wal_wanted fl mn wal \<longrightarrow>
               list_ex (placed_ok (GetWalDir env opts) n (PathName wal)) W)))"
    by simp
next
  fix pre fl lf ms wals mid W B mn
  assume a: "evs = pre @ [EvGetLiveFiles fl OK lf ms, EvFlushWAL False OK,
                      EvGetSortedWalFiles OK wals] @ mid @ W @ B"
    "mno = Some mn" "list_all (\<lambda>e. \<not> transfer_event e) pre"
    "list_all (staged env lf n fp) mid"
    "list_all (wal_transfer (GetWalDir env opts) n (filter (wal_wanted fl mn) wals)) W"
    "list_all (\<lambda>e. \<not> transfer_event e) B"
    "ok s \<longrightarrow>
       (\<forall>wal \<in> set wals. wal_wanted fl mn wal \<longrightarrow>
          list_ex (placed_ok (GetWalDir env opts) n (PathName wal)) W)"
  with assms(2) show "(\<not> ok s \<and> list_all (\<lambda>e. \<not> transfer_event e) (P @ evs)) \<or>
      (\<exists>pre fl lf ms wals mid W B mn.
         P @ evs = pre @ [EvGetLiveFiles fl OK lf ms, EvFlushWAL False OK,
                      EvGetSortedWalFiles OK wals] @ mid @ W @ B \<and>
         mno = Some mn \<and>
         list_all (\<lambda>e. \<not> transfer_event e) pre \<and>
         list_all (staged env lf n fp) mid \<and>
         list_all (wal_transfer (GetWalDir env opts) n (filter (wal_wanted fl mn) wals)) W \<and>
         list_all (\<lambda>e. \<not> transfer_event e) B \<and>
         (ok s \<longrightarrow>
            (\<forall>wal \<in> set wals. wal_wanted fl mn wal \<longrightarrow>
               list_ex (placed_ok (GetWalDir env opts) n (PathName wal)) W)))"
    by - (rule disjI2, rule exI[of _ "P @ pre"], rule exI[of _ fl], rule exI[of _ lf],
          rule exI[of _ ms], rule exI[of _ wals], rule exI[of _ mid], rule exI[of _ W],
          rule exI[of _ B], rule exI[of _ mn], simp)
qed

lemma placed_post:
  assumes "placed_events env opts n fp mno s evs" "list_all (\<lambda>e. \<not> transfer_event e) B2"
    "ok s' \<longrightarrow> ok s"
  shows "placed_events env opts n fp mno s' (evs @ B2)"
  using assms(1) unfolding placed_events_def
proof (elim disjE exE conjE)
  assume "\<not> ok s" "list_all (\<lambda>e. \<not> transfer_event e) evs"
  with assms(2,3) show "(\<not> ok s' \<and> list_all (\<lambda>e. \<not> transfer_event e) (evs @ B2)) \<or>
      (\<exists>pre fl lf ms wals mid W B mn.
         evs @ B2 = pre @ [EvGetLiveFiles fl OK lf ms, EvFlushWAL False OK,
                      EvGetSortedWalFiles OK wals] @ mid @ W @ B \<and>
         mno = Some mn \<and>
         list_all (\<lambda>e. \<not> transfer_event e) pre \<and>
         list_all (staged env lf n fp) mid \<and>
         list_all (wal_transfer (GetWalDir env opts) n (filter (wal_wanted fl mn) wals)) W \<and>
         list_all (\<lambda>e. \<not> transfer_event e) B \<and>
         (ok s' \<longrightarrow>
            (\<forall>wal \<in> set wals. wal_wanted fl mn wal \<longrightarrow>
               list_ex (placed_ok (GetWalDir env opts) n (PathName wal)) W)))"
    by auto
next
  fix pre fl lf ms wals mid W B mn
  assume a: "evs = pre @ [EvGetLiveFiles fl OK lf ms, EvFlushWAL False OK,
                      EvGetSortedWalFiles OK wals] @ mid @ W @ B"
    "mno = Some mn" "list_all (\<lambda>e. \<not> transfer_event e) pre"
    "list_all (staged env lf n fp) mid"
    "list_all (wal_transfer (GetWalDir env opts) n (filter (wal_wanted fl mn) wals)) W"
    "list_all (\<lambda>e. \<not> transfer_event e) B"
    "ok s \<longrightarrow>
       (\<forall>wal \<in> set wals. wal_wanted fl mn wal \<longrightarrow>
          list_ex (placed_ok (GetWalDir env opts) n (PathName wal)) W)"
  with assms(2,3) show "(\<not> ok s' \<and> list_all (\<lambda>e. \<not> transfer_event e) (evs @ B2)) \<or>
      (\<exists>pre fl lf ms wals mid W B mn.
         evs @ B2 = pre @ [EvGetLiveFiles fl OK lf ms, EvFlushWAL False OK,
                      EvGetSortedWalFiles OK wals] @ mid @ W @ B \<and>
         mno = Some mn \<and>
         list_all (\<lambda>e. \<not> transfer_event e) pre \<and>
         list_all (staged env lf n fp) mid \<and>
         list_all (wal_transfer (GetWalDir env opts) n (filter (wal_wanted fl mn) wals)) W \<and>
         list_all (\<lambda>e. \<not> transfer_event e) B \<and>
         (ok s' \<longrightarrow>
            (\<forall>wal \<in> set wals. wal_wanted fl mn wal \<longrightarrow>
               list_ex (placed_ok (GetWalDir env opts) n (PathName wal)) W)))"
    by - (rule disjI2, rule exI[of _ pre], rule exI[of _ fl], rule exI[of _ lf],
          rule exI[of _ ms], rule exI[of _ wals], rule exI[of _ mid], rule exI[of _ W],
          rule exI[of _ "B @ B2"], rule exI[of _ mn], simp)
qed

lemma CCC_checkpoint_placement:
  assumes run: "CreateCustomCheckpoint (logged env) opts
     (checkpoint_link_file_cb (logged env) n fp)
     (checkpoint_copy_file_cb (logged env) opts n fp vl vw)
     (checkpoint_create_file_cb (logged env) opts fp) t glc (w, tr) = ((s, sq), (w', tr'))"
  shows "\<exists>evs. tr' = tr @ evs \<and>
           placed_events env opts n fp (min_log_num_seen (logged env) opts t (w, tr)) s evs"
proof -
  have nt: "list_all (\<lambda>e. \<not> transfer_event e) pre" if "list_all enumeration_event pre" for pre
    using that no_transfer_events(2) by (auto simp: list_all_iff)
  from CreateCustomCheckpoint_cases[OF run] show ?thesis
  proof (elim disjE exE conjE)
    fix pre
    assume "tr' = tr @ pre" "list_all enumeration_event pre" "\<not> ok s"
    then show ?thesis by (auto intro: placed_fail nt)
  next
    fix pre
    assume "tr' = tr @ pre" "list_all enumeration_event pre" "\<not> ok s"
    then show ?thesis by (auto intro: placed_fail nt)
  next
    fix pre fl s1 lf1 ms1 lf ms wals mn w5
    assume pre: "list_all enumeration_event pre"
      and mn: "min_log_num_seen (logged env) opts t (w, tr) = Some mn"
      and tl: "transfer_live_files (logged env) opts
                 (checkpoint_link_file_cb (logged env) n fp)
                 (checkpoint_copy_file_cb (logged env) opts n fp vl vw)
                 (checkpoint_create_file_cb (logged env) opts fp) glc fl mn lf ms wals
                 (w5, tr @ pre @
                    [EvGetLiveFiles fl s1 lf1 ms1, EvGetLiveFiles fl OK lf ms,
                     EvFlushWAL False OK, EvGetSortedWalFiles OK wals]) = (s, (w', tr'))"
    from transfer_live_files_placement[OF tl] obtain mid W where
      A: "tr' = (tr @ pre @
                    [EvGetLiveFiles fl s1 lf1 ms1, EvGetLiveFiles fl OK lf ms,
                     EvFlushWAL False OK, EvGetSortedWalFiles OK wals]) @ mid @ W"
        "list_all (staged env lf n fp) mid"
        "list_all (wal_transfer (GetWalDir env opts) n (filter (wal_wanted fl mn) wals)) W"
        "ok s \<longrightarrow>
              (\<forall>wal \<in> set wals. wal_wanted fl mn wal \<longrightarrow>
                 list_ex (placed_ok (GetWalDir env opts) n (PathName wal)) W)"
      by blast
    let ?evs = "pre @ [EvGetLiveFiles fl s1 lf1 ms1, EvGetLiveFiles fl OK lf ms,
                       EvFlushWAL False OK, EvGetSortedWalFiles OK wals] @ mid @ W"
    have "placed_events env opts n fp (Some mn) s ?evs"
      unfolding placed_events_def
      using A(2,3,4) nt[OF pre]
      by - (rule disjI2, rule exI[of _ "pre @ [EvGetLiveFiles fl s1 lf1 ms1]"],
            rule exI[of _ fl], rule exI[of _ lf], rule exI[of _ ms], rule exI[of _ wals],
            rule exI[of _ mid], rule exI[of _ W], rule exI[of _ "[]"], rule exI[of _ mn],
            simp)
    with A(1) mn show ?thesis
      by - (rule exI[of _ ?evs], simp)
  qed
qed

lemma transfer_deletions_disabled_placement:
  assumes run: "transfer_deletions_disabled (logged env) opts glc t n fp vl vw s0 (w, tr) =
                  ((s, sq), (w', tr'))"
  shows "\<exists>evs. tr' = tr @ evs \<and>
           placed_events env opts n fp
             (min_log_num_seen (logged env) opts t
                (snd (DisableFileDeletions (logged env) (w, tr)))) s evs"
proof (cases "ok s0")
  case False
  with run have "tr' = tr @ []" "\<not> ok s"
    by (auto simp: transfer_deletions_disabled_def)
  then show ?thesis by (auto intro!: placed_fail exI[of _ "[]"])
next
  case True
  obtain s1 w1 where d: "DisableFileDeletions env w = (s1, w1)" by (metis surj_pair)
  then have d': "snd (DisableFileDeletions (logged env) (w, tr)) =
                   (w1, tr @ [EvDisableFileDeletions s1])"
    by simp
  show ?thesis
  proof (cases "ok s1 \<or> IsNotSupported s1")
    case False
    with run True d have "tr' = tr @ [EvDisableFileDeletions s1]" "\<not> ok s"
      by (auto simp: transfer_deletions_disabled_def Let_def)
    then show ?thesis by (auto intro!: placed_fail exI[of _ "[EvDisableFileDeletions s1]"])
  next
    case go: True
    obtain s2 sq2 w2 tr2 where
      c: "CreateCustomCheckpoint (logged env) opts
            (checkpoint_link_file_cb (logged env) n fp)
            (checkpoint_copy_file_cb (logged env) opts n fp vl vw)
            (checkpoint_create_file_cb (logged env) opts fp) t glc
            (w1, tr @ [EvDisableFileDeletions s1]) = ((s2, sq2), (w2, tr2))"
      by (metis surj_pair)
    let ?mno = "min_log_num_seen (logged env) opts t (w1, tr @ [EvDisableFileDeletions s1])"
    from CCC_checkpoint_placement[OF c] obtain evs where
      evs: "tr2 = (tr @ [EvDisableFileDeletions s1]) @ evs"
        "placed_events env opts n fp ?mno s2 evs"
      by blast
    from placed_pre[OF evs(2), of "[EvDisableFileDeletions s1]"] have
      p: "placed_events env opts n fp ?mno s2 ([EvDisableFileDeletions s1] @ evs)"
      by simp
    from run True d go c have
      e: "s = s2" "tr' = tr2 \<or> (\<exists>ss. tr' = tr2 @ [EvEnableFileDeletions False ss])"
      by (auto simp: transfer_deletions_disabled_def Let_def split: if_splits prod.splits)
    from e(2) show ?thesis
      unfolding d'
    proof (elim disjE exE)
      assume "tr' = tr2"
      with p e(1) evs(1) show "\<exists>evs. tr' = tr @ evs \<and> placed_events env opts n fp ?mno s evs"
        by - (rule exI[of _ "[EvDisableFileDeletions s1] @ evs"], simp)
    next
      fix ss
      assume "tr' = tr2 @ [EvEnableFileDeletions False ss]"
      with placed_post[OF p, of "[EvEnableFileDeletions False ss]" s] e(1) evs(1)
      show "\<exists>evs. tr' = tr @ evs \<and> placed_events env opts n fp ?mno s evs"
        by - (rule exI[of _ "([EvDisableFileDeletions s1] @ evs) @
                             [EvEnableFileDeletions False ss]"], simp)
    qed
  qed
qed


lemma resolve_wal_dir_no_transfer:
  "resolve_wal_dir (logged env) pw pc fp s (w, tr) = (r, (w', tr')) \<Longrightarrow>
     appends (\<lambda>e. \<not> transfer_event e) tr tr'"
  by (auto simp: resolve_wal_dir_def Let_def split: if_splits prod.splits)

text \<open>
  Claim C9, as the code has it. Let a call of \<^verbatim>\<open>CreateCheckpoint\<close> have a target
  directory that is not made of slashes only, and let \<open>P\<close> be that directory without its
  trailing slashes. Every options file that the call writes records \<^verbatim>\<open>db_log_dir\<close> as
  \<open>recorded_log_dir env P ld\<close>, which is empty when the override without its trailing
  slashes is the directory of the source database or \<open>P\<close> and the override without its
  trailing slashes otherwise, and records \<^verbatim>\<open>wal_dir\<close> as \<open>recorded_wal_dir env P wd\<close>, which is
  \<open>P\<close>, not the empty string, when the override without its trailing slashes is empty, the
  directory of the source database or \<open>P\<close>, and the override without its trailing slashes
  otherwise. The WAL files go to \<open>wal_files_dir env P wd\<close>, which is the staging directory
  in the three cases above, the corresponding subdirectory of the staging directory when
  the override lies under \<open>P\<close>, and the override without its trailing slashes otherwise:
  either the call fails and links or copies no file at all, or its trace holds the
  enumeration of the live files \<open>lf\<close> and of the WAL files \<open>wals\<close>, and
  \<^item> before the enumeration no file is linked or copied;
  \<^item> then come the events \<open>mid\<close> of the passes over the live files, which link a live file
    to the staging directory, or copy a live file to the staging directory, or to
    \<open>wal_files_dir env P wd\<close> if its name is that of a WAL file;
  \<^item> then come the events \<open>W\<close> of the pass over the WAL files, each of them a link or a copy
    of an enumerated WAL file that takes part, from the WAL directory of the source to the
    same name in \<open>wal_files_dir env P wd\<close>;
  \<^item> after \<open>W\<close> no file is linked or copied;
  \<^item> if the call returns OK, \<open>W\<close> holds a successful link or copy of every enumerated WAL
    file that takes part.

  The WAL files that take part are every alive log when the enumeration asked for no
  flush, and otherwise every alive log whose number is at least the minimum log number
  \<open>mn\<close> that the engine reported to this call.
\<close>

theorem overrides_recorded_and_wal_files_placed:
  assumes run: "CreateCheckpoint (logged env) glc dir t sp ld wd (w, []) = ((s, sp'), (w', tr))"
    and dir: "find_last_not_of dir (CHR ''/'') = Some i"
  shows "list_all (records (recorded_log_dir env (take (Suc i) dir) ld)
                     (recorded_wal_dir env (take (Suc i) dir) wd)) tr \<and>
         ((\<not> ok s \<and> list_all (\<lambda>e. \<not> transfer_event e) tr) \<or>
          (\<exists>pre fl lf ms wals mid W B mn.
             tr = pre @ [EvGetLiveFiles fl OK lf ms, EvFlushWAL False OK,
                         EvGetSortedWalFiles OK wals] @ mid @ W @ B \<and>
             checkpoint_min_log_num (logged env) dir t wd (w, []) = Some mn \<and>
             list_all (\<lambda>e. \<not> transfer_event e) pre \<and>
             list_all (staged env lf (wal_files_dir env (take (Suc i) dir) wd)
                         (take (Suc i) dir @ ''.tmp'')) mid \<and>
             list_all (wal_transfer (GetWalDir env (GetDBOptions env))
                         (wal_files_dir env (take (Suc i) dir) wd)
                         (filter (wal_wanted fl mn) wals)) W \<and>
             list_all (\<lambda>e. \<not> transfer_event e) B \<and>
             (ok s \<longrightarrow>
                (\<forall>wal \<in> set wals. wal_wanted fl mn wal \<longrightarrow>
                   list_ex (placed_ok (GetWalDir env (GetDBOptions env))
                              (wal_files_dir env (take (Suc i) dir) wd) (PathName wal)) W))))"
proof -
  let ?P = "take (Suc i) dir"
  let ?ST = "?P @ ''.tmp''"
  let ?vl = "recorded_log_dir env ?P ld"
  let ?vw = "recorded_wal_dir env ?P wd"
  let ?n = "wal_files_dir env ?P wd"
  let ?opts = "GetDBOptions env"
  let ?mno = "checkpoint_min_log_num (logged env) dir t wd (w, [])"
  let ?nt = "\<lambda>e. \<not> transfer_event e"
  have "list_all (records ?vl ?vw) tr \<and> placed_events env ?opts ?n ?ST ?mno s tr"
    using CreateCheckpoint_cases[OF run]
  proof (elim disjE exE conjE)
    fix s0
    assume "FileExists (logged env) dir (w, []) = (s0, (w', tr))" "\<not> IsNotFound s0"
      "(s, sp') = ((if ok s0 then InvalidArgument ''Directory exists'' else s0), sp)"
    then have "tr = [EvFileExists dir s0]" "\<not> ok s"
      by (auto simp: ok_def split: prod.splits if_splits)
    then show ?thesis
      using placed_fail[of s "[EvFileExists dir s0]" env ?opts ?n ?ST ?mno] by simp
  next
    fix s0
    assume "find_last_not_of dir (CHR ''/'') = None"
    with dir show ?thesis by simp
  next
    fix s0 w1 j s2 w3 s3 w4 s4 sq w5
    assume fe: "FileExists (logged env) dir (w, []) = (s0, w1)"
      and j: "find_last_not_of dir (CHR ''/'') = Some j"
      and cd: "CreateDir (logged env) (take (Suc j) dir @ ''.tmp'')
                 (CleanStagingDirectory (logged env) (take (Suc j) dir @ ''.tmp'') w1) =
                 (s2, w3)"
      and rs: "resolve_wal_dir (logged env) (if wd = [] then [] else substr_to_last_nonslash wd)
                 (take (Suc j) dir) (take (Suc j) dir @ ''.tmp'') s2 w3 =
                 ((recorded_wal_dir (logged env) (take (Suc j) dir) wd,
                   wal_files_dir (logged env) (take (Suc j) dir) wd, s3), w4)"
      and td: "transfer_deletions_disabled (logged env) (GetDBOptions (logged env)) glc t
                 (wal_files_dir (logged env) (take (Suc j) dir) wd) (take (Suc j) dir @ ''.tmp'')
                 (recorded_log_dir (logged env) (take (Suc j) dir) ld)
                 (recorded_wal_dir (logged env) (take (Suc j) dir) wd) s3 w4 = ((s4, sq), w5)"
      and ic: "install_checkpoint (logged env) (take (Suc j) dir @ ''.tmp'') (take (Suc j) dir)
                 sp sq s4 w5 = ((s, sp'), (w', tr))"
    from j dir have ji: "j = i" by simp
    have same: "recorded_wal_dir (logged env) ?P wd = ?vw"
      "wal_files_dir (logged env) ?P wd = ?n" "recorded_log_dir (logged env) ?P ld = ?vl"
      by (simp_all add: recorded_wal_dir_def wal_files_dir_def recorded_log_dir_def)
    obtain x1 where w1: "w1 = (x1, [EvFileExists dir s0])"
      using fe by (auto split: prod.splits)
    obtain x2 t2 where cl: "CleanStagingDirectory (logged env) ?ST w1 = (x2, t2)"
      by (metis surj_pair)
    obtain x3 t3 where w3: "w3 = (x3, t3)" by (metis surj_pair)
    obtain x4 t4 where w4: "w4 = (x4, t4)" by (metis surj_pair)
    obtain x5 t5 where w5: "w5 = (x5, t5)" by (metis surj_pair)
    have mno: "?mno = min_log_num_seen (logged env) ?opts t
                        (snd (DisableFileDeletions (logged env) (x4, t4)))"
      unfolding checkpoint_min_log_num_def
      using fe dir cd[unfolded ji] rs[unfolded ji] w4
      by (simp add: Let_def split: prod.splits)
    from cl[unfolded w1] have r2: "appends (records ?vl ?vw) [EvFileExists dir s0] t2"
      by (rule CleanStagingDirectory_appends[OF records_events(1)])
    from cd[unfolded ji cl] w3 have r3: "appends (records ?vl ?vw) t2 t3"
      by (auto split: prod.splits)
    from rs[unfolded ji w3 w4] have r4: "appends (records ?vl ?vw) t3 t4"
      by (rule resolve_wal_dir_records)
    from td[unfolded ji w4 w5 same] have r5: "appends (records ?vl ?vw) t4 t5"
      by (rule transfer_deletions_disabled_records)
    from ic[unfolded ji w5] have r6: "appends (records ?vl ?vw) t5 tr"
      by (rule install_checkpoint_records)
    from r2 r3 r4 r5 r6 have rec: "list_all (records ?vl ?vw) tr"
      by (auto simp: appends_def)
    from cl[unfolded w1] have n2: "appends ?nt [EvFileExists dir s0] t2"
      by (rule CleanStagingDirectory_appends[OF no_transfer_events(1)])
    from cd[unfolded ji cl] w3 have n3: "appends ?nt t2 t3"
      by (auto split: prod.splits)
    from rs[unfolded ji w3 w4] have n4: "appends ?nt t3 t4"
      by (rule resolve_wal_dir_no_transfer)
    from n2 n3 n4 have pre: "list_all ?nt t4"
      by (auto simp: appends_def)
    from transfer_deletions_disabled_placement[OF td[unfolded ji w4 w5 same]] obtain evs where
      evs: "t5 = t4 @ evs" "placed_events env ?opts ?n ?ST ?mno s4 evs"
      unfolding mno by auto
    from placed_pre[OF evs(2) pre] evs(1) have p5: "placed_events env ?opts ?n ?ST ?mno s4 t5"
      by simp
    from install_checkpoint_no_transfer[OF ic[unfolded ji w5]] obtain B2 where
      "tr = t5 @ B2" "list_all ?nt B2" "ok s \<longrightarrow> ok s4"
      by (auto simp: appends_def)
    with placed_post[OF p5, of B2 s] have "placed_events env ?opts ?n ?ST ?mno s tr" by simp
    with rec show ?thesis by simp
  qed
  then show ?thesis
    unfolding placed_events_def by simp
qed

theorem overrides_recorded_and_wal_files_placed_witness:
  "fst (fst mem_flush_override_run) = OK \<and>
   checkpoint_min_log_num (logged mem_env_min_log_21) ''/snap'' 0 ''/wal/'' ([''/db''], []) =
     Some 21 \<and>
   filter persist_event (snd (snd mem_flush_override_run)) =
     [EvPersistRocksDBOptions (mem_options\<lparr>db_log_dir := [], wal_dir := ''/wal''\<rparr>) [] []
        ''/snap.tmp/OPTIONS-000007'' OK] \<and>
   filter transfer_event (snd (snd mem_flush_override_run)) =
     [EvCopyFile ''/db/MANIFEST-000005'' ''/snap.tmp/MANIFEST-000005'' 4096 False OK,
      EvLinkFile ''/db/000010.sst'' ''/snap.tmp/000010.sst'' OK,
      EvLinkFile ''/db/000011.sst'' ''/snap.tmp/000011.sst'' OK,
      EvCopyFile ''/db/000021.log'' ''/wal/000021.log'' 45 False OK] \<and>
   list_all (records [] ''/wal'') (snd (snd mem_flush_override_run)) \<and>
   (\<exists>pre fl lf ms wals mid W B.
      snd (snd mem_flush_override_run) =
        pre @ [EvGetLiveFiles fl OK lf ms, EvFlushWAL False OK,
               EvGetSortedWalFiles OK wals] @ mid @ W @ B \<and>
      list_all (\<lambda>e. \<not> transfer_event e) pre \<and>
      list_all (staged mem_env_min_log_21 lf ''/wal'' ''/snap.tmp'') mid \<and>
      list_all (wal_transfer ''/db'' ''/wal'' (filter (wal_wanted fl 21) wals)) W \<and>
      list_all (\<lambda>e. \<not> transfer_event e) B \<and>
      (\<forall>wal \<in> set wals. wal_wanted fl 21 wal \<longrightarrow>
         list_ex (placed_ok ''/db'' ''/wal'' (PathName wal)) W))"
proof -
  let ?run = "mem_flush_override_run"
  have r: "CreateCheckpoint (logged mem_env_min_log_21) False ''/snap'' 0 None ''/db/'' ''/wal/''
             ([''/db''], []) =
           ((fst (fst ?run), snd (fst ?run)), (fst (snd ?run), snd (snd ?run)))"
    by (simp only: mem_flush_override_run_def[symmetric] prod.collapse)
  have d: "find_last_not_of ''/snap'' (CHR ''/'') = Some 4" by code_simp
  have v: "recorded_log_dir mem_env_min_log_21 (take (Suc 4) ''/snap'') ''/db/'' = []"
    "recorded_wal_dir mem_env_min_log_21 (take (Suc 4) ''/snap'') ''/wal/'' = ''/wal''"
    "wal_files_dir mem_env_min_log_21 (take (Suc 4) ''/snap'') ''/wal/'' = ''/wal''"
    "GetWalDir mem_env_min_log_21 (GetDBOptions mem_env_min_log_21) = ''/db''"
    "take (Suc 4) ''/snap'' @ ''.tmp'' = ''/snap.tmp''"
    by code_simp+
  have m: "checkpoint_min_log_num (logged mem_env_min_log_21) ''/snap'' 0 ''/wal/''
             ([''/db''], []) = Some 21"
    by code_simp
  have o: "fst (fst ?run) = OK" by code_simp
  have p: "filter persist_event (snd (snd ?run)) =
     [EvPersistRocksDBOptions (mem_options\<lparr>db_log_dir := [], wal_dir := ''/wal''\<rparr>) [] []
        ''/snap.tmp/OPTIONS-000007'' OK]"
    by code_simp
  have f: "filter transfer_event (snd (snd ?run)) =
     [EvCopyFile ''/db/MANIFEST-000005'' ''/snap.tmp/MANIFEST-000005'' 4096 False OK,
      EvLinkFile ''/db/000010.sst'' ''/snap.tmp/000010.sst'' OK,
      EvLinkFile ''/db/000011.sst'' ''/snap.tmp/000011.sst'' OK,
      EvCopyFile ''/db/000021.log'' ''/wal/000021.log'' 45 False OK]"
    by code_simp
  from overrides_recorded_and_wal_files_placed[OF r d] o p f m show ?thesis
    unfolding v m by (simp only: ok_def simp_thms option.inject ex_simps)
qed

theorem wal_dir_override_of_source_recorded_as_target:
  "substr_to_last_nonslash ''/db/'' = GetName mem_env \<and>
   fst (fst (mem_override_run [] ''/db/'')) = OK \<and>
   filter persist_event (snd (snd (mem_override_run [] ''/db/''))) =
     [EvPersistRocksDBOptions (mem_options\<lparr>wal_dir := ''/snap''\<rparr>) [] []
        ''/snap.tmp/OPTIONS-000007'' OK]"
  by code_simp

section \<open>Link, then copy: the fallback of an export\<close>

lemma export_files_loop_steady:
  assumes run: "export_files_loop (logged env) (log_export_link_cb l) (log_export_copy_cb c)
                  fs s0 h n (w, tr) = ((s', h', n'), (w', tr'))"
    and st: "h \<longrightarrow> 0 < n"
  shows "h' = h \<and> (h \<longrightarrow> 0 < n') \<and>
         (\<exists>evs. tr' = tr @ evs \<and>
            list_all (if h then export_link_event else export_copy_event) evs \<and>
            (list_all (\<lambda>f. ParseFileName env (sst_name f) \<noteq> None) fs \<and>
             list_all (\<lambda>e. ev_status e = OK) evs \<longrightarrow>
               evs = map (\<lambda>f. if h then EvExportLinkCb (GetName env) (sst_name f) OK
                              else EvExportCopyCb (GetName env) (sst_name f) OK) fs \<and>
               s' = (if fs = [] then s0 else OK)))"
  using run st
proof (induction fs arbitrary: s0 n w tr)
  case Nil
  then show ?case by simp
next
  case (Cons f rest)
  show ?case
  proof (cases "ParseFileName env (sst_name f)")
    case None
    with Cons.prems show ?thesis by simp
  next
    case (Some nt)
    obtain number ty where nt: "nt = (number, ty)" by (cases nt)
    show ?thesis
    proof (cases h)
      case True
      obtain s1 w1 where l: "l (GetName env) (sst_name f) w = (s1, w1)" by (metis surj_pair)
      show ?thesis
      proof (cases "ok s1")
        case False
        with Cons.prems Some nt True l show ?thesis
          by (auto simp: ok_def)
      next
        case ok1: True
        with Cons.prems Some nt True l have
          "export_files_loop (logged env) (log_export_link_cb l) (log_export_copy_cb c)
             rest s1 h (n + 1) (w1, tr @ [EvExportLinkCb (GetName env) (sst_name f) s1]) =
             ((s', h', n'), (w', tr'))"
          by (auto simp: ok_def)
        from Cons.IH[OF this] ok1 True show ?thesis
          by (auto simp: ok_def)
      qed
    next
      case False
      obtain s1 w1 where l: "c (GetName env) (sst_name f) w = (s1, w1)" by (metis surj_pair)
      show ?thesis
      proof (cases "ok s1")
        case nok: False
        with Cons.prems Some nt False l show ?thesis
          by (auto simp: ok_def)
      next
        case ok1: True
        with Cons.prems Some nt False l have
          "export_files_loop (logged env) (log_export_link_cb l) (log_export_copy_cb c)
             rest s1 h (n + 1) (w1, tr @ [EvExportCopyCb (GetName env) (sst_name f) s1]) =
             ((s', h', n'), (w', tr'))"
          by (auto simp: ok_def)
        from Cons.IH[OF this] ok1 False show ?thesis
          by (auto simp: ok_def)
      qed
    qed
  qed
qed

lemma export_levels_loop_steady:
  assumes run: "export_levels_loop (logged env) (log_export_link_cb l) (log_export_copy_cb c)
                  ls s0 h n (w, tr) = ((s', h', n'), (w', tr'))"
    and st: "h \<longrightarrow> 0 < n"
  shows "h' = h \<and> (h \<longrightarrow> 0 < n') \<and>
         (\<exists>evs. tr' = tr @ evs \<and>
            list_all (if h then export_link_event else export_copy_event) evs \<and>
            (list_all (\<lambda>f. ParseFileName env (sst_name f) \<noteq> None) (concat (map files ls)) \<and>
             list_all (\<lambda>e. ev_status e = OK) evs \<longrightarrow>
               evs = map (\<lambda>f. if h then EvExportLinkCb (GetName env) (sst_name f) OK
                              else EvExportCopyCb (GetName env) (sst_name f) OK)
                       (concat (map files ls)) \<and>
               s' = (if concat (map files ls) = [] then s0 else OK)))"
  using run st
proof (induction ls arbitrary: s0 n w tr)
  case Nil
  then show ?case by simp
next
  case (Cons lv rest)
  obtain s1 h1 n1 w1 tr1 where
    f: "export_files_loop (logged env) (log_export_link_cb l) (log_export_copy_cb c)
          (files lv) s0 h n (w, tr) = ((s1, h1, n1), (w1, tr1))"
    by (metis surj_pair)
  with Cons.prems have
    r: "export_levels_loop (logged env) (log_export_link_cb l) (log_export_copy_cb c)
          rest s1 h1 n1 (w1, tr1) = ((s', h', n'), (w', tr'))"
    by simp
  from export_files_loop_steady[OF f Cons.prems(2)] obtain e1 where
    e1: "h1 = h" "h \<longrightarrow> 0 < n1" "tr1 = tr @ e1"
      "list_all (if h then export_link_event else export_copy_event) e1"
      "list_all (\<lambda>f. ParseFileName env (sst_name f) \<noteq> None) (files lv) \<and>
       list_all (\<lambda>e. ev_status e = OK) e1 \<longrightarrow>
         e1 = map (\<lambda>f. if h then EvExportLinkCb (GetName env) (sst_name f) OK
                        else EvExportCopyCb (GetName env) (sst_name f) OK) (files lv) \<and>
         s1 = (if files lv = [] then s0 else OK)"
    by blast
  from Cons.IH[OF r[unfolded e1(1)] e1(2)] obtain e2 where
    e2: "h' = h" "h \<longrightarrow> 0 < n'" "tr' = tr1 @ e2"
      "list_all (if h then export_link_event else export_copy_event) e2"
      "list_all (\<lambda>f. ParseFileName env (sst_name f) \<noteq> None) (concat (map files rest)) \<and>
       list_all (\<lambda>e. ev_status e = OK) e2 \<longrightarrow>
         e2 = map (\<lambda>f. if h then EvExportLinkCb (GetName env) (sst_name f) OK
                        else EvExportCopyCb (GetName env) (sst_name f) OK)
                (concat (map files rest)) \<and>
         s' = (if concat (map files rest) = [] then s1 else OK)"
    by blast
  show ?case
  proof (intro conjI)
    show "h' = h" by fact
    show "h \<longrightarrow> 0 < n'" by fact
    show "\<exists>evs. tr' = tr @ evs \<and>
            list_all (if h then export_link_event else export_copy_event) evs \<and>
            (list_all (\<lambda>f. ParseFileName env (sst_name f) \<noteq> None)
               (concat (map files (lv # rest))) \<and>
             list_all (\<lambda>e. ev_status e = OK) evs \<longrightarrow>
               evs = map (\<lambda>f. if h then EvExportLinkCb (GetName env) (sst_name f) OK
                              else EvExportCopyCb (GetName env) (sst_name f) OK)
                       (concat (map files (lv # rest))) \<and>
               s' = (if concat (map files (lv # rest)) = [] then s0 else OK))"
      using e1(3,4,5) e2(3,4,5)
      by (intro exI[of _ "e1 @ e2"]) (cases h; simp)
  qed
qed

lemma not_supported_not_ok [simp]: "IsNotSupported s \<Longrightarrow> s \<noteq> OK"
  by (cases s) auto

lemma export_files_loop_fresh:
  assumes run: "export_files_loop (logged env) (log_export_link_cb l) (log_export_copy_cb c)
                  fs s0 True 0 (w, tr) = ((s', h', n'), (w', tr'))"
  shows "\<exists>evs. tr' = tr @ evs \<and> fresh_outcome env fs s0 s' h' n' evs"
proof (cases fs)
  case Nil
  with run show ?thesis by (simp add: fresh_outcome_def)
next
  case (Cons f rest)
  let ?d = "GetName env"
  show ?thesis
  proof (cases "ParseFileName env (sst_name f)")
    case None
    with run Cons show ?thesis by (simp add: fresh_outcome_def)
  next
    case (Some nt)
    obtain number ty where nt: "nt = (number, ty)" by (cases nt)
    obtain s1 w1 where lk: "l ?d (sst_name f) w = (s1, w1)" by (metis surj_pair)
    show ?thesis
    proof (cases "IsNotSupported s1")
      case ns: True
      obtain s2 w2 where cp: "c ?d (sst_name f) w1 = (s2, w2)" by (metis surj_pair)
      show ?thesis
      proof (cases "ok s2")
        case False
        with run Cons Some nt lk ns cp have
          "tr' = tr @ [EvExportLinkCb ?d (sst_name f) s1, EvExportCopyCb ?d (sst_name f) s2]"
          "\<not> h'"
          by auto
        with ns False show ?thesis
          by (simp add: fresh_outcome_def ok_def)
      next
        case ok2: True
        with run Cons Some nt lk ns cp have
          "export_files_loop (logged env) (log_export_link_cb l) (log_export_copy_cb c)
             rest s2 False 1
             (w2, tr @ [EvExportLinkCb ?d (sst_name f) s1, EvExportCopyCb ?d (sst_name f) s2]) =
             ((s', h', n'), (w', tr'))"
          by auto
        from export_files_loop_steady[OF this] obtain evs where
          e: "\<not> h'"
            "tr' = (tr @ [EvExportLinkCb ?d (sst_name f) s1,
                          EvExportCopyCb ?d (sst_name f) s2]) @ evs"
            "list_all export_copy_event evs"
            "list_all (\<lambda>f. ParseFileName env (sst_name f) \<noteq> None) rest \<and>
             list_all (\<lambda>e. ev_status e = OK) evs \<longrightarrow>
               evs = map (\<lambda>f. EvExportCopyCb ?d (sst_name f) OK) rest \<and>
               s' = (if rest = [] then s2 else OK)"
          by auto
        show ?thesis
        proof (intro exI[of _ "EvExportLinkCb ?d (sst_name f) s1 #
                               EvExportCopyCb ?d (sst_name f) s2 # evs"] conjI)
          show "tr' = tr @ EvExportLinkCb ?d (sst_name f) s1 #
                        EvExportCopyCb ?d (sst_name f) s2 # evs"
            using e(2) by simp
          show "fresh_outcome env fs s0 s' h' n'
                  (EvExportLinkCb ?d (sst_name f) s1 # EvExportCopyCb ?d (sst_name f) s2 # evs)"
            using e(1,3,4) ns ok2 Cons
            by (auto simp: fresh_outcome_def ok_def)
        qed
      qed
    next
      case sup: False
      show ?thesis
      proof (cases "ok s1")
        case False
        with run Cons Some nt lk sup have
          "tr' = tr @ [EvExportLinkCb ?d (sst_name f) s1]" "h'" "n' = 1"
          by auto
        with sup False show ?thesis
          by (simp add: fresh_outcome_def ok_def)
      next
        case ok1: True
        with run Cons Some nt lk sup have
          "export_files_loop (logged env) (log_export_link_cb l) (log_export_copy_cb c)
             rest s1 True 1 (w1, tr @ [EvExportLinkCb ?d (sst_name f) s1]) =
             ((s', h', n'), (w', tr'))"
          by auto
        from export_files_loop_steady[OF this] obtain evs where
          e: "h'" "0 < n'"
            "tr' = (tr @ [EvExportLinkCb ?d (sst_name f) s1]) @ evs"
            "list_all export_link_event evs"
            "list_all (\<lambda>f. ParseFileName env (sst_name f) \<noteq> None) rest \<and>
             list_all (\<lambda>e. ev_status e = OK) evs \<longrightarrow>
               evs = map (\<lambda>f. EvExportLinkCb ?d (sst_name f) OK) rest \<and>
               s' = (if rest = [] then s1 else OK)"
          by auto
        show ?thesis
        proof (intro exI[of _ "EvExportLinkCb ?d (sst_name f) s1 # evs"] conjI)
          show "tr' = tr @ EvExportLinkCb ?d (sst_name f) s1 # evs"
            using e(3) by simp
          show "fresh_outcome env fs s0 s' h' n' (EvExportLinkCb ?d (sst_name f) s1 # evs)"
            using e(1,2,4,5) ok1 Cons
            by (auto simp: fresh_outcome_def ok_def)
        qed
      qed
    qed
  qed
qed

lemma nothing_fails_append:
  "e1 \<noteq> [] \<Longrightarrow>
     nothing_fails (e1 @ e2) = (nothing_fails e1 \<and> list_all (\<lambda>e. ev_status e = OK) e2)"
  by (cases e1) auto

lemma falls_back_append:
  "falls_back_at_first e1 \<Longrightarrow> list_all export_copy_event e2 \<Longrightarrow> falls_back_at_first (e1 @ e2)"
  by (induction e1 rule: falls_back_at_first.induct) auto

lemma falls_back_two: "falls_back_at_first e \<Longrightarrow> 2 \<le> length e"
  by (induction e rule: falls_back_at_first.induct) auto

lemma export_levels_loop_fresh:
  assumes run: "export_levels_loop (logged env) (log_export_link_cb l) (log_export_copy_cb c)
                  ls s0 True 0 (w, tr) = ((s', h', n'), (w', tr'))"
  shows "\<exists>evs. tr' = tr @ evs \<and> fresh_outcome env (concat (map files ls)) s0 s' h' n' evs"
  using run
proof (induction ls arbitrary: s0 w tr)
  case Nil
  then show ?case by (simp add: fresh_outcome_def)
next
  case (Cons lv rest)
  let ?d = "GetName env"
  let ?fs = "files lv"
  let ?rs = "concat (map files rest)"
  let ?parses = "list_all (\<lambda>f. ParseFileName env (sst_name f) \<noteq> None)"
  obtain s1 h1 n1 w1 tr1 where
    f: "export_files_loop (logged env) (log_export_link_cb l) (log_export_copy_cb c)
          ?fs s0 True 0 (w, tr) = ((s1, h1, n1), (w1, tr1))"
    by (metis surj_pair)
  with Cons.prems have
    r: "export_levels_loop (logged env) (log_export_link_cb l) (log_export_copy_cb c)
          rest s1 h1 n1 (w1, tr1) = ((s', h', n'), (w', tr'))"
    by simp
  from export_files_loop_fresh[OF f] obtain e1 where
    e1: "tr1 = tr @ e1" "fresh_outcome env ?fs s0 s1 h1 n1 e1"
    by blast
  from e1(2) consider
    (none) "e1 = []" "h1" "n1 = 0" "?parses ?fs \<longrightarrow> ?fs = [] \<and> s1 = s0"
    | (links) "h1" "0 < n1" "e1 \<noteq> []" "list_all export_link_event e1"
        "?parses ?fs \<and> nothing_fails e1 \<longrightarrow>
           e1 = map (\<lambda>f. EvExportLinkCb ?d (sst_name f) OK) ?fs \<and> s1 = OK"
    | (copies) "\<not> h1" "falls_back_at_first e1"
        "?parses ?fs \<and> nothing_fails e1 \<longrightarrow>
           (\<exists>x. IsNotSupported x \<and>
                e1 = EvExportLinkCb ?d (sst_name (hd ?fs)) x #
                     map (\<lambda>f. EvExportCopyCb ?d (sst_name f) OK) ?fs) \<and> s1 = OK"
    unfolding fresh_outcome_def by blast
  then show ?case
  proof cases
    case none
    from Cons.IH[OF r[unfolded none(2)[THEN eqTrueI] none(3)]] obtain e2 where
      e2: "tr' = tr1 @ e2" "fresh_outcome env ?rs s1 s' h' n' e2"
      by auto
    have "fresh_outcome env (?fs @ ?rs) s0 s' h' n' e2"
      using e2(2) none(4) unfolding fresh_outcome_def by auto
    with e1(1) e2(1) none(1) show ?thesis by simp
  next
    case links
    from export_levels_loop_steady[OF r[unfolded links(1)[THEN eqTrueI]]] links(2)
    obtain e2 where
      e2: "h'" "0 < n'" "tr' = tr1 @ e2" "list_all export_link_event e2"
        "?parses ?rs \<and> list_all (\<lambda>e. ev_status e = OK) e2 \<longrightarrow>
           e2 = map (\<lambda>f. EvExportLinkCb ?d (sst_name f) OK) ?rs \<and>
           s' = (if ?rs = [] then s1 else OK)"
      by auto
    have "fresh_outcome env (?fs @ ?rs) s0 s' h' n' (e1 @ e2)"
      unfolding fresh_outcome_def
      using links(3,4,5) e2(1,2,4,5) by (auto simp: nothing_fails_append)
    with e1(1) e2(3) show ?thesis by (intro exI[of _ "e1 @ e2"]) simp
  next
    case copies
    from copies(1) have h1: "h1 = False" by simp
    from export_levels_loop_steady[OF r[unfolded h1]]
    obtain e2 where
      e2: "\<not> h'" "tr' = tr1 @ e2" "list_all export_copy_event e2"
        "?parses ?rs \<and> list_all (\<lambda>e. ev_status e = OK) e2 \<longrightarrow>
           e2 = map (\<lambda>f. EvExportCopyCb ?d (sst_name f) OK) ?rs \<and>
           s' = (if ?rs = [] then s1 else OK)"
      by auto
    from falls_back_two[OF copies(2)] have ne: "e1 \<noteq> []" by auto
    have fsne: "?fs \<noteq> []" if "e1 = x # map g ?fs" for x g
      using falls_back_two[OF copies(2)] that by auto
    have "fresh_outcome env (?fs @ ?rs) s0 s' h' n' (e1 @ e2)"
      unfolding fresh_outcome_def
    proof (intro disjI2 conjI impI)
      show "\<not> h'" by fact
      show "falls_back_at_first (e1 @ e2)"
        using copies(2) e2(3) by (rule falls_back_append)
      assume a: "?parses (?fs @ ?rs) \<and> nothing_fails (e1 @ e2)"
      with ne have p: "?parses ?fs" "?parses ?rs" "nothing_fails e1"
        "list_all (\<lambda>e. ev_status e = OK) e2"
        by (auto simp: nothing_fails_append)
      with copies(3) obtain x where
        x: "IsNotSupported x"
          "e1 = EvExportLinkCb ?d (sst_name (hd ?fs)) x #
                map (\<lambda>f. EvExportCopyCb ?d (sst_name f) OK) ?fs" "s1 = OK"
        by blast
      from fsne[OF x(2)] have hd: "hd (?fs @ ?rs) = hd ?fs" by simp
      from p e2(4) have r2: "e2 = map (\<lambda>f. EvExportCopyCb ?d (sst_name f) OK) ?rs"
        "s' = (if ?rs = [] then s1 else OK)"
        by auto
      show "\<exists>s1. IsNotSupported s1 \<and>
              e1 @ e2 = EvExportLinkCb ?d (sst_name (hd (?fs @ ?rs))) s1 #
                        map (\<lambda>f. EvExportCopyCb ?d (sst_name f) OK) (?fs @ ?rs)"
        using x(1,2) r2(1) hd by (intro exI[of _ x]) simp
      show "s' = OK" using r2(2) x(3) by simp
    qed
    with e1(1) e2(2) show ?thesis by (intro exI[of _ "e1 @ e2"]) simp
  qed
qed

text \<open>
  Claim C2, as the code has it. The transfer of an export, \<^verbatim>\<open>ExportFilesInMetaData\<close>, links
  the table files one by one. Its trace is made of links only, or it falls back to copy at
  its first file: the link of the first file is not supported, that file is copied, and
  every later file is copied without a link attempt. So a link that is not supported is
  followed by a copy only when it is the link of the first file. When every file name
  parses and nothing fails but such a first link, the transfer returns OK and its trace is
  the successful link of every table file, in order, or the first link followed by the
  successful copy of every table file, in order.
\<close>

theorem export_falls_back_at_first_file_only:
  assumes run: "ExportFilesInMetaData (logged env) opts md (log_export_link_cb l)
                  (log_export_copy_cb c) (w, []) = (s, (w', tr))"
  shows "(list_all export_link_event tr \<or> falls_back_at_first tr) \<and>
         (list_all (\<lambda>f. ParseFileName env f \<noteq> None) (table_file_names md) \<and>
          nothing_fails tr \<longrightarrow>
            s = OK \<and>
            (tr = map (\<lambda>f. EvExportLinkCb (GetName env) f OK) (table_file_names md) \<or>
             (\<exists>s1. IsNotSupported s1 \<and>
                   tr = EvExportLinkCb (GetName env) (hd (table_file_names md)) s1 #
                        map (\<lambda>f. EvExportCopyCb (GetName env) f OK) (table_file_names md))))"
proof -
  let ?fs = "concat (map files (levels md))"
  obtain h' n' where
    "export_levels_loop (logged env) (log_export_link_cb l) (log_export_copy_cb c)
       (levels md) OK True 0 (w, []) = ((s, h', n'), (w', tr))"
    using run unfolding ExportFilesInMetaData_def by (auto split: prod.splits)
  from export_levels_loop_fresh[OF this] have o: "fresh_outcome env ?fs OK s h' n' tr"
    by simp
  have hd: "sst_name (hd ?fs) = hd (table_file_names md)" if "?fs \<noteq> []"
    using that by (simp add: table_file_names_def hd_map)
  have ne: "?fs \<noteq> []" if "falls_back_at_first tr" "tr = x # map g ?fs" for x g
  proof
    assume "?fs = []"
    with that(2) have "tr = [x]" by (simp only: list.map)
    with falls_back_two[OF that(1)] show False by simp
  qed
  from o show ?thesis
    unfolding fresh_outcome_def
  proof (elim disjE conjE)
    assume "tr = []"
      "list_all (\<lambda>f. ParseFileName env (sst_name f) \<noteq> None) ?fs \<longrightarrow> ?fs = [] \<and> s = OK"
    then show ?thesis
      by (auto simp: table_file_names_def list_all_iff)
  next
    assume "list_all export_link_event tr"
      "list_all (\<lambda>f. ParseFileName env (sst_name f) \<noteq> None) ?fs \<and> nothing_fails tr \<longrightarrow>
         tr = map (\<lambda>f. EvExportLinkCb (GetName env) (sst_name f) OK) ?fs \<and> s = OK"
    then show ?thesis
      by (auto simp: table_file_names_def list_all_iff comp_def)
  next
    assume fb: "falls_back_at_first tr"
      and su: "list_all (\<lambda>f. ParseFileName env (sst_name f) \<noteq> None) ?fs \<and>
               nothing_fails tr \<longrightarrow>
         (\<exists>s1. IsNotSupported s1 \<and>
               tr = EvExportLinkCb (GetName env) (sst_name (hd ?fs)) s1 #
                    map (\<lambda>f. EvExportCopyCb (GetName env) (sst_name f) OK) ?fs) \<and> s = OK"
    show ?thesis
    proof (rule conjI[OF _ impI])
      show "list_all export_link_event tr \<or> falls_back_at_first tr" using fb by simp
    next
      assume a: "list_all (\<lambda>f. ParseFileName env f \<noteq> None) (table_file_names md) \<and>
                 nothing_fails tr"
      then have "list_all (\<lambda>f. ParseFileName env (sst_name f) \<noteq> None) ?fs \<and> nothing_fails tr"
        by (simp add: table_file_names_def list_all_iff)
      with su obtain s1 where
        s1: "IsNotSupported s1"
          "tr = EvExportLinkCb (GetName env) (sst_name (hd ?fs)) s1 #
                map (\<lambda>f. EvExportCopyCb (GetName env) (sst_name f) OK) ?fs" "s = OK"
        by blast
      from ne[OF fb s1(2)] hd have "sst_name (hd ?fs) = hd (table_file_names md)" by simp
      with s1 show "s = OK \<and>
            (tr = map (\<lambda>f. EvExportLinkCb (GetName env) f OK) (table_file_names md) \<or>
             (\<exists>s1. IsNotSupported s1 \<and>
                   tr = EvExportLinkCb (GetName env) (hd (table_file_names md)) s1 #
                        map (\<lambda>f. EvExportCopyCb (GetName env) f OK) (table_file_names md)))"
        by (auto simp: table_file_names_def comp_def)
    qed
  qed
qed

theorem export_falls_back_at_first_file_only_witness:
  "falls_back_at_first (snd (snd mem_export_run)) \<and>
   fst mem_export_run = OK \<and>
   snd (snd mem_export_run) =
     [EvExportLinkCb ''/db'' ''/000010.sst'' (NotSupported ''cross-device link''),
      EvExportCopyCb ''/db'' ''/000010.sst'' OK,
      EvExportCopyCb ''/db'' ''/000011.sst'' OK] \<and>
   (\<exists>s1. IsNotSupported s1 \<and>
      snd (snd mem_export_run) =
        EvExportLinkCb ''/db'' ''/000010.sst'' s1 #
        map (\<lambda>f. EvExportCopyCb ''/db'' f OK) [''/000010.sst'', ''/000011.sst''])"
proof -
  let ?tr = "snd (snd mem_export_run)"
  have r: "ExportFilesInMetaData (logged mem_env_no_links) mem_options mem_cf_metadata
       (log_export_link_cb (export_link_file_cb mem_env_no_links ''/exp.tmp''))
       (log_export_copy_cb (export_copy_file_cb mem_env_no_links mem_options ''/exp.tmp''))
       ([''/db'', ''/exp.tmp''], []) =
       (fst mem_export_run, (fst (snd mem_export_run), ?tr))"
    by (simp only: mem_export_run_def[symmetric] prod.collapse)
  have n: "table_file_names mem_cf_metadata = [''/000010.sst'', ''/000011.sst'']"
    "GetName mem_env_no_links = ''/db''"
    by code_simp+
  have p: "list_all (\<lambda>f. ParseFileName mem_env_no_links f \<noteq> None)
             [''/000010.sst'', ''/000011.sst'']"
    by code_simp
  have t: "?tr =
     [EvExportLinkCb ''/db'' ''/000010.sst'' (NotSupported ''cross-device link''),
      EvExportCopyCb ''/db'' ''/000010.sst'' OK,
      EvExportCopyCb ''/db'' ''/000011.sst'' OK]"
    by code_simp
  have f: "nothing_fails ?tr" "\<not> list_all export_link_event ?tr"
    unfolding t by simp_all
  have l: "?tr \<noteq> map (\<lambda>f. EvExportLinkCb ''/db'' f OK) [''/000010.sst'', ''/000011.sst'']"
    unfolding t by simp
  from export_falls_back_at_first_file_only[OF r, unfolded n] p f l t show ?thesis
    by (simp only: list.sel simp_thms)
qed

theorem later_unsupported_link_fails_the_export:
  "fst (ExportColumnFamily (logged mem_env_second_link_unsupported) mem_handle ''/exp'' None
          ([''/db''], [])) =
     (NotSupported ''cross-device link'', None) \<and>
   filter file_event
     (snd (snd (ExportColumnFamily (logged mem_env_second_link_unsupported) mem_handle ''/exp''
                  None ([''/db''], [])))) =
     [EvLinkFile ''/db/000010.sst'' ''/exp.tmp/000010.sst'' OK,
      EvLinkFile ''/db/000011.sst'' ''/exp.tmp/000011.sst''
        (NotSupported ''cross-device link'')]"
  by code_simp

section \<open>A checkpoint that fails\<close>













text \<open>
  When the rename has succeeded, a failure to sync the checkpoint directory is returned as
  the error of the call while the checkpoint stays under the target name: the purge is
  that of the staging name. \<^verbatim>\<open>ExportColumnFamily\<close> purges the directory that holds the
  files (\<^verbatim>\<open>moved_to_user_specified_dir\<close>).
\<close>

lemma failed_sync_leaves_the_checkpoint:
  "fst (CreateCheckpoint (logged mem_env_fsync_fails) False ''/snap'' 0 None [] []
          ([''/db''], [])) = (IOError ''fsync'', None) \<and>
   filter (\<lambda>p. p = ''/snap'' \<or> p = ''/snap.tmp'')
     (fst (snd (CreateCheckpoint (logged mem_env_fsync_fails) False ''/snap'' 0 None [] []
                  ([''/db''], [])))) = [''/snap'']"
  by code_simp

end
